(* ===== verification/Py_Prelude.thy ===== *)
theory Py_Prelude
  imports Main "HOL-Library.Word" "HOL-Library.AList" "HOL-Library.Char_ord"
    "HOL-Library.List_Lexorder" "HOL-Library.Sublist"
begin

text \<open>
  The prelude of the development: the parts of Python and of its standard library that every
  component shares.

  \<^item> \<open>exn\<close>: the exceptions the sources raise or catch. A fallible operation returns
    \<open>exn + 'a\<close>: \<open>Inl\<close> is the raised exception, \<open>Inr\<close> the returned value.
  \<^item> \<open>pyval\<close>: the dynamically typed values that come out of JSON and YAML documents, with the
    operations the sources apply to them (\<open>get\<close>, \<open>[]\<close>, \<open>in\<close>, iteration, truth value).
    A \<open>dict\<close> is an association list in insertion order; \<open>AList.update\<close> is item assignment.
  \<^item> \<open>str\<close> is \<open>string\<close>: the characters of a HOL string are the octets of its UTF-8 encoding,
    so the length of a Python string is never read off the model (the sources never read it
    either); \<open>bytes\<close> is a list of 8-bit words.
  \<^item> file system paths, decimal and hexadecimal printing, big-endian 32-bit integers.
\<close>

named_theorems py_defs \<open>definitions of the Python primitives\<close>
named_theorems py_splits \<open>case splits over results and values\<close>

type_synonym byte = "8 word"
type_synonym bytes = "8 word list"

section \<open>Exceptions\<close>

datatype exn =
    OversizedFrameError | MalformedFrameError | InvalidMessageTypeError
  | InvalidPayloadLengthError | EnvelopeError
  | ValueError | KeyError | TypeError | AttributeError | IndexError | RuntimeError
  | FileNotFoundError | StructError | UnicodeError | JSONDecodeError | YAMLError
  | ZlibError | CryptoError | TimeoutError | ConnectionRefusedError | ConnectionError
  | IncompleteReadError | LibraryError | STIXError | Exception string | SystemExit string

type_synonym 'a result = "exn + 'a"

fun rbind :: "'a result \<Rightarrow> ('a \<Rightarrow> 'b result) \<Rightarrow> 'b result" where
  "rbind (Inl e) f = Inl e"
| "rbind (Inr x) f = f x"

fun rmap :: "('a \<Rightarrow> 'b result) \<Rightarrow> 'a list \<Rightarrow> 'b list result" where
  "rmap f [] = Inr []"
| "rmap f (x # xs) = rbind (f x) (\<lambda>y. rbind (rmap f xs) (\<lambda>ys. Inr (y # ys)))"

fun rfold :: "('a \<Rightarrow> 's \<Rightarrow> 's result) \<Rightarrow> 'a list \<Rightarrow> 's \<Rightarrow> 's result" where
  "rfold f [] s = Inr s"
| "rfold f (x # xs) s = rbind (f x s) (rfold f xs)"

fun ok :: "'a result \<Rightarrow> bool" where
  "ok (Inl e) = False"
| "ok (Inr x) = True"

section \<open>Values\<close>

datatype pyval =
    VNone | VBool bool | VInt int | VFloat string | VStr string
  | VList "pyval list" | VDict "(string \<times> pyval) list"

text \<open>
  A float is kept as its literal. Its truth value is that of its digits before the exponent.
\<close>

fun truthy :: "pyval \<Rightarrow> bool" where
  "truthy VNone = False"
| "truthy (VBool b) = b"
| "truthy (VInt i) = (i \<noteq> 0)"
| "truthy (VFloat s) =
     list_ex (\<lambda>c. c \<in> set ''123456789INf'') (takeWhile (\<lambda>c. c \<notin> set ''eE'') s)"
| "truthy (VStr s) = (s \<noteq> [])"
| "truthy (VList xs) = (xs \<noteq> [])"
| "truthy (VDict d) = (d \<noteq> [])"

text \<open>\<open>v.get(k, default)\<close>: only dictionaries have the method.\<close>

fun py_get :: "pyval \<Rightarrow> string \<Rightarrow> pyval \<Rightarrow> pyval result" where
  "py_get (VDict d) k dflt = Inr (case map_of d k of None \<Rightarrow> dflt | Some v \<Rightarrow> v)"
| "py_get _ k dflt = Inl AttributeError"

text \<open>\<open>v[k]\<close> with a string key.\<close>

fun py_getitem :: "pyval \<Rightarrow> string \<Rightarrow> pyval result" where
  "py_getitem (VDict d) k = (case map_of d k of None \<Rightarrow> Inl KeyError | Some v \<Rightarrow> Inr v)"
| "py_getitem _ k = Inl TypeError"

text \<open>\<open>v[k] = w\<close> with a string key.\<close>

fun py_setitem :: "pyval \<Rightarrow> string \<Rightarrow> pyval \<Rightarrow> pyval result" where
  "py_setitem (VDict d) k w = Inr (VDict (AList.update k w d))"
| "py_setitem _ k w = Inl TypeError"

definition str_contains :: "string \<Rightarrow> string \<Rightarrow> bool" where
  "str_contains pat s = list_ex (prefix pat) (suffixes s)"

text \<open>\<open>k in v\<close> with a string on the left.\<close>

fun py_in :: "string \<Rightarrow> pyval \<Rightarrow> bool result" where
  "py_in k (VDict d) = Inr (map_of d k \<noteq> None)"
| "py_in k (VList xs) = Inr (VStr k \<in> set xs)"
| "py_in k (VStr s) = Inr (str_contains k s)"
| "py_in k _ = Inl TypeError"

text \<open>\<open>for x in v\<close>.\<close>

fun py_iter :: "pyval \<Rightarrow> pyval list result" where
  "py_iter (VList xs) = Inr xs"
| "py_iter (VDict d) = Inr (map (VStr \<circ> fst) d)"
| "py_iter (VStr s) = Inr (map (\<lambda>c. VStr [c]) s)"
| "py_iter _ = Inl TypeError"

text \<open>What may be put in a set or used as a dictionary key.\<close>

fun hashable :: "pyval \<Rightarrow> bool" where
  "hashable (VList _) = False"
| "hashable (VDict _) = False"
| "hashable _ = True"

fun is_dict :: "pyval \<Rightarrow> bool" where
  "is_dict (VDict _) = True"
| "is_dict _ = False"

section \<open>Strings\<close>

definition lower_char :: "char \<Rightarrow> char" where
  "lower_char c = (if CHR ''A'' \<le> c \<and> c \<le> CHR ''Z'' then char_of (of_char c + (32::nat)) else c)"

definition str_lower :: "string \<Rightarrow> string" where
  "str_lower = map lower_char"

text \<open>\<open>s.partition(sep)\<close> and \<open>s.split(sep)\<close> for a separator of one character.\<close>

fun str_partition :: "char \<Rightarrow> string \<Rightarrow> string \<times> string \<times> string" where
  "str_partition c [] = ([], [], [])"
| "str_partition c (x # xs) =
     (if x = c then ([], [c], xs)
      else case str_partition c xs of (h, s, t) \<Rightarrow> (x # h, s, t))"

fun str_split :: "char \<Rightarrow> string \<Rightarrow> string list" where
  "str_split c [] = [[]]"
| "str_split c (x # xs) =
     (if x = c then [] # str_split c xs
      else case str_split c xs of [] \<Rightarrow> [[x]] | w # ws \<Rightarrow> (x # w) # ws)"

fun digit_char :: "nat \<Rightarrow> char" where
  "digit_char n = char_of (if n < 10 then 48 + n else 87 + n)"

fun show_nat :: "nat \<Rightarrow> string" where
  "show_nat n = (if n < 10 then [digit_char n] else show_nat (n div 10) @ [digit_char (n mod 10)])"

declare show_nat.simps [simp del]

definition show_int :: "int \<Rightarrow> string" where
  "show_int i = (if i < 0 then CHR ''-'' # show_nat (nat (- i)) else show_nat (nat i))"

definition hex_byte :: "byte \<Rightarrow> string" where
  "hex_byte b = [digit_char (unat b div 16), digit_char (unat b mod 16)]"

definition hex_bytes :: "bytes \<Rightarrow> string" where
  "hex_bytes bs = concat (map hex_byte bs)"

definition is_lower_hex :: "char \<Rightarrow> bool" where
  "is_lower_hex c = (c \<in> set ''0123456789abcdef'')"

text \<open>How a value is spelt in an f-string; the spelling of lists and dictionaries is not modelled.\<close>

fun py_str :: "pyval \<Rightarrow> string" where
  "py_str VNone = ''None''"
| "py_str (VBool b) = (if b then ''True'' else ''False'')"
| "py_str (VInt i) = show_int i"
| "py_str (VFloat s) = s"
| "py_str (VStr s) = s"
| "py_str _ = []"

section \<open>Paths\<close>

text \<open>\<open>os.path.join(a, b)\<close> and \<open>os.path.dirname\<close> of POSIX.\<close>

definition path_join :: "string \<Rightarrow> string \<Rightarrow> string" where
  "path_join a b =
     (if prefix ''/'' b then b
      else if a = [] \<or> suffix ''/'' a then a @ b
      else a @ ''/'' @ b)"

definition rstrip_slash :: "string \<Rightarrow> string" where
  "rstrip_slash s = rev (dropWhile (\<lambda>c. c = CHR ''/'') (rev s))"

definition path_dirname :: "string \<Rightarrow> string" where
  "path_dirname p =
     (let h = rev (dropWhile (\<lambda>c. c \<noteq> CHR ''/'') (rev p))
      in if rstrip_slash h = [] then h else rstrip_slash h)"

section \<open>Big-endian 32-bit integers (\<open>struct\<close> format \<open>>I\<close>)\<close>

definition be32 :: "nat \<Rightarrow> bytes" where
  "be32 n = [word_of_nat (n div 2 ^ 24), word_of_nat (n div 2 ^ 16),
             word_of_nat (n div 2 ^ 8), word_of_nat n]"

fun be32_dec :: "bytes \<Rightarrow> nat" where
  "be32_dec [a, b, c, d] = ((unat a * 256 + unat b) * 256 + unat c) * 256 + unat d"
| "be32_dec _ = 0"

section \<open>Lemmas\<close>

lemma rbind_Inr_iff [simp]:
  "rbind m f = Inr y \<longleftrightarrow> (\<exists>x. m = Inr x \<and> f x = Inr y)"
  by (cases m) auto

lemma rbind_Inl_iff:
  "rbind m f = Inl e \<longleftrightarrow> m = Inl e \<or> (\<exists>x. m = Inr x \<and> f x = Inl e)"
  by (cases m) auto

lemma rmap_map: "rmap f (map g xs) = rmap (f \<circ> g) xs"
  by (induction xs) auto

lemma rmap_Inr: "(\<And>x. x \<in> set xs \<Longrightarrow> f x = Inr (g x)) \<Longrightarrow> rmap f xs = Inr (map g xs)"
  by (induction xs) auto

lemma rfold_append: "rfold f (xs @ ys) s = rbind (rfold f xs s) (rfold f ys)"
proof (induction xs arbitrary: s)
  case (Cons x xs)
  then show ?case by (cases "f x s") auto
qed simp

lemma ok_iff [simp]: "ok r \<longleftrightarrow> (\<exists>x. r = Inr x)"
  by (cases r) auto

lemma str_contains_iff: "str_contains pat s \<longleftrightarrow> sublist pat s"
  by (auto simp: str_contains_def list_ex_iff sublist_altdef')

lemma map_of_update_dict [simp]: "map_of (AList.update k v d) = (map_of d)(k \<mapsto> v)"
  by (rule update_conv')

lemma digit_char_less_10: "n < 10 \<Longrightarrow> digit_char n \<in> set ''0123456789''"
proof -
  have "list_all (\<lambda>n. digit_char n \<in> set ''0123456789'') [0..<10]" by code_simp
  then show "n < 10 \<Longrightarrow> digit_char n \<in> set ''0123456789''" by (simp add: list_all_iff)
qed

lemma unat_byte_less: "unat (b :: byte) < 256"
proof -
  have "unat b < 2 ^ LENGTH(8)" by (rule unsigned_less)
  then show ?thesis by simp
qed

lemma digit_char_hex: "n < 16 \<Longrightarrow> is_lower_hex (digit_char n)"
proof -
  have "list_all (\<lambda>n. is_lower_hex (digit_char n)) [0..<16]" by code_simp
  then show "n < 16 \<Longrightarrow> is_lower_hex (digit_char n)" by (simp add: list_all_iff)
qed

lemma hex_byte_lower: "c \<in> set (hex_byte b) \<Longrightarrow> is_lower_hex c"
proof -
  assume "c \<in> set (hex_byte b)"
  moreover have "unat b div 16 < 16" using unat_byte_less [of b] by linarith
  moreover have "unat b mod 16 < 16" by simp
  ultimately show ?thesis using digit_char_hex unfolding hex_byte_def by auto
qed

lemma length_hex_bytes: "length (hex_bytes bs) = 2 * length bs"
  by (induction bs) (auto simp: hex_bytes_def hex_byte_def)

lemma hex_bytes_lower: "c \<in> set (hex_bytes bs) \<Longrightarrow> is_lower_hex c"
  by (auto simp: hex_bytes_def dest: hex_byte_lower)

lemma lower_char_hex: "is_lower_hex c \<Longrightarrow> lower_char c = c"
  by (auto simp: is_lower_hex_def lower_char_def less_eq_char_def)

lemma str_lower_hex: "(\<And>c. c \<in> set s \<Longrightarrow> is_lower_hex c) \<Longrightarrow> str_lower s = s"
  by (induction s) (auto simp: str_lower_def lower_char_hex)

lemma length_be32 [simp]: "length (be32 n) = 4"
  by (simp add: be32_def)

lemma unat_word_of_nat_byte: "unat (word_of_nat n :: byte) = n mod 256"
  by (simp add: unat_of_nat)

lemma be32_nested:
  "be32 n = [word_of_nat (n div 256 div 256 div 256), word_of_nat (n div 256 div 256),
             word_of_nat (n div 256), word_of_nat n]"
  by (simp add: be32_def div_mult2_eq [symmetric])

lemma be32_dec_be32 [simp]:
  assumes "n < 2 ^ 32"
  shows "be32_dec (be32 n) = n"
proof -
  have "n div 256 div 256 div 256 < 256"
    using assms by (simp add: div_mult2_eq [symmetric])
  then show ?thesis
    unfolding be32_nested be32_dec.simps unat_word_of_nat_byte
    by (simp only: mod_less mult.commute [of _ 256] mult_div_mod_eq)
qed

lemma be32_be32_dec:
  assumes "length bs = 4"
  shows "be32 (be32_dec bs) = bs"
proof -
  obtain a b c d where bs: "bs = [a, b, c, d]"
    using assms by (auto simp: length_Suc_conv numeral_eq_Suc)
  have shift: "(m * 256 + unat e) div 256 = m" "(m * 256 + unat e) mod 256 = unat e"
    for m and e :: byte
    using unat_byte_less [of e] by auto
  show ?thesis
    unfolding bs be32_nested be32_dec.simps shift
    by (simp only: list.inject word_unat_eq_iff unat_word_of_nat_byte shift simp_thms
        mod_less [OF unat_byte_less])
qed

lemma be32_dec_less:
  assumes "length bs = 4"
  shows "be32_dec bs < 2 ^ 32"
proof -
  obtain a b c d where bs: "bs = [a, b, c, d]"
    using assms by (auto simp: length_Suc_conv numeral_eq_Suc)
  show ?thesis
    using unat_byte_less [of a] unat_byte_less [of b] unat_byte_less [of c] unat_byte_less [of d]
    unfolding bs be32_dec.simps by simp
qed

lemma append_prefix_split:
  assumes "h @ p = g @ x" "length h \<le> length g"
  obtains b where "g = h @ b" "p = b @ x"
  using assms that by (auto simp: append_eq_append_conv2)

end
