(* ===== verification/Sha256.thy ===== *)
theory Sha256
  imports Py_Prelude
begin

text \<open>
  SHA-256, as \<open>hashlib.sha256(data).digest()\<close> computes it (FIPS 180-4): padding, message
  schedule, compression. The gateways sign and verify the digest of the compressed payload, and
  every fingerprint of the trust infrastructure is the hexadecimal form of a digest.
\<close>

unbundle bit_operations_syntax

type_synonym u32 = "32 word"

text \<open>
  The constants, in decimal: the first 32 bits of the fractional parts of the cube roots of the
  first 64 primes, and of the square roots of the first eight. The lemmas \<open>sha_k_cube_roots\<close> and
  \<open>sha_h0_square_roots\<close> below check them against this description.
\<close>

definition sha_k :: "u32 list" where
  "sha_k =
    [1116352408, 1899447441, 3049323471, 3921009573, 961987163, 1508970993, 2453635748, 2870763221,
     3624381080, 310598401, 607225278, 1426881987, 1925078388, 2162078206, 2614888103, 3248222580,
     3835390401, 4022224774, 264347078, 604807628, 770255983, 1249150122, 1555081692, 1996064986,
     2554220882, 2821834349, 2952996808, 3210313671, 3336571891, 3584528711, 113926993, 338241895,
     666307205, 773529912, 1294757372, 1396182291, 1695183700, 1986661051, 2177026350, 2456956037,
     2730485921, 2820302411, 3259730800, 3345764771, 3516065817, 3600352804, 4094571909, 275423344,
     430227734, 506948616, 659060556, 883997877, 958139571, 1322822218, 1537002063, 1747873779,
     1955562222, 2024104815, 2227730452, 2361852424, 2428436474, 2756734187, 3204031479, 3329325298]"

definition sha_h0 :: "u32 list" where
  "sha_h0 = [1779033703, 3144134277, 1013904242, 2773480762,
     1359893119, 2600822924, 528734635, 1541459225]"

definition rotr :: "nat \<Rightarrow> u32 \<Rightarrow> u32" where
  "rotr n x = (drop_bit n x OR push_bit (32 - n) x)"

definition sha_ch :: "u32 \<Rightarrow> u32 \<Rightarrow> u32 \<Rightarrow> u32" where
  "sha_ch x y z = ((x AND y) XOR (NOT x AND z))"

definition sha_maj :: "u32 \<Rightarrow> u32 \<Rightarrow> u32 \<Rightarrow> u32" where
  "sha_maj x y z = ((x AND y) XOR (x AND z) XOR (y AND z))"

definition big_sigma0 :: "u32 \<Rightarrow> u32" where
  "big_sigma0 x = (rotr 2 x XOR rotr 13 x XOR rotr 22 x)"

definition big_sigma1 :: "u32 \<Rightarrow> u32" where
  "big_sigma1 x = (rotr 6 x XOR rotr 11 x XOR rotr 25 x)"

definition small_sigma0 :: "u32 \<Rightarrow> u32" where
  "small_sigma0 x = (rotr 7 x XOR rotr 18 x XOR drop_bit 3 x)"

definition small_sigma1 :: "u32 \<Rightarrow> u32" where
  "small_sigma1 x = (rotr 17 x XOR rotr 19 x XOR drop_bit 10 x)"

text \<open>The padding: a one bit, zeros to 56 modulo 64 octets, the length in bits in 64 bits.\<close>

definition be64 :: "64 word \<Rightarrow> bytes" where
  "be64 w = map (\<lambda>k. ucast (drop_bit k w)) [56, 48, 40, 32, 24, 16, 8, 0]"

definition sha_pad :: "bytes \<Rightarrow> bytes" where
  "sha_pad m = m @ [0x80] @ replicate ((119 - length m mod 64) mod 64) 0 @ be64 (8 * word_of_nat (length m))"

fun be_words :: "bytes \<Rightarrow> u32 list" where
  "be_words (a # b # c # d # r) =
     (push_bit 24 (ucast a) OR push_bit 16 (ucast b) OR push_bit 8 (ucast c) OR ucast d)
       # be_words r"
| "be_words _ = []"

text \<open>
  The schedule is kept in reverse, so that the words 2, 7, 15 and 16 places back are at the
  positions 1, 6, 14 and 15 of the list.
\<close>

fun sha_extend :: "nat \<Rightarrow> u32 list \<Rightarrow> u32 list" where
  "sha_extend 0 w = w"
| "sha_extend (Suc n) w =
     sha_extend n ((small_sigma1 (w ! 1) + w ! 6 + small_sigma0 (w ! 14) + w ! 15) # w)"

definition sha_schedule :: "u32 list \<Rightarrow> u32 list" where
  "sha_schedule block = rev (sha_extend 48 (rev block))"

fun sha_round :: "u32 \<times> u32 \<Rightarrow> u32 list \<Rightarrow> u32 list" where
  "sha_round (k, w) [a, b, c, d, e, f, g, h] =
     (let t1 = h + big_sigma1 e + sha_ch e f g + k + w;
          t2 = big_sigma0 a + sha_maj a b c
      in [t1 + t2, a, b, c, d + t1, e, f, g])"
| "sha_round _ s = s"

definition sha_compress :: "u32 list \<Rightarrow> u32 list \<Rightarrow> u32 list" where
  "sha_compress h block = map2 (+) h (fold sha_round (zip sha_k (sha_schedule block)) h)"

fun sha_blocks :: "nat \<Rightarrow> u32 list \<Rightarrow> u32 list \<Rightarrow> u32 list" where
  "sha_blocks 0 ws h = h"
| "sha_blocks (Suc n) ws h = sha_blocks n (drop 16 ws) (sha_compress h (take 16 ws))"

definition word_bytes :: "u32 \<Rightarrow> bytes" where
  "word_bytes w = map (\<lambda>k. ucast (drop_bit k w)) [24, 16, 8, 0]"

definition sha256 :: "bytes \<Rightarrow> bytes" where
  "sha256 m =
     (let p = sha_pad m
      in concat (map word_bytes (sha_blocks (length p div 64) (be_words p) sha_h0)))"

section \<open>The shape of a digest\<close>

lemma length_sha_round: "length h = 8 \<Longrightarrow> length (sha_round kw h) = 8"
  by (induction kw h rule: sha_round.induct) (auto simp: Let_def)

lemma length_fold_round: "length h = 8 \<Longrightarrow> length (fold sha_round kws h) = 8"
  by (induction kws arbitrary: h) (auto simp: length_sha_round)

lemma length_sha_compress: "length h = 8 \<Longrightarrow> length (sha_compress h b) = 8"
  by (simp add: sha_compress_def length_fold_round)

lemma length_sha_blocks: "length h = 8 \<Longrightarrow> length (sha_blocks n ws h) = 8"
  by (induction n arbitrary: ws h) (auto simp: length_sha_compress)

lemma length_concat_word_bytes: "length (concat (map word_bytes ws)) = 4 * length ws"
  by (induction ws) (auto simp: word_bytes_def)

lemma length_sha256 [simp]: "length (sha256 m) = 32"
  by (simp add: sha256_def Let_def length_concat_word_bytes length_sha_blocks sha_h0_def)

lemma sha_pad_aligned: "length (sha_pad m) mod 64 = 0"
proof -
  have "list_all (\<lambda>r. (r + 1 + (119 - r) mod 64 + 8) mod 64 = 0) [0..<64]" by code_simp
  then have "(r + 1 + (119 - r) mod 64 + 8) mod 64 = 0" if "r < 64" for r :: nat
    using that by (simp add: list_all_iff)
  from this [of "length m mod 64"]
  have "(length m mod 64 + 1 + (119 - length m mod 64) mod 64 + 8) mod 64 = 0" by simp
  then have "(length m + (1 + (119 - length m mod 64) mod 64 + 8)) mod 64 = 0"
    by (metis (no_types, lifting) add.assoc mod_add_left_eq)
  then show ?thesis by (simp add: sha_pad_def be64_def ac_simps)
qed

section \<open>The constants\<close>

definition first_primes :: "int list" where
  "first_primes =
    [2, 3, 5, 7, 11, 13, 17, 19, 23, 29, 31, 37, 41, 43, 47, 53,
     59, 61, 67, 71, 73, 79, 83, 89, 97, 101, 103, 107, 109, 113, 127, 131,
     137, 139, 149, 151, 157, 163, 167, 173, 179, 181, 191, 193, 197, 199, 211, 223,
     227, 229, 233, 239, 241, 251, 257, 263, 269, 271, 277, 281, 283, 293, 307, 311]"

text \<open>The integer part of the root is given, the 32 bits after the point are the constant.\<close>

definition cube_root_bits :: "int \<Rightarrow> u32 \<Rightarrow> bool" where
  "cube_root_bits p k =
     (\<exists>n \<in> set [1, 2, 3, 4, 5, 6]. let r = n * 2 ^ 32 + uint k in r ^ 3 \<le> p * 2 ^ 96 \<and> p * 2 ^ 96 < (r + 1) ^ 3)"

definition square_root_bits :: "int \<Rightarrow> u32 \<Rightarrow> bool" where
  "square_root_bits p h =
     (\<exists>n \<in> set [1, 2, 3, 4]. let r = n * 2 ^ 32 + uint h in r ^ 2 \<le> p * 2 ^ 64 \<and> p * 2 ^ 64 < (r + 1) ^ 2)"

lemma sha_k_cube_roots: "list_all2 cube_root_bits first_primes sha_k"
  by code_simp

lemma sha_h0_square_roots: "list_all2 square_root_bits (take 8 first_primes) sha_h0"
  by code_simp

end
