(* ===== verification/Sha256_Vectors.thy ===== *)
theory Sha256_Vectors
  imports Sha256
begin

text \<open>
  The test vector of FIPS 180-4 for the message \<open>abc\<close>, evaluated by the kernel: the definition of
  \<open>sha256\<close> is the published function.
\<close>

lemma sha256_abc:
  "hex_bytes (sha256 [0x61, 0x62, 0x63]) =
     ''ba7816bf8f01cfea414140de5dae2223b00361a396177a9cb410ff61f20015ad''"
  by code_simp

end
