(* ===== verification/Interfaces.thy ===== *)
theory Interfaces
  imports Py_Prelude
begin

text \<open>
  Contracts that several components share, as locales. The frame codec's contract is
  \<open>stream_codec\<close> in \<open>Qstie_Common\<close>; here are

  \<^item> \<open>fail_closed\<close>: a policy enforcement point that permits only what some entry of its policy
    grants (both gateways have one);
  \<^item> \<open>guarded_system\<close>: a state machine with an invariant (the connection semaphore of Gateway B,
    the worker pipeline of Gateway A);
  \<^item> \<open>bounded_fifo\<close>: a first-in first-out queue of bounded size (\<open>asyncio.Queue\<close>).
\<close>

section \<open>Policy enforcement points\<close>

locale fail_closed =
  fixes decide :: "'p list \<Rightarrow> 'q \<Rightarrow> bool"
    and grants :: "'p \<Rightarrow> 'q \<Rightarrow> bool"
  assumes permit_granted: "decide ps q \<Longrightarrow> \<exists>p \<in> set ps. grants p q"
begin

lemma empty_denies: "\<not> decide [] q"
  using permit_granted [of "[]" q] by auto

lemma ungranted_denied: "(\<And>p. p \<in> set ps \<Longrightarrow> \<not> grants p q) \<Longrightarrow> \<not> decide ps q"
  using permit_granted by blast

text \<open>Entries that grant nothing cannot open a closed policy.\<close>

lemma no_grant_added:
  "(\<And>p. p \<in> set (ps @ ps') \<Longrightarrow> \<not> grants p q) \<Longrightarrow> \<not> decide (ps @ ps') q"
  by (rule ungranted_denied)

end

section \<open>State machines\<close>

locale guarded_system =
  fixes step :: "'s \<Rightarrow> 's \<Rightarrow> bool"
    and inv :: "'s \<Rightarrow> bool"
  assumes step_inv: "inv s \<Longrightarrow> step s t \<Longrightarrow> inv t"
begin

lemma reach_inv: "step\<^sup>*\<^sup>* s t \<Longrightarrow> inv s \<Longrightarrow> inv t"
  by (induction rule: rtranclp_induct) (auto intro: step_inv)

end

section \<open>Queues\<close>

locale bounded_fifo =
  fixes items :: "'q \<Rightarrow> 'a list"
    and capacity :: "'q \<Rightarrow> nat"
    and put :: "'a \<Rightarrow> 'q \<Rightarrow> 'q option"
    and get :: "'q \<Rightarrow> ('a \<times> 'q) option"
  assumes put_items: "put x q = Some q' \<Longrightarrow> items q' = items q @ [x]"
    and put_capacity: "put x q = Some q' \<Longrightarrow> capacity q' = capacity q"
    and put_blocks: "put x q = None \<longleftrightarrow> 0 < capacity q \<and> capacity q \<le> length (items q)"
    and get_items: "get q = Some (x, q') \<Longrightarrow> items q = x # items q'"
    and get_capacity: "get q = Some (x, q') \<Longrightarrow> capacity q' = capacity q"
    and get_blocks: "get q = None \<longleftrightarrow> items q = []"
begin

definition within :: "'q \<Rightarrow> bool" where
  "within q = (0 < capacity q \<longrightarrow> length (items q) \<le> capacity q)"

lemma put_within: "put x q = Some q' \<Longrightarrow> within q \<Longrightarrow> within q'"
  using put_blocks [of x q] put_items [of x q q'] put_capacity [of x q q']
  by (auto simp: within_def)

lemma get_within: "get q = Some (x, q') \<Longrightarrow> within q \<Longrightarrow> within q'"
  using get_items [of q x q'] get_capacity [of q x q'] by (auto simp: within_def)

text \<open>A consumer waits exactly when nothing was put that was not taken.\<close>

lemma put_then_get_ready: "put x q = Some q' \<Longrightarrow> get q' \<noteq> None"
  using put_items [of x q q'] get_blocks [of q'] by auto

end

end
