(* ===== verification/Py_Text.thy ===== *)
theory Py_Text
  imports Py_Prelude
begin

text \<open>
  Text and octets: \<open>str.encode('utf-8')\<close> and \<open>bytes.decode('utf-8')\<close>, and the code points of
  a string, which \<open>json.dumps\<close> escapes. A string holds the octets of its UTF-8 encoding; a lone
  surrogate, which a \<open>\u\<close> escape of a JSON document can put into a string, is held as the
  three octets its code point would have, and encoding such a string raises.
\<close>

definition octets :: "string \<Rightarrow> nat list" where
  "octets s = map of_char s"

definition of_octets :: "nat list \<Rightarrow> string" where
  "of_octets ns = map char_of ns"

fun cp_octets :: "nat \<Rightarrow> nat list" where
  "cp_octets c =
     (if c < 0x80 then [c]
      else if c < 0x800 then [0xC0 + c div 64, 0x80 + c mod 64]
      else if c < 0x10000 then [0xE0 + c div 4096, 0x80 + c div 64 mod 64, 0x80 + c mod 64]
      else [0xF0 + c div 262144, 0x80 + c div 4096 mod 64, 0x80 + c div 64 mod 64,
            0x80 + c mod 64])"

definition cont :: "nat \<Rightarrow> bool" where
  "cont b = (0x80 \<le> b \<and> b < 0xC0)"

text \<open>The code points of a sequence of octets; \<open>None\<close> when it is not UTF-8.\<close>

fun utf8_cps :: "nat list \<Rightarrow> nat list option" where
  "utf8_cps [] = Some []"
| "utf8_cps (a # r) =
     (if a < 0x80 then map_option ((#) a) (utf8_cps r)
      else case r of [] \<Rightarrow> None | b # r2 \<Rightarrow>
        if 0xC2 \<le> a \<and> a < 0xE0 then
          (if cont b then map_option ((#) ((a - 0xC0) * 64 + (b - 0x80))) (utf8_cps r2) else None)
        else case r2 of [] \<Rightarrow> None | c # r3 \<Rightarrow>
          if 0xE0 \<le> a \<and> a < 0xF0 then
            (let p = (a - 0xE0) * 4096 + (b - 0x80) * 64 + (c - 0x80)
             in if cont b \<and> cont c \<and> 0x800 \<le> p then map_option ((#) p) (utf8_cps r3) else None)
          else case r3 of [] \<Rightarrow> None | d # r4 \<Rightarrow>
            (let p = (a - 0xF0) * 262144 + (b - 0x80) * 4096 + (c - 0x80) * 64 + (d - 0x80)
             in if 0xF0 \<le> a \<and> a < 0xF8 \<and> cont b \<and> cont c \<and> cont d
                   \<and> 0x10000 \<le> p \<and> p < 0x110000
                then map_option ((#) p) (utf8_cps r4) else None))"

declare utf8_cps.simps(2) [simp del]

definition surrogate :: "nat \<Rightarrow> bool" where
  "surrogate c = (0xD800 \<le> c \<and> c < 0xE000)"

text \<open>A scalar value: a code point that is not a surrogate.\<close>

definition scalar :: "nat \<Rightarrow> bool" where
  "scalar c = (c < 0x110000 \<and> \<not> surrogate c)"

definition valid_text :: "string \<Rightarrow> bool" where
  "valid_text s =
     (case utf8_cps (octets s) of None \<Rightarrow> False | Some cps \<Rightarrow> list_all scalar cps)"

definition byte_of_char :: "char \<Rightarrow> byte" where
  "byte_of_char c = word_of_nat (of_char c)"

definition char_of_byte :: "byte \<Rightarrow> char" where
  "char_of_byte b = char_of (unat b)"

definition encode_utf8 :: "string \<Rightarrow> bytes result" where
  "encode_utf8 s = (if valid_text s then Inr (map byte_of_char s) else Inl UnicodeError)"

definition decode_utf8 :: "bytes \<Rightarrow> string result" where
  "decode_utf8 bs =
     (let s = map char_of_byte bs in if valid_text s then Inr s else Inl UnicodeError)"

definition text_of_cps :: "nat list \<Rightarrow> string" where
  "text_of_cps cps = of_octets (concat (map cp_octets cps))"

definition ascii :: "string \<Rightarrow> bool" where
  "ascii s = list_all (\<lambda>c. of_char c < (128::nat)) s"

section \<open>Lemmas\<close>

lemma char_of_byte_of_char [simp]: "char_of_byte (byte_of_char c) = c"
proof -
  have "(of_char c :: nat) < 256" by simp
  then show ?thesis
    by (simp add: char_of_byte_def byte_of_char_def unat_word_of_nat_byte)
qed

lemma byte_of_char_of_byte [simp]: "byte_of_char (char_of_byte b) = b"
  using unat_byte_less [of b] by (simp add: char_of_byte_def byte_of_char_def)

lemma map_char_of_byte_of_char [simp]: "map (char_of_byte \<circ> byte_of_char) s = s"
  by (induction s) auto

lemma decode_encode_utf8: "encode_utf8 s = Inr b \<Longrightarrow> decode_utf8 b = Inr s"
  by (auto simp: encode_utf8_def decode_utf8_def Let_def split: if_splits)

lemma encode_decode_utf8: "decode_utf8 b = Inr s \<Longrightarrow> encode_utf8 s = Inr b"
  by (auto simp: encode_utf8_def decode_utf8_def Let_def comp_def split: if_splits)

lemma octets_of_octets: "list_all (\<lambda>n. n < 256) ns \<Longrightarrow> octets (of_octets ns) = ns"
  by (induction ns) (auto simp: octets_def of_octets_def)

lemma of_octets_octets [simp]: "of_octets (octets s) = s"
  by (induction s) (auto simp: octets_def of_octets_def)

lemma octets_append [simp]: "octets (s @ t) = octets s @ octets t"
  by (simp add: octets_def)

lemma of_octets_append [simp]: "of_octets (s @ t) = of_octets s @ of_octets t"
  by (simp add: of_octets_def)

lemma div64: "b < 64 \<Longrightarrow> (m * 64 + b) div 64 = (m::nat)" and mod64: "b < 64 \<Longrightarrow> (m * 64 + b) mod 64 = (b::nat)"
  by simp_all

lemma split64: obtains q m where "(c::nat) = q * 64 + m" "m < 64"
  using that [of "c div 64" "c mod 64"] by simp

lemma utf8_cps_cp:
  assumes "c < 0x110000"
  shows "utf8_cps (cp_octets c @ r) = map_option ((#) c) (utf8_cps r)"
proof -
  obtain q m where c: "c = q * 64 + m" and m: "m < 64" by (rule split64)
  obtain q2 m2 where q: "q = q2 * 64 + m2" and m2: "m2 < 64" by (rule split64)
  obtain q3 m3 where q2: "q2 = q3 * 64 + m3" and m3: "m3 < 64" by (rule split64)
  have d: "c div 64 = q" "c mod 64 = m" "q div 64 = q2" "q mod 64 = m2" "q2 div 64 = q3"
    "q2 mod 64 = m3"
    using m m2 m3 by (simp_all only: c q q2 div64 mod64)
  then have d2: "c div 4096 = q2" "c div 262144 = q3"
    using div_mult2_eq [of c 64 64] div_mult2_eq [of c 4096 64] by simp_all
  consider "c < 0x80" | "0x80 \<le> c" "c < 0x800" | "0x800 \<le> c" "c < 0x10000"
    | "0x10000 \<le> c" "c < 0x110000"
    using assms by linarith
  then show ?thesis
  proof cases
    case 1
    then show ?thesis by (simp add: utf8_cps.simps(2))
  next
    case 2
    then have "2 \<le> q" "q < 32" using c m by linarith+
    then show ?thesis
      using 2 m unfolding cp_octets.simps d d2 by (simp add: utf8_cps.simps(2) cont_def c)
  next
    case 3
    then have "q2 < 16" using c m q m2 by linarith
    moreover have "q2 * 4096 + m2 * 64 + m = c" using c q by simp
    ultimately show ?thesis
      using 3 m m2 unfolding cp_octets.simps d d2
      by (simp add: utf8_cps.simps(2) cont_def Let_def)
  next
    case 4
    then have "q3 < 5" using c m q m2 q2 m3 by linarith
    moreover have "q3 * 262144 + m3 * 4096 + m2 * 64 + m = c" using c q q2 by simp
    ultimately show ?thesis
      using 4 m m2 m3 unfolding cp_octets.simps d d2
      by (simp add: utf8_cps.simps(2) cont_def Let_def)
  qed
qed

lemma utf8_cps_concat:
  "list_all (\<lambda>c. c < 0x110000) cps \<Longrightarrow> utf8_cps (concat (map cp_octets cps)) = Some cps"
  by (induction cps) (auto simp: utf8_cps_cp simp del: cp_octets.simps)

lemma cp_octets_less: "c < 0x110000 \<Longrightarrow> list_all (\<lambda>n. n < 256) (cp_octets c)"
  by (auto simp: less_mult_imp_div_less intro: le_less_trans [OF add_left_mono])

text \<open>The octets of a decoded sequence are those of its code points.\<close>

lemma cp_octets2:
  assumes "0xC2 \<le> a" "a < 0xE0" "cont b"
  defines "p \<equiv> (a - 0xC0) * 64 + (b - 0x80)"
  shows "cp_octets p = [a, b]" and "p < 0x110000"
proof -
  have "b - 0x80 < 64" using assms(3) by (auto simp: cont_def)
  then have "p div 64 = a - 0xC0" "p mod 64 = b - 0x80" by (simp_all add: p_def)
  moreover have "0x80 \<le> p" "p < 0x800" using assms(1-3) by (auto simp: p_def cont_def)
  ultimately show "cp_octets p = [a, b]" "p < 0x110000"
    using assms(1-3) by (auto simp: cont_def)
qed

lemma digits64:
  assumes "x < 64" "y < 64"
  shows "(w * 4096 + x * 64 + y) mod 64 = (y::nat)" "(w * 4096 + x * 64 + y) div 64 = w * 64 + x"
    "(w * 4096 + x * 64 + y) div 4096 = w"
proof -
  have e: "w * 4096 + x * 64 + y = (w * 64 + x) * 64 + y" by simp
  show "(w * 4096 + x * 64 + y) mod 64 = y" "(w * 4096 + x * 64 + y) div 64 = w * 64 + x"
    unfolding e using assms by (simp_all only: div64 mod64)
  then have "(w * 4096 + x * 64 + y) div 64 div 64 = w"
    using assms by (simp only: div64)
  then show "(w * 4096 + x * 64 + y) div 4096 = w" by (simp add: div_mult2_eq [symmetric])
qed

lemma cp_octets3_add:
  assumes "w < 16" "x < 64" "y < 64" "0x800 \<le> w * 4096 + x * 64 + y"
  shows "cp_octets (w * 4096 + x * 64 + y) = [0xE0 + w, 0x80 + x, 0x80 + y]"
    and "w * 4096 + x * 64 + y < 0x110000"
proof -
  have "w * 4096 + x * 64 + y < 0x10000" using assms by linarith
  then show "cp_octets (w * 4096 + x * 64 + y) = [0xE0 + w, 0x80 + x, 0x80 + y]"
    and "w * 4096 + x * 64 + y < 0x110000"
    using assms unfolding cp_octets.simps digits64 [OF assms(2,3)]
    by (simp_all only: mod64) simp_all
qed

lemma cp_octets3:
  assumes "0xE0 \<le> a" "a < 0xF0" "cont b" "cont c"
    and "0x800 \<le> (a - 0xE0) * 4096 + (b - 0x80) * 64 + (c - 0x80)"
  shows "cp_octets ((a - 0xE0) * 4096 + (b - 0x80) * 64 + (c - 0x80)) = [a, b, c]"
    and "(a - 0xE0) * 4096 + (b - 0x80) * 64 + (c - 0x80) < 0x110000"
proof -
  have "a - 0xE0 < 16" "b - 0x80 < 64" "c - 0x80 < 64"
    using assms(1-4) by (auto simp: cont_def)
  note cp_octets3_add [OF this assms(5)]
  then show "cp_octets ((a - 0xE0) * 4096 + (b - 0x80) * 64 + (c - 0x80)) = [a, b, c]"
    and "(a - 0xE0) * 4096 + (b - 0x80) * 64 + (c - 0x80) < 0x110000"
    using assms(1-4) by (simp_all add: cont_def del: cp_octets.simps)
qed

lemma cp_octets4_add:
  assumes "x < 64" "y < 64" "z < 64" "0x10000 \<le> w * 262144 + x * 4096 + y * 64 + z"
  shows "cp_octets (w * 262144 + x * 4096 + y * 64 + z) = [0xF0 + w, 0x80 + x, 0x80 + y, 0x80 + z]"
proof -
  have e: "w * 262144 + x * 4096 + y * 64 + z = (w * 64 + x) * 4096 + y * 64 + z" by simp
  have "((w * 64 + x) * 4096 + y * 64 + z) div 4096 div 64 = w"
    unfolding digits64 [OF assms(2,3)] using assms by (simp only: div64)
  then have "((w * 64 + x) * 4096 + y * 64 + z) div 262144 = w"
    by (simp add: div_mult2_eq [symmetric])
  then show ?thesis
    using assms unfolding cp_octets.simps e digits64 [OF assms(2,3)]
    by (simp_all only: mod64) simp_all
qed

lemma cp_octets4:
  assumes "0xF0 \<le> a" "cont b" "cont c" "cont d"
    and "0x10000 \<le> (a - 0xF0) * 262144 + (b - 0x80) * 4096 + (c - 0x80) * 64 + (d - 0x80)"
  shows "cp_octets ((a - 0xF0) * 262144 + (b - 0x80) * 4096 + (c - 0x80) * 64 + (d - 0x80)) =
    [a, b, c, d]"
proof -
  have "b - 0x80 < 64" "c - 0x80 < 64" "d - 0x80 < 64"
    using assms(2-4) by (auto simp: cont_def)
  note cp_octets4_add [OF this assms(5)]
  then show ?thesis
    using assms(1-4) by (simp_all add: cont_def del: cp_octets.simps)
qed

lemma utf8_cps_inv:
  "utf8_cps ns = Some cps \<Longrightarrow> concat (map cp_octets cps) = ns \<and> list_all (\<lambda>c. c < 0x110000) cps"
proof (induction ns arbitrary: cps rule: utf8_cps.induct)
  case 1
  then show ?case by simp
next
  case (2 a r)
  note IH = "2.IH" and prem = "2.prems"
  show ?case
  proof (cases "a < 0x80")
    case True
    with prem obtain cs where "utf8_cps r = Some cs" "cps = a # cs"
      by (auto simp: utf8_cps.simps(2))
    with IH(1) True show ?thesis by auto
  next
    case False
    with prem obtain b r2 where r: "r = b # r2" by (auto simp: utf8_cps.simps(2) split: list.splits)
    show ?thesis
    proof (cases "0xC2 \<le> a \<and> a < 0xE0")
      case True
      with prem False r obtain cs where "cont b" and cs: "utf8_cps r2 = Some cs"
        "cps = ((a - 0xC0) * 64 + (b - 0x80)) # cs"
        by (auto simp: utf8_cps.simps(2) split: if_splits)
      then show ?thesis
        using IH(2) [OF False r True] cp_octets2 [of a b] True r
        by (simp del: cp_octets.simps)
    next
      case not2: False
      with prem False r obtain c r3 where r2: "r2 = c # r3"
        by (auto simp: utf8_cps.simps(2) split: list.splits if_splits)
      show ?thesis
      proof (cases "0xE0 \<le> a \<and> a < 0xF0")
        case True
        let ?p = "(a - 0xE0) * 4096 + (b - 0x80) * 64 + (c - 0x80)"
        from prem False r r2 not2 True obtain cs where "cont b" "cont c" "0x800 \<le> ?p"
          "utf8_cps r3 = Some cs" "cps = ?p # cs"
          by (auto simp: utf8_cps.simps(2) Let_def split: if_splits)
        then show ?thesis
          using IH(3) [OF False r not2 r2 True refl] cp_octets3 [of a b c] True r r2
          by (simp del: cp_octets.simps)
      next
        case not3: False
        with prem False r r2 not2 obtain d r4 where r3: "r3 = d # r4"
          by (auto simp: utf8_cps.simps(2) split: list.splits if_splits)
        let ?p = "(a - 0xF0) * 262144 + (b - 0x80) * 4096 + (c - 0x80) * 64 + (d - 0x80)"
        from prem False r r2 r3 not2 not3 obtain cs where "0xF0 \<le> a" "a < 0xF8" "cont b" "cont c"
          "cont d" "0x10000 \<le> ?p" "?p < 0x110000" "utf8_cps r4 = Some cs" "cps = ?p # cs"
          by (auto simp: utf8_cps.simps(2) Let_def split: if_splits)
        then show ?thesis
          using IH(4) [OF False r not2 r2 not3 r3 refl] cp_octets4 [of a b c d] r r2 r3
          by (simp del: cp_octets.simps)
      qed
    qed
  qed
qed

lemma valid_text_cps:
  assumes "valid_text s"
  obtains cps where "utf8_cps (octets s) = Some cps" "s = text_of_cps cps" "list_all scalar cps"
proof -
  from assms obtain cps where c: "utf8_cps (octets s) = Some cps" and v: "list_all scalar cps"
    by (auto simp: valid_text_def split: option.splits)
  from utf8_cps_inv [OF c] have "text_of_cps cps = s"
    by (simp add: text_of_cps_def)
  then show thesis using that [OF c _ v] by blast
qed

lemma utf8_cps_ascii: "list_all (\<lambda>n. n < 128) ns \<Longrightarrow> utf8_cps ns = Some ns"
  by (induction ns) (auto simp: utf8_cps.simps(2))

lemma ascii_valid: "ascii s \<Longrightarrow> valid_text s"
proof -
  assume "ascii s"
  then have a: "list_all (\<lambda>n. n < 128) (octets s)"
    by (auto simp: ascii_def octets_def list_all_iff)
  then have "utf8_cps (octets s) = Some (octets s)" by (rule utf8_cps_ascii)
  moreover have "list_all scalar (octets s)"
    using a by (auto simp: list_all_iff scalar_def surrogate_def)
  ultimately show ?thesis by (simp add: valid_text_def)
qed

end
