(* ===== verification/Py_Json.thy ===== *)
theory Py_Json
  imports Py_Text
begin

text \<open>
  \<open>json.dumps\<close> and \<open>json.loads\<close> with their default arguments: the printer escapes everything
  outside printable ASCII and separates with \<open>", "\<close> and \<open>": "\<close>; the reader is the grammar of the
  standard library's scanner (white space, escapes with surrogate pairs, numbers, \<open>NaN\<close> and
  \<open>Infinity\<close>, the last of two equal keys wins, at most 4300 digits in an integer, a byte order
  mark refused). A fuel argument makes the reader structural; \<open>json_loads\<close> passes
  \<open>2 * length s + 2\<close>, and \<open>json_loads_total\<close> shows that it never runs out.

  The theory \<open>Py_Json_Roundtrip\<close> shows that what is printed is read back unchanged.
\<close>

abbreviation quote :: char where "quote \<equiv> CHR 0x22"
abbreviation backslash :: char where "backslash \<equiv> CHR 0x5C"

section \<open>Printing\<close>

definition hex4 :: "nat \<Rightarrow> string" where
  "hex4 n = [digit_char (n div 4096 mod 16), digit_char (n div 256 mod 16),
             digit_char (n div 16 mod 16), digit_char (n mod 16)]"

definition u_esc :: "nat \<Rightarrow> string" where
  "u_esc n = [backslash, CHR ''u''] @ hex4 n"

definition json_esc :: "nat \<Rightarrow> string" where
  "json_esc c =
     (if c = 0x22 then [backslash, quote]
      else if c = 0x5C then [backslash, backslash]
      else if c = 8 then [backslash, CHR ''b'']
      else if c = 9 then [backslash, CHR ''t'']
      else if c = 10 then [backslash, CHR ''n'']
      else if c = 12 then [backslash, CHR ''f'']
      else if c = 13 then [backslash, CHR ''r'']
      else if 32 \<le> c \<and> c < 127 then [char_of c]
      else if c < 0x10000 then u_esc c
      else u_esc (0xD800 + (c - 0x10000) div 1024) @ u_esc (0xDC00 + (c - 0x10000) mod 1024))"

definition cps_of :: "string \<Rightarrow> nat list" where
  "cps_of s = (case utf8_cps (octets s) of None \<Rightarrow> octets s | Some cps \<Rightarrow> cps)"

definition json_str :: "string \<Rightarrow> string" where
  "json_str s = [quote] @ concat (map json_esc (cps_of s)) @ [quote]"

fun json_dumps :: "pyval \<Rightarrow> string"
  and dumps_elems :: "pyval list \<Rightarrow> string"
  and dumps_members :: "(string \<times> pyval) list \<Rightarrow> string" where
  "json_dumps VNone = ''null''"
| "json_dumps (VBool b) = (if b then ''true'' else ''false'')"
| "json_dumps (VInt i) = show_int i"
| "json_dumps (VFloat s) = s"
| "json_dumps (VStr s) = json_str s"
| "json_dumps (VList xs) = ''['' @ dumps_elems xs @ '']''"
| "json_dumps (VDict d) = ''{'' @ dumps_members d @ ''}''"
| "dumps_elems [] = []"
| "dumps_elems [x] = json_dumps x"
| "dumps_elems (x # y # r) = json_dumps x @ '', '' @ dumps_elems (y # r)"
| "dumps_members [] = []"
| "dumps_members [(k, x)] = json_str k @ '': '' @ json_dumps x"
| "dumps_members ((k, x) # y # r) =
     json_str k @ '': '' @ json_dumps x @ '', '' @ dumps_members (y # r)"

section \<open>Reading\<close>

datatype 'a jres = JOk 'a string | JFail exn | JFuel

definition is_ws :: "char \<Rightarrow> bool" where
  "is_ws c = (c = CHR 0x20 \<or> c = CHR 0x09 \<or> c = CHR 0x0A \<or> c = CHR 0x0D)"

definition skip_ws :: "string \<Rightarrow> string" where
  "skip_ws = dropWhile is_ws"

definition is_digit :: "char \<Rightarrow> bool" where
  "is_digit c = (48 \<le> (of_char c :: nat) \<and> (of_char c :: nat) < 58)"

definition digit_val :: "char \<Rightarrow> nat" where
  "digit_val c = of_char c - 48"

definition hex_val :: "char \<Rightarrow> nat option" where
  "hex_val c =
     (let n = of_char c
      in if 48 \<le> n \<and> n < 58 then Some (n - 48)
         else if 97 \<le> n \<and> n < 103 then Some (n - 87)
         else if 65 \<le> n \<and> n < 71 then Some (n - 55)
         else None)"

fun read_u4 :: "string \<Rightarrow> (nat \<times> string) option" where
  "read_u4 (a # b # c # d # r) =
     (case (hex_val a, hex_val b, hex_val c, hex_val d) of
        (Some a, Some b, Some c, Some d) \<Rightarrow> Some (a * 4096 + b * 256 + c * 16 + d, r)
      | _ \<Rightarrow> None)"
| "read_u4 _ = None"

definition simple_esc :: "char \<Rightarrow> char option" where
  "simple_esc e = map_of
     [(quote, quote), (backslash, backslash), (CHR ''/'', CHR ''/''), (CHR ''b'', CHR 0x08),
      (CHR ''f'', CHR 0x0C), (CHR ''n'', CHR 0x0A), (CHR ''r'', CHR 0x0D), (CHR ''t'', CHR 0x09)] e"

definition prepend :: "string \<Rightarrow> (string \<times> string) option \<Rightarrow> (string \<times> string) option" where
  "prepend p = map_option (\<lambda>(s, r). (p @ s, r))"

lemma read_u4_length: "read_u4 s = Some (n, r) \<Longrightarrow> length s = length r + 4"
  by (induction s rule: read_u4.induct) (auto split: option.splits)

text \<open>The body of a string after its opening quote.\<close>

function scan_str :: "string \<Rightarrow> (string \<times> string) option" where
  "scan_str [] = None"
| "scan_str (c # r) =
     (if c = quote then Some ([], r)
      else if c = backslash then
        (case r of [] \<Rightarrow> None
         | e # r2 \<Rightarrow>
           if e = CHR ''u'' then
             (case read_u4 r2 of None \<Rightarrow> None
              | Some (n, r3) \<Rightarrow>
                if 0xD800 \<le> n \<and> n < 0xDC00 \<and> take 2 r3 = [backslash, CHR ''u''] then
                  (case read_u4 (drop 2 r3) of None \<Rightarrow> None
                   | Some (m, r4) \<Rightarrow>
                     if 0xDC00 \<le> m \<and> m < 0xE000
                     then prepend (text_of_cps [0x10000 + (n - 0xD800) * 1024 + (m - 0xDC00)])
                            (scan_str r4)
                     else prepend (text_of_cps [n]) (scan_str r3))
                else prepend (text_of_cps [n]) (scan_str r3))
           else (case simple_esc e of None \<Rightarrow> None
                 | Some x \<Rightarrow> prepend [x] (scan_str r2)))
      else if (of_char c :: nat) < 32 then None
      else prepend [c] (scan_str r))"
  by pat_completeness auto
termination
  by (relation "measure length") (auto dest!: read_u4_length)

declare scan_str.simps(2) [simp del]

definition dec_val :: "string \<Rightarrow> nat" where
  "dec_val ds = foldl (\<lambda>a c. a * 10 + digit_val c) 0 ds"

text \<open>The integer part: a zero alone, or digits that do not start with zero.\<close>

fun scan_int :: "string \<Rightarrow> (string \<times> string) option" where
  "scan_int [] = None"
| "scan_int (c # r) =
     (if c = CHR ''0'' then Some ([c], r)
      else if is_digit c then Some (c # takeWhile is_digit r, dropWhile is_digit r)
      else None)"

fun scan_frac :: "string \<Rightarrow> string \<times> string" where
  "scan_frac (c # d # r) =
     (if c = CHR ''.'' \<and> is_digit d
      then (c # d # takeWhile is_digit r, dropWhile is_digit r) else ([], c # d # r))"
| "scan_frac r = ([], r)"

definition scan_exp :: "string \<Rightarrow> string \<times> string" where
  "scan_exp s =
     (case s of [] \<Rightarrow> ([], s)
      | c # r \<Rightarrow>
        (let sg = (case r of [] \<Rightarrow> [] | x # _ \<Rightarrow> if x \<in> set ''+-'' then [x] else []);
             r2 = drop (length sg) r; ds = takeWhile is_digit r2
         in if c \<in> set ''eE'' \<and> ds \<noteq> [] then (c # sg @ ds, dropWhile is_digit r2) else ([], s)))"

definition scan_number :: "string \<Rightarrow> pyval jres" where
  "scan_number s =
     (let neg = prefix ''-'' s; s1 = (if neg then tl s else s)
      in case scan_int s1 of None \<Rightarrow> JFail JSONDecodeError
         | Some (ds, r1) \<Rightarrow>
           (case scan_frac r1 of (fr, r2) \<Rightarrow>
             (case scan_exp r2 of (ex, r3) \<Rightarrow>
               if fr = [] \<and> ex = [] then
                 (if 4300 < length ds then JFail ValueError
                  else JOk (VInt (if neg then - int (dec_val ds) else int (dec_val ds))) r3)
               else JOk (VFloat ((if neg then ''-'' else []) @ ds @ fr @ ex)) r3)))"

definition json_lits :: "(string \<times> pyval) list" where
  "json_lits = [(''null'', VNone), (''true'', VBool True), (''false'', VBool False),
     (''NaN'', VFloat ''NaN''), (''Infinity'', VFloat ''Infinity''),
     (''-Infinity'', VFloat ''-Infinity'')]"

definition scan_atom :: "string \<Rightarrow> pyval jres" where
  "scan_atom s =
     (case find (\<lambda>(p, _). prefix p s) json_lits of
        Some (p, v) \<Rightarrow> JOk v (drop (length p) s)
      | None \<Rightarrow> scan_number s)"

fun jmap :: "('a \<Rightarrow> 'b) \<Rightarrow> 'a jres \<Rightarrow> 'b jres" where
  "jmap f (JOk x r) = JOk (f x) r"
| "jmap f (JFail e) = JFail e"
| "jmap f JFuel = JFuel"

definition dict_of :: "(string \<times> pyval) list \<Rightarrow> (string \<times> pyval) list" where
  "dict_of kvs = fold (\<lambda>(k, v). AList.update k v) kvs []"

fun parse_val :: "nat \<Rightarrow> string \<Rightarrow> pyval jres"
  and parse_elems :: "nat \<Rightarrow> string \<Rightarrow> pyval list jres"
  and parse_members :: "nat \<Rightarrow> string \<Rightarrow> (string \<times> pyval) list jres" where
  "parse_val 0 s = JFuel"
| "parse_val (Suc n) s =
     (case s of [] \<Rightarrow> JFail JSONDecodeError
      | c # r \<Rightarrow>
        if c = quote then
          (case scan_str r of None \<Rightarrow> JFail JSONDecodeError | Some (x, r2) \<Rightarrow> JOk (VStr x) r2)
        else if c = CHR ''{'' then
          (if prefix ''}'' (skip_ws r) then JOk (VDict []) (tl (skip_ws r))
           else jmap (VDict \<circ> dict_of) (parse_members n (skip_ws r)))
        else if c = CHR ''['' then
          (if prefix '']'' (skip_ws r) then JOk (VList []) (tl (skip_ws r))
           else jmap VList (parse_elems n (skip_ws r)))
        else scan_atom s)"
| "parse_elems 0 s = JFuel"
| "parse_elems (Suc n) s =
     (case parse_val n s of
        JFuel \<Rightarrow> JFuel
      | JFail e \<Rightarrow> JFail e
      | JOk v r \<Rightarrow>
        (case skip_ws r of [] \<Rightarrow> JFail JSONDecodeError
         | c # r2 \<Rightarrow>
           if c = CHR '']'' then JOk [v] r2
           else if c = CHR '','' then jmap ((#) v) (parse_elems n (skip_ws r2))
           else JFail JSONDecodeError))"
| "parse_members 0 s = JFuel"
| "parse_members (Suc n) s =
     (if \<not> prefix [quote] s then JFail JSONDecodeError
      else case scan_str (tl s) of None \<Rightarrow> JFail JSONDecodeError
      | Some (k, r) \<Rightarrow>
        if \<not> prefix '':'' (skip_ws r) then JFail JSONDecodeError
        else (case parse_val n (skip_ws (tl (skip_ws r))) of
            JFuel \<Rightarrow> JFuel
          | JFail e \<Rightarrow> JFail e
          | JOk v r2 \<Rightarrow>
            (case skip_ws r2 of [] \<Rightarrow> JFail JSONDecodeError
             | c # r3 \<Rightarrow>
               if c = CHR ''}'' then JOk [(k, v)] r3
               else if c = CHR '','' then jmap ((#) (k, v)) (parse_members n (skip_ws r3))
               else JFail JSONDecodeError)))"

declare parse_val.simps(2) [simp del] parse_elems.simps(2) [simp del]
  parse_members.simps(2) [simp del]

definition utf8_bom :: string where
  "utf8_bom = text_of_cps [0xFEFF]"

definition json_loads_fuel :: "nat \<Rightarrow> string \<Rightarrow> pyval result option" where
  "json_loads_fuel n s =
     (if prefix utf8_bom s then Some (Inl JSONDecodeError)
      else case parse_val n (skip_ws s) of
        JFuel \<Rightarrow> None
      | JFail e \<Rightarrow> Some (Inl e)
      | JOk v r \<Rightarrow> Some (if skip_ws r = [] then Inr v else Inl JSONDecodeError))"

definition json_loads :: "string \<Rightarrow> pyval result" where
  "json_loads s =
     (case json_loads_fuel (2 * length s + 2) s of None \<Rightarrow> Inl RuntimeError | Some r \<Rightarrow> r)"

section \<open>The reader never runs out of fuel\<close>

lemma length_skip_ws: "length (skip_ws s) \<le> length s"
  by (simp add: skip_ws_def length_dropWhile_le)

lemma prepend_Some: "prepend p m = Some (x, r) \<Longrightarrow> \<exists>y. m = Some (y, r)"
  by (auto simp: prepend_def)

lemma scan_str_length: "scan_str s = Some (x, r) \<Longrightarrow> length r < length s"
proof (induction s arbitrary: x r rule: scan_str.induct)
  case 1
  then show ?case by simp
next
  case (2 c s)
  show ?case
  proof (cases "c = quote \<or> c \<noteq> backslash")
    case True
    then show ?thesis using "2.prems" "2.IH"
      by (fastforce simp: scan_str.simps(2) split: if_splits dest!: prepend_Some)
  next
    case False
    then have c: "c \<noteq> quote" "c = backslash" by auto
    with "2.prems" obtain e s2 where s: "s = e # s2"
      by (auto simp: scan_str.simps(2) split: list.splits)
    show ?thesis
    proof (cases "e = CHR ''u''")
      case False
      then show ?thesis using "2.prems" "2.IH" c s
        by (fastforce simp: scan_str.simps(2) split: if_splits option.splits dest!: prepend_Some)
    next
      case True
      with "2.prems" c s obtain n s3 where u: "read_u4 s2 = Some (n, s3)"
        by (auto simp: scan_str.simps(2) split: option.splits)
      show ?thesis
      proof (cases "0xD800 \<le> n \<and> n < 0xDC00 \<and> take 2 s3 = [backslash, CHR ''u'']")
        case False
        with "2.prems" c s True u obtain y where "scan_str s3 = Some (y, r)"
          by (auto simp: scan_str.simps(2) dest!: prepend_Some)
        with "2.IH"(3) [OF c s True u refl False] have "length r < length s3" by simp
        with u s show ?thesis by (auto dest: read_u4_length)
      next
        case sur: True
        with "2.prems" c s True u obtain m s4 where u2: "read_u4 (drop 2 s3) = Some (m, s4)"
          by (auto simp: scan_str.simps(2) split: option.splits)
        then have l: "length s4 \<le> length s3" "length s3 < length s2"
          using u by (auto dest!: read_u4_length)
        have "length r < length s3"
        proof (cases "0xDC00 \<le> m \<and> m < 0xE000")
          case lo: True
          with "2.prems" c s True u sur u2 obtain y where "scan_str s4 = Some (y, r)"
            by (auto simp: scan_str.simps(2) dest!: prepend_Some)
          with "2.IH"(1) [OF c s True u refl sur u2 refl lo] l show ?thesis by fastforce
        next
          case lo: False
          with "2.prems" c s True u sur u2 obtain y where "scan_str s3 = Some (y, r)"
            by (auto simp: scan_str.simps(2) dest!: prepend_Some)
          with "2.IH"(2) [OF c s True u refl sur u2 refl lo] l show ?thesis by fastforce
        qed
        with l s show ?thesis by simp
      qed
    qed
  qed
qed

lemma scan_int_length: "scan_int s = Some (ds, r) \<Longrightarrow> length r < length s"
  by (cases s) (auto split: if_splits simp: length_dropWhile_le le_imp_less_Suc)

lemma scan_frac_length: "scan_frac s = (f, r) \<Longrightarrow> length r \<le> length s"
  by (induction s rule: scan_frac.induct)
    (auto split: if_splits simp: length_dropWhile_le le_SucI)

lemma scan_exp_length: "scan_exp s = (e, r) \<Longrightarrow> length r \<le> length s"
  by (auto simp: scan_exp_def Let_def length_dropWhile_le le_SucI
      split: list.splits if_splits)

lemma scan_number_length: "scan_number s = JOk v r \<Longrightarrow> length r < length s"
  unfolding scan_number_def Let_def
  by (fastforce split: option.splits prod.splits if_splits
      dest!: scan_int_length scan_frac_length scan_exp_length)

lemma scan_number_fuel: "scan_number s \<noteq> JFuel"
  by (auto simp: scan_number_def Let_def split: option.splits prod.splits if_splits)

lemma scan_atom_length:
  assumes "scan_atom s = JOk v r"
  shows "length r < length s"
proof (cases "find (\<lambda>(p, _). prefix p s) json_lits")
  case None
  with assms show ?thesis by (simp add: scan_atom_def scan_number_length)
next
  case (Some pv)
  obtain p w where pv: "pv = (p, w)" by (cases pv)
  with Some have "(p, w) \<in> set json_lits" "prefix p s"
    by (auto simp: find_Some_iff in_set_conv_nth)
  then have "p \<noteq> []" "length p \<le> length s"
    by (auto simp: json_lits_def prefix_length_le)
  then have "length s - length p < length s" by (cases p) auto
  then show ?thesis using assms Some pv by (auto simp: scan_atom_def)
qed

lemma scan_atom_fuel: "scan_atom s \<noteq> JFuel"
  by (auto simp: scan_atom_def scan_number_fuel split: option.splits)

lemma jmap_JOk [simp]: "jmap f m = JOk y r \<longleftrightarrow> (\<exists>x. m = JOk x r \<and> y = f x)"
  by (cases m) auto

lemma jmap_JFuel [simp]: "jmap f m = JFuel \<longleftrightarrow> m = JFuel"
  by (cases m) auto

lemma parse_length:
  "parse_val n s = JOk v r \<Longrightarrow> length r < length s"
  "parse_elems n s = JOk vs r \<Longrightarrow> length r < length s"
  "parse_members n s = JOk kvs r \<Longrightarrow> length r < length s"
proof (induction n s and n s and n s arbitrary: v r and vs r and kvs r
    rule: parse_val_parse_elems_parse_members.induct)
  case (2 n s)
  show ?case
  proof (cases s)
    case Nil
    with "2.prems" show ?thesis by (simp add: parse_val.simps(2))
  next
    case (Cons c t)
    have w: "length (skip_ws t) \<le> length t" by (rule length_skip_ws)
    consider "c = quote" | "c = CHR ''{''" | "c = CHR ''[''"
      | "c \<noteq> quote" "c \<noteq> CHR ''{''" "c \<noteq> CHR ''[''" by blast
    then show ?thesis
    proof cases
      case 1
      with "2.prems" Cons show ?thesis
        by (auto simp: parse_val.simps(2) split: option.splits dest!: scan_str_length)
    next
      case 2
      with "2.prems" Cons "2.IH"(1) [OF Cons] w show ?thesis
        by (cases "skip_ws t") (force simp: parse_val.simps(2) split: if_splits)+
    next
      case 3
      with "2.prems" Cons "2.IH"(2) [OF Cons] w show ?thesis
        by (cases "skip_ws t") (force simp: parse_val.simps(2) split: if_splits)+
    next
      case 4
      then show ?thesis using "2.prems" Cons scan_atom_length [of s v r]
        by (simp add: parse_val.simps(2))
    qed
  qed
next
  case (4 n s)
  from "4.prems" obtain v r1 c r2 where v: "parse_val n s = JOk v r1" and c: "skip_ws r1 = c # r2"
    by (auto simp: parse_elems.simps(2) split: jres.splits list.splits)
  from "4.IH"(1) [OF v] have "length r1 < length s" .
  moreover have "length r2 < length r1" using length_skip_ws [of r1] c by simp
  moreover have "length r \<le> length r2"
  proof (cases "c = CHR '']''")
    case True
    with "4.prems" v c show ?thesis by (simp add: parse_elems.simps(2))
  next
    case False
    with "4.prems" v c obtain us where "c = CHR '',''" "parse_elems n (skip_ws r2) = JOk us r"
      by (auto simp: parse_elems.simps(2) split: if_splits)
    with "4.IH"(2) [OF v c False] length_skip_ws [of r2] show ?thesis by fastforce
  qed
  ultimately show ?case by simp
next
  case (6 n s)
  from "6.prems" obtain k r0 where p: "prefix [quote] s" and k: "scan_str (tl s) = Some (k, r0)"
    and col: "prefix '':'' (skip_ws r0)"
    by (auto simp: parse_members.simps(2) split: if_splits option.splits)
  let ?t = "skip_ws (tl (skip_ws r0))"
  from "6.prems" p k col obtain v r1 c r2 where v: "parse_val n ?t = JOk v r1"
    and c: "skip_ws r1 = c # r2"
    by (auto simp: parse_members.simps(2) split: if_splits jres.splits list.splits)
  have "length r0 < length (tl s)" using scan_str_length [OF k] .
  moreover have "length ?t \<le> length r0"
    using length_skip_ws [of "tl (skip_ws r0)"] length_skip_ws [of r0] by simp
  moreover have "length r1 < length ?t"
    using "6.IH"(1) [OF _ k refl _ v] p col by simp
  moreover have "length r2 < length r1" using length_skip_ws [of r1] c by simp
  moreover have "length r \<le> length r2"
  proof (cases "c = CHR ''}''")
    case True
    with "6.prems" p k col v c show ?thesis by (simp add: parse_members.simps(2))
  next
    case False
    with "6.prems" p k col v c obtain us where "c = CHR '',''"
      "parse_members n (skip_ws r2) = JOk us r"
      by (auto simp: parse_members.simps(2) split: if_splits)
    with "6.IH"(2) [OF _ k refl _ v c False] p col length_skip_ws [of r2] show ?thesis by fastforce
  qed
  ultimately show ?case by (cases s) auto
qed simp_all

lemma parse_fuel:
  "2 * length s + 1 \<le> n \<Longrightarrow> parse_val n s \<noteq> JFuel"
  "2 * length s + 2 \<le> n \<Longrightarrow> parse_elems n s \<noteq> JFuel"
  "2 * length s + 2 \<le> n \<Longrightarrow> parse_members n s \<noteq> JFuel"
proof (induction n s and n s and n s rule: parse_val_parse_elems_parse_members.induct)
  case (2 n s)
  show ?case
  proof (cases s)
    case (Cons c t)
    have "length (skip_ws t) \<le> length t" by (rule length_skip_ws)
    with "2.prems" Cons have "2 * length (skip_ws t) + 2 \<le> n" by simp
    with "2.IH" [OF Cons] show ?thesis
      by (auto simp: parse_val.simps(2) Cons scan_atom_fuel split: option.splits)
  qed (simp add: parse_val.simps(2))
next
  case (4 n s)
  have v: "parse_val n s \<noteq> JFuel" using "4.IH"(1) "4.prems" by simp
  show ?case
  proof (cases "parse_val n s")
    case (JOk x r)
    show ?thesis
    proof (cases "skip_ws r")
      case (Cons c r2)
      have "length r < length s" using parse_length(1) [OF JOk] .
      then have "2 * length (skip_ws r2) + 2 \<le> n"
        using length_skip_ws [of r] length_skip_ws [of r2] Cons "4.prems" by simp
      with "4.IH"(2) [OF JOk Cons] JOk Cons show ?thesis by (auto simp: parse_elems.simps(2))
    qed (simp add: parse_elems.simps(2) JOk)
  qed (use v in \<open>simp_all add: parse_elems.simps(2)\<close>)
next
  case (6 n s)
  show ?case
  proof (cases "prefix [quote] s \<and> (\<exists>k r0. scan_str (tl s) = Some (k, r0) \<and> prefix '':'' (skip_ws r0))")
    case False
    then show ?thesis by (auto simp: parse_members.simps(2) split: option.splits)
  next
    case True
    then obtain k r0 where p: "prefix [quote] s" and k: "scan_str (tl s) = Some (k, r0)"
      and col: "prefix '':'' (skip_ws r0)" by blast
    let ?t = "skip_ws (tl (skip_ws r0))"
    have l: "length ?t < length s"
      using scan_str_length [OF k] length_skip_ws [of "tl (skip_ws r0)"] length_skip_ws [of r0]
      by (cases s) auto
    then have v: "parse_val n ?t \<noteq> JFuel" using "6.IH"(1) [OF _ k refl] p col "6.prems" by simp
    show ?thesis
    proof (cases "parse_val n ?t")
      case (JOk x r)
      show ?thesis
      proof (cases "skip_ws r")
        case (Cons c r2)
        have "length r < length ?t" using parse_length(1) [OF JOk] .
        then have "2 * length (skip_ws r2) + 2 \<le> n"
          using length_skip_ws [of r] length_skip_ws [of r2] Cons l "6.prems" by simp
        with "6.IH"(2) [OF _ k refl _ JOk Cons] p k col JOk Cons show ?thesis
          by (auto simp: parse_members.simps(2))
      qed (use p k col JOk in \<open>simp add: parse_members.simps(2)\<close>)
    qed (use v p k col in \<open>simp_all add: parse_members.simps(2)\<close>)
  qed
qed simp_all

lemma json_loads_total: "json_loads_fuel (2 * length s + 2) s \<noteq> None"
proof -
  have "2 * length (skip_ws s) + 1 \<le> 2 * length s + 2"
    using length_skip_ws [of s] by simp
  then have "parse_val (2 * length s + 2) (skip_ws s) \<noteq> JFuel" by (rule parse_fuel(1))
  then show ?thesis by (auto simp: json_loads_fuel_def split: jres.splits)
qed

end
