(* ===== verification/Py_Json_Roundtrip.thy ===== *)
theory Py_Json_Roundtrip
  imports Py_Json
begin

text \<open>
  \<open>json.loads(json.dumps(v)) = v\<close> for every value the gateways print: \<open>None\<close>, truth values,
  integers, strings of Unicode scalar values, and lists and dictionaries of these
  (\<open>json_loads_dumps\<close>). The printed text is ASCII and holds no line break, so a file of printed
  lines splits back into its lines.
\<close>

section \<open>What is printed is read back\<close>

fun json_ok :: "pyval \<Rightarrow> bool" where
  "json_ok VNone = True"
| "json_ok (VBool b) = True"
| "json_ok (VInt i) = (length (show_nat (nat \<bar>i\<bar>)) \<le> 4300)"
| "json_ok (VFloat s) = False"
| "json_ok (VStr s) = valid_text s"
| "json_ok (VList xs) = (\<forall>x \<in> set xs. json_ok x)"
| "json_ok (VDict d) = (distinct (map fst d) \<and> (\<forall>kv \<in> set d. valid_text (fst kv) \<and> json_ok (snd kv)))"

lemma of_char_digit_char: "n < 16 \<Longrightarrow> of_char (digit_char n) = (if n < 10 then 48 + n else 87 + n)"
  by simp

lemma char_of_escapes:
  "(char_of (34::nat) :: char) = quote" "(char_of (92::nat) :: char) = backslash"
  "(char_of (8::nat) :: char) = CHR 0x08" "(char_of (9::nat) :: char) = CHR 0x09"
  "(char_of (10::nat) :: char) = CHR 0x0A" "(char_of (12::nat) :: char) = CHR 0x0C"
  "(char_of (13::nat) :: char) = CHR 0x0D" "(char_of (48::nat) :: char) = CHR ''0''"
  by (simp_all add: char_of_eq_iff)

lemma hex_val_digit_char: "n < 16 \<Longrightarrow> hex_val (digit_char n) = Some n"
  by (simp add: hex_val_def of_char_digit_char del: digit_char.simps)

lemma read_u4_hex4:
  assumes "n < 0x10000"
  shows "read_u4 (hex4 n @ r) = Some (n, r)"
proof -
  have "n div 4096 < 16" using assms by (simp add: less_mult_imp_div_less)
  then have a: "n div 4096 mod 16 = n div 4096" by simp
  have b: "n div 256 mod 16 + n div 4096 * 16 = n div 256"
    using mult_div_mod_eq [of 16 "n div 256"] by (simp add: div_mult2_eq [symmetric] mult.commute)
  have c: "n div 16 mod 16 + n div 256 * 16 = n div 16"
    using mult_div_mod_eq [of 16 "n div 16"] by (simp add: div_mult2_eq [symmetric] mult.commute)
  have d: "n mod 16 + n div 16 * 16 = n" by simp
  have "n div 4096 * 4096 + n div 256 mod 16 * 256 + n div 16 mod 16 * 16 + n mod 16 = n"
    using b c d by linarith
  then show ?thesis
    unfolding hex4_def a by (simp add: hex_val_digit_char \<open>n div 4096 < 16\<close> del: digit_char.simps)
qed

lemma text_of_cps_Cons: "text_of_cps (c # cs) = text_of_cps [c] @ text_of_cps cs"
  by (simp add: text_of_cps_def)

lemma text_of_cps_ascii: "c < 0x80 \<Longrightarrow> text_of_cps [c] = [char_of c]"
  by (simp add: text_of_cps_def of_octets_def)

lemma scan_str_u_esc:
  assumes "n < 0x10000" "\<not> surrogate n"
  shows "scan_str (u_esc n @ r) = prepend (text_of_cps [n]) (scan_str r)"
  using assms read_u4_hex4 [OF assms(1), of r]
  by (auto simp: u_esc_def scan_str.simps(2) surrogate_def)

lemma scan_str_surrogates:
  assumes "0xD800 \<le> n" "n < 0xDC00" "0xDC00 \<le> m" "m < 0xE000"
  shows "scan_str (u_esc n @ u_esc m @ r) =
    prepend (text_of_cps [0x10000 + (n - 0xD800) * 1024 + (m - 0xDC00)]) (scan_str r)"
proof -
  have n: "read_u4 (hex4 n @ s) = Some (n, s)" for s using assms by (intro read_u4_hex4) simp
  have m: "read_u4 (hex4 m @ s) = Some (m, s)" for s using assms by (intro read_u4_hex4) simp
  show ?thesis
    unfolding u_esc_def append_Cons append_Nil
    by (subst scan_str.simps(2)) (use assms in \<open>simp add: n m\<close>)
qed

lemma scan_str_pair:
  assumes "0x10000 \<le> c" "c < 0x110000"
  shows "scan_str (u_esc (0xD800 + (c - 0x10000) div 1024) @ u_esc (0xDC00 + (c - 0x10000) mod 1024) @ r)
    = prepend (text_of_cps [c]) (scan_str r)"
proof -
  let ?k = "c - 0x10000"
  have k: "?k div 1024 < 0x400" using assms by (simp add: less_mult_imp_div_less)
  have m: "?k mod 1024 < 0x400" by simp
  have "0x10000 + ?k = c" using assms by simp
  then have "0x10000 + (0xD800 + ?k div 1024 - 0xD800) * 1024 + (0xDC00 + ?k mod 1024 - 0xDC00) = c"
    by (simp only: add_diff_cancel_left' add.assoc div_mult_mod_eq)
  moreover have "0xD800 \<le> 0xD800 + ?k div 1024" "0xD800 + ?k div 1024 < 0xDC00"
    "0xDC00 \<le> 0xDC00 + ?k mod 1024" "0xDC00 + ?k mod 1024 < 0xE000"
    using k m by linarith+
  note scan_str_surrogates [OF this, of r]
  ultimately show ?thesis by (simp only:)
qed

lemma scan_str_simple:
  "simple_esc e = Some x \<Longrightarrow> e \<noteq> CHR ''u'' \<Longrightarrow>
    scan_str (backslash # e # r) = prepend [x] (scan_str r)"
  by (simp add: scan_str.simps(2))

lemma scan_str_esc:
  assumes "scalar c"
  shows "scan_str (json_esc c @ r) = prepend (text_of_cps [c]) (scan_str r)"
proof -
  consider "c \<in> {0x22, 0x5C, 8, 9, 10, 12, 13}"
    | "32 \<le> c" "c < 127" "c \<notin> {0x22, 0x5C}"
    | "c < 32 \<or> 127 \<le> c" "c < 0x10000" "c \<notin> {8, 9, 10, 12, 13}" | "0x10000 \<le> c"
    by force
  then show ?thesis
  proof cases
    case 1
    then show ?thesis
      by (auto simp: json_esc_def scan_str_simple simple_esc_def text_of_cps_ascii
          char_of_escapes)
  next
    case 2
    then have "of_char (char_of c :: char) = c" by simp
    moreover from 2 have "(char_of c :: char) \<noteq> quote" "(char_of c :: char) \<noteq> backslash"
      by (auto simp: char_of_eq_iff take_bit_eq_mod)
    ultimately show ?thesis
      using 2 by (simp add: json_esc_def scan_str.simps(2) text_of_cps_ascii)
  next
    case 3
    then have "json_esc c = u_esc c" by (auto simp: json_esc_def)
    with 3 assms show ?thesis by (simp add: scan_str_u_esc scalar_def)
  next
    case 4
    then show ?thesis
      using assms scan_str_pair [of c r] by (simp add: json_esc_def scalar_def)
  qed
qed

lemma prepend_prepend: "prepend p (prepend q m) = prepend (p @ q) m"
  by (cases m) (auto simp: prepend_def)

lemma scan_str_escs:
  "list_all scalar cps \<Longrightarrow>
    scan_str (concat (map json_esc cps) @ quote # r) = Some (text_of_cps cps, r)"
proof (induction cps)
  case Nil
  show ?case by (simp add: scan_str.simps(2) text_of_cps_def of_octets_def)
next
  case (Cons c cs)
  then show ?case
    by (simp add: scan_str_esc text_of_cps_Cons [of c cs]) (simp add: prepend_def)
qed

lemma scan_json_str:
  assumes "valid_text s"
  shows "scan_str (tl (json_str s) @ r) = Some (s, r)"
  using assms by (rule valid_text_cps) (simp add: json_str_def cps_of_def scan_str_escs)

lemma json_str_hd: "json_str s = quote # tl (json_str s)"
  by (simp add: json_str_def)

subsection \<open>Integers\<close>

lemma digit_val_char: "n < 10 \<Longrightarrow> digit_val (digit_char n) = n \<and> is_digit (digit_char n)"
  by (simp add: digit_val_def is_digit_def)

lemma dec_val_snoc: "dec_val (ds @ [c]) = dec_val ds * 10 + digit_val c"
  by (simp add: dec_val_def)

lemma dec_val_show_nat: "dec_val (show_nat n) = n"
proof (induction n rule: show_nat.induct)
  case (1 n)
  show ?case
  proof (cases "n < 10")
    case True
    then show ?thesis
      by (subst show_nat.simps) (simp add: dec_val_def digit_val_char del: digit_char.simps)
  next
    case False
    with 1 show ?thesis
      by (subst show_nat.simps) (simp add: dec_val_snoc digit_val_char del: digit_char.simps)
  qed
qed

lemma show_nat_digits: "c \<in> set (show_nat n) \<Longrightarrow> is_digit c"
proof (induction n rule: show_nat.induct)
  case (1 n)
  show ?case
  proof (cases "n < 10")
    case True
    with 1 show ?thesis
      by (subst (asm) (2) show_nat.simps) (auto simp: digit_val_char simp del: digit_char.simps)
  next
    case False
    then show ?thesis
      using 1 by (subst (asm) (2) show_nat.simps)
        (auto simp: digit_val_char simp del: digit_char.simps)
  qed
qed

lemma show_nat_Cons: obtains c t where "show_nat n = c # t" "is_digit c"
proof -
  have "show_nat n \<noteq> []" by (subst show_nat.simps) simp
  then obtain c t where s: "show_nat n = c # t" by (cases "show_nat n") auto
  then have "is_digit c" using show_nat_digits [of c n] by simp
  with s that show thesis by blast
qed

lemma show_int_Cons: obtains c t where "show_int i = c # t" "c = CHR ''-'' \<or> is_digit c"
proof (cases "i < 0")
  case True
  with that show thesis by (simp add: show_int_def)
next
  case False
  obtain c t where "show_nat (nat i) = c # t" "is_digit c" by (rule show_nat_Cons)
  with False that show thesis by (simp add: show_int_def)
qed

lemma show_nat_hd: "0 < n \<Longrightarrow> show_nat n \<noteq> [] \<and> hd (show_nat n) \<noteq> CHR ''0''"
proof (induction n rule: show_nat.induct)
  case (1 n)
  show ?case
  proof (cases "n < 10")
    case True
    then have "digit_char n \<noteq> CHR ''0''"
      using 1 digit_val_char [of n] by (auto simp: digit_val_def simp del: digit_char.simps)
    with True show ?thesis by (subst (1 2) show_nat.simps) (simp del: digit_char.simps)
  next
    case False
    then have "0 < n div 10" by simp
    with 1 False show ?thesis by (subst (1 2) show_nat.simps) auto
  qed
qed

definition num_stop :: "string \<Rightarrow> bool" where
  "num_stop r = (case r of [] \<Rightarrow> True | c # _ \<Rightarrow> \<not> is_digit c \<and> c \<notin> set ''.eE'')"

lemma scan_int_show_nat:
  assumes "num_stop r"
  shows "scan_int (show_nat n @ r) = Some (show_nat n, r)"
proof (cases "n = 0")
  case True
  then show ?thesis by (simp add: show_nat.simps char_of_escapes)
next
  case False
  then obtain c ds where s: "show_nat n = c # ds" and c: "c \<noteq> CHR ''0''"
    using show_nat_hd [of n] by (cases "show_nat n") auto
  have d: "is_digit c" "\<forall>x \<in> set ds. is_digit x"
    using show_nat_digits [of _ n] by (auto simp: s)
  have r: "takeWhile is_digit r = []" "dropWhile is_digit r = r"
    using assms by (cases r; simp add: num_stop_def)+
  show ?thesis using d c r by (simp add: s takeWhile_append dropWhile_append)
qed

lemma scan_frac_stop: "num_stop r \<Longrightarrow> scan_frac r = ([], r)"
  by (induction r rule: scan_frac.induct) (auto simp: num_stop_def)

lemma scan_exp_stop: "num_stop r \<Longrightarrow> scan_exp r = ([], r)"
  by (cases r) (auto simp: num_stop_def scan_exp_def)

lemma show_nat_not_minus: "prefix ''-'' (show_nat n @ r) = False"
proof -
  obtain c ds where s: "show_nat n = c # ds" and "is_digit c" by (rule show_nat_Cons)
  then have "c \<noteq> CHR ''-''" by (auto simp: is_digit_def)
  then show ?thesis by (simp add: s)
qed

lemma scan_number_int:
  assumes "num_stop r" "json_ok (VInt i)"
  shows "scan_number (show_int i @ r) = JOk (VInt i) r"
proof (cases "i < 0")
  case True
  then have "\<bar>i\<bar> = - i" by simp
  with True assms show ?thesis
    by (simp add: scan_number_def show_int_def scan_int_show_nat scan_frac_stop scan_exp_stop
        dec_val_show_nat)
next
  case False
  then have "\<bar>i\<bar> = i" by simp
  with False assms show ?thesis
    by (simp add: scan_number_def show_int_def scan_int_show_nat scan_frac_stop scan_exp_stop
        dec_val_show_nat show_nat_not_minus)
qed

subsection \<open>Values\<close>

lemma dumps_hd:
  assumes "json_ok v"
  shows "\<exists>c t. json_dumps v = c # t \<and> \<not> is_ws c \<and> c \<notin> set '']}''"
proof (cases v)
  case (VInt i)
  obtain c t where s: "show_int i = c # t" and "c = CHR ''-'' \<or> is_digit c"
    by (rule show_int_Cons)
  then have "\<not> is_ws c \<and> c \<notin> set '']}''" by (auto simp: is_ws_def is_digit_def)
  with VInt s show ?thesis by simp
next
  case (VStr s)
  then show ?thesis by (simp add: json_str_def is_ws_def)
qed (use assms in \<open>auto simp: is_ws_def\<close>)

lemma skip_ws_dumps: "json_ok v \<Longrightarrow> skip_ws (json_dumps v @ r) = json_dumps v @ r"
  using dumps_hd [of v] by (auto simp: skip_ws_def)

lemma find_json_lits_int:
  "find (\<lambda>(p, _). prefix p (show_int i @ r)) json_lits = None"
proof -
  have d: "\<exists>c t. show_nat n @ r = c # t \<and> is_digit c" for n
    by (rule show_nat_Cons [of n]) simp
  obtain c t where s: "show_int i @ r = c # t"
    and c: "is_digit c \<or> c = CHR ''-'' \<and> (\<exists>c' t'. t = c' # t' \<and> is_digit c')"
    using d [of "nat i"] d [of "nat (- i)"]
    by (cases "i < 0") (auto simp: show_int_def)
  have "\<not> prefix p (c # t)" if "(p, w) \<in> set json_lits" for p w
    using that c by (auto simp: json_lits_def is_digit_def)
  then show ?thesis unfolding s by (auto simp: find_None_iff)
qed

lemma parse_int:
  assumes "num_stop r" "json_ok (VInt i)"
  shows "parse_val (Suc n) (show_int i @ r) = JOk (VInt i) r"
proof -
  obtain c t where s: "show_int i = c # t" and "c = CHR ''-'' \<or> is_digit c"
    by (rule show_int_Cons)
  then have "c \<noteq> quote" "c \<noteq> CHR ''{''" "c \<noteq> CHR ''[''" by (auto simp: is_digit_def)
  then have "parse_val (Suc n) (show_int i @ r) = scan_atom (show_int i @ r)"
    by (simp add: parse_val.simps(2) s)
  also have "\<dots> = JOk (VInt i) r"
    using scan_number_int [OF assms] by (simp add: scan_atom_def find_json_lits_int)
  finally show ?thesis .
qed

lemma fold_update_append:
  "distinct (map fst (d @ kvs)) \<Longrightarrow> fold (\<lambda>(k, v). AList.update k v) kvs d = d @ kvs"
proof (induction kvs arbitrary: d)
  case (Cons kv kvs)
  obtain k v where kv: "kv = (k, v)" by (cases kv)
  have u: "k \<notin> fst ` set d \<Longrightarrow> AList.update k v d = d @ [(k, v)]" for d
    by (induction d) auto
  with Cons kv show ?case by simp
qed simp

lemma dict_of_distinct: "distinct (map fst kvs) \<Longrightarrow> dict_of kvs = kvs"
  using fold_update_append [of "[]" kvs] by (simp add: dict_of_def)

lemma parse_lit:
  "parse_val (Suc n) (''null'' @ r) = JOk VNone r"
  "parse_val (Suc n) (''true'' @ r) = JOk (VBool True) r"
  "parse_val (Suc n) (''false'' @ r) = JOk (VBool False) r"
  by (simp_all add: parse_val.simps(2) scan_atom_def json_lits_def)

text \<open>
  The three readers on printed text. The fuel that suffices is bounded by the length of the
  text, and a number must be followed by something that does not continue it.
\<close>

definition elems_ok :: "pyval list \<Rightarrow> bool" where
  "elems_ok xs = (\<forall>x \<in> set xs. json_ok x)"

definition members_ok :: "(string \<times> pyval) list \<Rightarrow> bool" where
  "members_ok d = (\<forall>kv \<in> set d. valid_text (fst kv) \<and> json_ok (snd kv))"

lemma num_stop_simps [simp]:
  "num_stop (CHR '','' # r)" "num_stop (CHR '']'' # r)" "num_stop (CHR ''}'' # r)" "num_stop []"
  by (simp_all add: num_stop_def is_digit_def)

lemma skip_ws_simps [simp]:
  "skip_ws (CHR '','' # r) = CHR '','' # r" "skip_ws (CHR '']'' # r) = CHR '']'' # r"
  "skip_ws (CHR ''}'' # r) = CHR ''}'' # r" "skip_ws (CHR '':'' # r) = CHR '':'' # r"
  "skip_ws (CHR '' '' # r) = skip_ws r" "skip_ws [] = []"
  "skip_ws (quote # r) = quote # r"
  by (simp_all add: skip_ws_def is_ws_def)

lemma length_dumps_pos: "json_ok v \<Longrightarrow> 0 < length (json_dumps v)"
  using dumps_hd [of v] by auto

lemma not_prefix_dumps:
  assumes "json_ok v"
  shows "\<not> prefix '']'' (json_dumps v @ r)"
  using dumps_hd [OF assms] by auto

lemma dumps_elems_Cons:
  "dumps_elems (x # xs) = json_dumps x @ (if xs = [] then [] else '', '' @ dumps_elems xs)"
  by (cases xs) auto

lemma dumps_members_Cons:
  "dumps_members ((k, x) # d) =
     json_str k @ '': '' @ json_dumps x @ (if d = [] then [] else '', '' @ dumps_members d)"
  by (cases d) auto

lemma parse_elems_step:
  assumes "parse_val n (json_dumps x @ r') = JOk x r'" "json_ok x"
    and "xs = [] \<Longrightarrow> r' = CHR '']'' # r" "xs \<noteq> [] \<Longrightarrow> r' = '', '' @ dumps_elems xs @ CHR '']'' # r"
    and "xs \<noteq> [] \<Longrightarrow> parse_elems n (dumps_elems xs @ CHR '']'' # r) = JOk xs r" "elems_ok xs"
  shows "parse_elems (Suc n) (json_dumps x @ r') = JOk (x # xs) r"
proof (cases xs)
  case Nil
  with assms show ?thesis by (simp add: parse_elems.simps(2))
next
  case (Cons y ys)
  then have "skip_ws (dumps_elems xs @ CHR '']'' # r) = dumps_elems xs @ CHR '']'' # r"
    using assms(6) by (simp add: elems_ok_def dumps_elems_Cons skip_ws_dumps)
  with Cons assms show ?thesis by (simp add: parse_elems.simps(2))
qed

lemma skip_ws_json_str: "skip_ws (json_str k @ r) = json_str k @ r"
  by (simp add: json_str_def)

lemma parse_members_step:
  assumes "parse_val n (json_dumps x @ r') = JOk x r'" "json_ok x" "valid_text k"
    and "d = [] \<Longrightarrow> r' = CHR ''}'' # r" "d \<noteq> [] \<Longrightarrow> r' = '', '' @ dumps_members d @ CHR ''}'' # r"
    and "d \<noteq> [] \<Longrightarrow> parse_members n (dumps_members d @ CHR ''}'' # r) = JOk d r"
  shows "parse_members (Suc n) (json_str k @ '': '' @ json_dumps x @ r') = JOk ((k, x) # d) r"
proof -
  have k: "prefix [quote] (json_str k @ s)" "tl (json_str k @ s) = tl (json_str k) @ s" for s
    by (simp_all add: json_str_def)
  have c: "skip_ws (tl (skip_ws ('': '' @ json_dumps x @ r'))) = json_dumps x @ r'"
    using assms(2) by (simp add: skip_ws_dumps)
  show ?thesis
  proof (cases d)
    case Nil
    with assms k c show ?thesis by (simp add: parse_members.simps(2) scan_json_str skip_ws_dumps)
  next
    case (Cons y ys)
    then have "skip_ws (dumps_members d @ CHR ''}'' # r) = dumps_members d @ CHR ''}'' # r"
      by (cases y) (simp add: dumps_members_Cons skip_ws_json_str)
    with Cons assms k c show ?thesis
      by (simp add: parse_members.simps(2) scan_json_str skip_ws_dumps)
  qed
qed

lemma parse_dumps:
  "json_ok v \<Longrightarrow> num_stop r \<Longrightarrow> 2 * length (json_dumps v) \<le> n \<Longrightarrow>
    parse_val n (json_dumps v @ r) = JOk v r"
  "xs \<noteq> [] \<Longrightarrow> elems_ok xs \<Longrightarrow> 2 * length (dumps_elems xs) + 1 \<le> n \<Longrightarrow>
    parse_elems n (dumps_elems xs @ CHR '']'' # r) = JOk xs r"
  "d \<noteq> [] \<Longrightarrow> members_ok d \<Longrightarrow> 2 * length (dumps_members d) + 1 \<le> n \<Longrightarrow>
    parse_members n (dumps_members d @ CHR ''}'' # r) = JOk d r"
proof (induction v and xs and d arbitrary: n r and n r and n r
    rule: json_dumps_dumps_elems_dumps_members.induct)
  case 1
  then obtain m where "n = Suc m" by (cases n) auto
  then show ?case using parse_lit by simp
next
  case (2 b)
  then obtain m where "n = Suc m" by (cases n) (auto split: if_splits)
  then show ?case using parse_lit by simp
next
  case (3 i)
  moreover obtain m where "n = Suc m"
    using 3 length_dumps_pos [of "VInt i"] by (cases n) auto
  ultimately show ?case using parse_int [of r i m] by simp
next
  case (5 s)
  then obtain m where "n = Suc m" by (cases n) (auto simp: json_str_def)
  with 5 show ?case
    using scan_json_str [of s r] by (simp add: parse_val.simps(2) json_str_def)
next
  case (6 xs)
  then obtain m where n: "n = Suc m" "2 * length (dumps_elems xs) + 1 \<le> m" by (cases n) auto
  show ?case
  proof (cases xs)
    case Nil
    with n show ?thesis by (simp add: parse_val.simps(2))
  next
    case (Cons x ys)
    with "6.prems" have x: "json_ok x" and e: "elems_ok xs" by (auto simp: elems_ok_def)
    have "skip_ws (dumps_elems xs @ CHR '']'' # r) = dumps_elems xs @ CHR '']'' # r"
      and "\<not> prefix '']'' (dumps_elems xs @ CHR '']'' # r)"
      using x not_prefix_dumps [OF x] by (simp_all add: Cons dumps_elems_Cons skip_ws_dumps)
    with "6.IH" [OF _ e n(2), of r] Cons n show ?thesis by (simp add: parse_val.simps(2))
  qed
next
  case (7 d)
  then obtain m where n: "n = Suc m" "2 * length (dumps_members d) + 1 \<le> m" by (cases n) auto
  show ?case
  proof (cases d)
    case Nil
    with n show ?thesis by (simp add: parse_val.simps(2))
  next
    case (Cons kv ys)
    with "7.prems" have e: "members_ok d" and di: "distinct (map fst d)"
      by (auto simp: members_ok_def)
    have "skip_ws (dumps_members d @ CHR ''}'' # r) = dumps_members d @ CHR ''}'' # r"
      and "\<not> prefix ''}'' (dumps_members d @ CHR ''}'' # r)"
      by (cases kv; simp add: Cons dumps_members_Cons skip_ws_json_str)
        (cases kv; simp add: Cons dumps_members_Cons json_str_def)
    with "7.IH" [OF _ e n(2), of r] Cons n di show ?thesis
      by (simp add: parse_val.simps(2) dict_of_distinct)
  qed
next
  case (9 x)
  then obtain m where n: "n = Suc m" "2 * length (json_dumps x) \<le> m" by (cases n) auto
  with 9 have "parse_val m (json_dumps x @ CHR '']'' # r) = JOk x (CHR '']'' # r)"
    by (simp add: elems_ok_def)
  with n 9 show ?case by (simp add: parse_elems.simps(2))
next
  case (10 x y ys)
  then obtain m where n: "n = Suc m" by (cases n) auto
  let ?r = "'', '' @ dumps_elems (y # ys) @ CHR '']'' # r"
  have "parse_val m (json_dumps x @ ?r) = JOk x ?r"
    using "10.IH"(1) [of ?r m] "10.prems" n by (simp add: elems_ok_def)
  moreover have "parse_elems m (dumps_elems (y # ys) @ CHR '']'' # r) = JOk (y # ys) r"
    using "10.IH"(2) [of m r] "10.prems" n by (simp add: elems_ok_def)
  ultimately show ?case
    using parse_elems_step [of m x ?r "y # ys" r] "10.prems" n by (simp add: elems_ok_def)
next
  case (12 k x)
  then obtain m where n: "n = Suc m" "2 * length (json_dumps x) \<le> m" by (cases n) auto
  with 12 have "parse_val m (json_dumps x @ CHR ''}'' # r) = JOk x (CHR ''}'' # r)"
    by (simp add: members_ok_def)
  then show ?case
    using parse_members_step [of m x "CHR ''}'' # r" k "[]" r] "12.prems" n
    by (simp add: members_ok_def)
next
  case (13 k x y ys)
  then obtain m where n: "n = Suc m" by (cases n) auto
  let ?r = "'', '' @ dumps_members (y # ys) @ CHR ''}'' # r"
  have "parse_val m (json_dumps x @ ?r) = JOk x ?r"
    using "13.IH"(1) [of ?r m] "13.prems" n by (simp add: members_ok_def)
  moreover have "parse_members m (dumps_members (y # ys) @ CHR ''}'' # r) = JOk (y # ys) r"
    using "13.IH"(2) [of m r] "13.prems" n by (simp add: members_ok_def)
  ultimately show ?case
    using parse_members_step [of m x ?r k "y # ys" r] "13.prems" n by (simp add: members_ok_def)
qed simp_all

subsection \<open>Printed text is printable ASCII\<close>

definition printable :: "char \<Rightarrow> bool" where
  "printable c = (32 \<le> (of_char c :: nat) \<and> (of_char c :: nat) < 127)"

lemma printable_digit: "n < 16 \<Longrightarrow> printable (digit_char n)"
  by (simp add: printable_def of_char_digit_char del: digit_char.simps)

lemma printable_u_esc: "c \<in> set (u_esc n) \<Longrightarrow> printable c"
proof -
  have "printable backslash" "printable (CHR ''u'')" by (simp_all add: printable_def)
  then show "c \<in> set (u_esc n) \<Longrightarrow> printable c"
    using printable_digit by (auto simp: u_esc_def hex4_def simp del: digit_char.simps)
qed

lemma printable_json_esc: "c \<in> set (json_esc n) \<Longrightarrow> printable c"
proof (cases "32 \<le> n \<and> n < 127 \<and> n \<noteq> 0x22 \<and> n \<noteq> 0x5C")
  case True
  moreover assume "c \<in> set (json_esc n)"
  ultimately have "c = char_of n" by (auto simp: json_esc_def)
  then show ?thesis using True by (simp add: printable_def)
next
  case False
  moreover have "printable backslash" "printable quote" "printable (CHR ''b'')" "printable (CHR ''t'')"
    "printable (CHR ''n'')" "printable (CHR ''f'')" "printable (CHR ''r'')"
    by (simp_all add: printable_def)
  moreover assume "c \<in> set (json_esc n)"
  ultimately show ?thesis
    using printable_u_esc by (auto simp: json_esc_def split: if_splits)
qed

lemma printable_json_str: "c \<in> set (json_str s) \<Longrightarrow> printable c"
  using printable_json_esc by (auto simp: json_str_def) (simp_all add: printable_def)

lemma printable_show_int: "c \<in> set (show_int i) \<Longrightarrow> printable c"
proof -
  assume "c \<in> set (show_int i)"
  then have "c = CHR ''-'' \<or> is_digit c"
    using show_nat_digits by (auto simp: show_int_def split: if_splits)
  then show ?thesis by (auto simp: printable_def is_digit_def)
qed

lemma printable_punct:
  "\<forall>c \<in> set ''nulltruefalse[]{}, :''. printable c"
  by (simp add: printable_def)

lemma printable_dumps:
  "json_ok v \<Longrightarrow> c \<in> set (json_dumps v) \<Longrightarrow> printable c"
  "elems_ok xs \<Longrightarrow> c \<in> set (dumps_elems xs) \<Longrightarrow> printable c"
  "members_ok d \<Longrightarrow> c \<in> set (dumps_members d) \<Longrightarrow> printable c"
  by (induction v and xs and d rule: json_dumps_dumps_elems_dumps_members.induct)
    (use printable_punct in \<open>auto simp: elems_ok_def members_ok_def printable_json_str
      printable_show_int split: if_splits\<close>)

lemma dumps_no_newline: "json_ok v \<Longrightarrow> CHR 0x0A \<notin> set (json_dumps v)"
  using printable_dumps(1) [of v "CHR 0x0A"] by (auto simp: printable_def)

lemma dumps_ascii: "json_ok v \<Longrightarrow> ascii (json_dumps v)"
  using printable_dumps(1) [of v] by (fastforce simp: ascii_def list_all_iff printable_def)

lemma dumps_valid_text: "json_ok v \<Longrightarrow> valid_text (json_dumps v)"
  by (simp add: ascii_valid dumps_ascii)

lemma json_loads_dumps: "json_ok v \<Longrightarrow> json_loads (json_dumps v) = Inr v"
proof -
  assume v: "json_ok v"
  obtain c t where c: "json_dumps v = c # t" "\<not> is_ws c" "c \<notin> set '']}''"
    using dumps_hd [OF v] by blast
  have s: "skip_ws (json_dumps v) = json_dumps v" using skip_ws_dumps [OF v, of "[]"] by simp
  have p: "parse_val (2 * length (json_dumps v) + 2) (json_dumps v) = JOk v []"
    using parse_dumps(1) [OF v, of "[]"] by simp
  obtain a l where b: "utf8_bom = a # l" "of_char a = (239::nat)"
    by (simp add: utf8_bom_def text_of_cps_def of_octets_def)
  moreover have "printable c" using printable_dumps(1) [OF v] c by simp
  ultimately have "\<not> prefix utf8_bom (json_dumps v)"
    unfolding b(1) c(1) by (auto simp: printable_def)
  with s p show ?thesis by (simp add: json_loads_def json_loads_fuel_def)
qed

subsection \<open>The length of a number\<close>

lemma length_show_nat: "n < 10 ^ Suc k \<Longrightarrow> length (show_nat n) \<le> Suc k"
proof (induction k arbitrary: n)
  case 0
  then show ?case by (subst show_nat.simps) simp
next
  case (Suc k)
  then have "n div 10 < 10 ^ Suc k" by (simp add: less_mult_imp_div_less)
  from Suc.IH [OF this] show ?case by (subst show_nat.simps) simp
qed

lemma json_ok_small: "\<bar>i\<bar> < 10 ^ 20 \<Longrightarrow> json_ok (VInt i)"
proof -
  assume "\<bar>i\<bar> < 10 ^ 20"
  then have "nat \<bar>i\<bar> < 10 ^ Suc 19" by (simp add: nat_less_iff)
  from length_show_nat [OF this] show ?thesis by simp
qed

subsection \<open>Strings that need no escape\<close>

definition plain_char :: "char \<Rightarrow> bool" where
  "plain_char c = (32 \<le> (of_char c :: nat) \<and> (of_char c :: nat) < 127
     \<and> (of_char c :: nat) \<noteq> 0x22 \<and> (of_char c :: nat) \<noteq> 0x5C)"

lemma json_str_plain: "list_all plain_char s \<Longrightarrow> json_str s = quote # s @ [quote]"
proof -
  assume p: "list_all plain_char s"
  then have "list_all (\<lambda>n. n < 128) (octets s)"
    by (auto simp: octets_def list_all_iff plain_char_def)
  then have "cps_of s = octets s" by (simp add: cps_of_def utf8_cps_ascii)
  moreover have "concat (map json_esc (octets s)) = s"
    using p by (induction s) (auto simp: octets_def json_esc_def plain_char_def)
  ultimately show ?thesis by (simp add: json_str_def)
qed

lemma json_loads_empty: "json_loads [] = Inl JSONDecodeError"
  by (simp add: json_loads_def json_loads_fuel_def parse_val.simps(2) skip_ws_def numeral_2_eq_2)

end
