(* ===== verification/Py_Yaml.thy ===== *)
theory Py_Yaml
  imports Py_Json_Roundtrip "HOL-Library.Multiset"
begin

text \<open>
  Files and YAML documents. The file system is a map from paths to contents and to permission
  bits; creating directories is not modelled, every write succeeds. PyYAML is a parameter, the
  record \<open>yaml_lib\<close>: \<open>yaml.dump\<close> and \<open>yaml.safe_load\<close> (\<open>None\<close> when it raises), with the law
  \<open>yaml_roundtrip\<close>: a document of strings, lists and dictionaries is loaded back with the keys of
  its dictionaries sorted, as \<open>yaml.dump\<close> writes them.
\<close>

record fsys =
  files :: "string \<rightharpoonup> string"
  modes :: "string \<rightharpoonup> nat"

definition fs_empty :: fsys where
  "fs_empty = \<lparr>files = Map.empty, modes = Map.empty\<rparr>"

text \<open>A file that is created gets mode 644; an existing file keeps its mode.\<close>

definition write_file :: "string \<Rightarrow> string \<Rightarrow> fsys \<Rightarrow> fsys" where
  "write_file p c fs =
     fs\<lparr>files := (files fs)(p \<mapsto> c),
        modes := (case modes fs p of None \<Rightarrow> (modes fs)(p \<mapsto> 0x1A4) | Some _ \<Rightarrow> modes fs)\<rparr>"

definition read_file :: "string \<Rightarrow> fsys \<Rightarrow> string result" where
  "read_file p fs = (case files fs p of None \<Rightarrow> Inl FileNotFoundError | Some c \<Rightarrow> Inr c)"

definition chmod :: "string \<Rightarrow> nat \<Rightarrow> fsys \<Rightarrow> fsys" where
  "chmod p m fs = fs\<lparr>modes := (modes fs)(p \<mapsto> m)\<rparr>"

definition path_exists :: "string \<Rightarrow> fsys \<Rightarrow> bool" where
  "path_exists p fs = (files fs p \<noteq> None)"

definition append_file :: "string \<Rightarrow> string \<Rightarrow> fsys \<Rightarrow> fsys" where
  "append_file p c fs = write_file p (case files fs p of None \<Rightarrow> c | Some d \<Rightarrow> d @ c) fs"

record yaml_lib =
  yaml_dump :: "pyval \<Rightarrow> string"
  yaml_safe_load :: "string \<Rightarrow> pyval option"

definition load_yaml :: "yaml_lib \<Rightarrow> string \<Rightarrow> pyval result" where
  "load_yaml y s = (case yaml_safe_load y s of None \<Rightarrow> Inl YAMLError | Some v \<Rightarrow> Inr v)"

primrec sort_keys :: "pyval \<Rightarrow> pyval" where
  "sort_keys VNone = VNone"
| "sort_keys (VBool b) = VBool b"
| "sort_keys (VInt i) = VInt i"
| "sort_keys (VFloat s) = VFloat s"
| "sort_keys (VStr s) = VStr s"
| "sort_keys (VList xs) = VList (map sort_keys xs)"
| "sort_keys (VDict d) = VDict (sort_key fst (map (map_prod id sort_keys) d))"

text \<open>Documents of strings, lists and dictionaries.\<close>

fun yaml_plain :: "pyval \<Rightarrow> bool" where
  "yaml_plain (VStr s) = valid_text s"
| "yaml_plain (VList xs) = (\<forall>x \<in> set xs. yaml_plain x)"
| "yaml_plain (VDict d) =
     (distinct (map fst d) \<and> (\<forall>kv \<in> set d. valid_text (fst kv) \<and> yaml_plain (snd kv)))"
| "yaml_plain _ = False"

definition yaml_roundtrip :: "yaml_lib \<Rightarrow> bool" where
  "yaml_roundtrip y = (\<forall>v. yaml_plain v \<longrightarrow> yaml_safe_load y (yaml_dump y v) = Some (sort_keys v))"

section \<open>Lemmas\<close>

lemma files_write [simp]: "files (write_file p c fs) = (files fs)(p \<mapsto> c)"
  by (simp add: write_file_def)

lemma files_chmod [simp]: "files (chmod p m fs) = files fs"
  by (simp add: chmod_def)

lemma modes_chmod [simp]: "modes (chmod p m fs) = (modes fs)(p \<mapsto> m)"
  by (simp add: chmod_def)

lemma modes_write_other: "q \<noteq> p \<Longrightarrow> modes (write_file p c fs) q = modes fs q"
  by (simp add: write_file_def split: option.split)

lemma modes_write_existing: "modes fs q = Some m \<Longrightarrow> modes (write_file p c fs) q = Some m"
  by (auto simp: write_file_def split: option.split)

lemma files_append [simp]:
  "files (append_file p c fs) = (files fs)(p \<mapsto> (case files fs p of None \<Rightarrow> c | Some d \<Rightarrow> d @ c))"
  by (simp add: append_file_def)

lemma map_of_sort_key: "distinct (map fst d) \<Longrightarrow> map_of (sort_key fst d) = map_of d"
proof -
  assume d: "distinct (map fst d)"
  have m: "mset (sort_key fst d) = mset d" by simp
  then have "mset (map fst (sort_key fst d)) = mset (map fst d)" by simp
  with d have "distinct (map fst (sort_key fst d))" by (metis mset_eq_imp_distinct_iff)
  with d show ?thesis by (intro map_of_eqI) (auto simp: map_of_eq_Some_iff)
qed

lemma map_of_sort_keys:
  assumes "distinct (map fst d)"
  shows "map_of (sort_key fst (map (map_prod id sort_keys) d)) k = map_option sort_keys (map_of d k)"
proof -
  have "distinct (map fst (map (map_prod id sort_keys) d))" using assms by (simp add: comp_def)
  then show ?thesis by (simp add: map_of_sort_key) (induction d, auto)
qed

lemma set_fst_sort_keys: "fst ` set (sort_key fst (map (map_prod id sort_keys) d)) = fst ` set d"
  by force

lemma sort_keys_VDict_get:
  "distinct (map fst d) \<Longrightarrow> py_getitem (sort_keys (VDict d)) k =
     (case map_of d k of None \<Rightarrow> Inl KeyError | Some v \<Rightarrow> Inr (sort_keys v))"
  by (auto simp: map_of_sort_keys split: option.splits)

section \<open>A YAML library with the law\<close>

text \<open>JSON documents are YAML documents.\<close>

definition json_yaml :: yaml_lib where
  "json_yaml =
     \<lparr>yaml_dump = (\<lambda>v. json_dumps (sort_keys v)),
      yaml_safe_load = (\<lambda>s. case json_loads s of Inl _ \<Rightarrow> None | Inr v \<Rightarrow> Some v)\<rparr>"

lemma yaml_plain_json_ok: "yaml_plain v \<Longrightarrow> json_ok v"
  by (induction v rule: yaml_plain.induct) auto

lemma yaml_plain_sort_keys: "yaml_plain v \<Longrightarrow> yaml_plain (sort_keys v)"
proof (induction v rule: yaml_plain.induct)
  case (3 d)
  have m: "mset (sort_key fst (map (map_prod id sort_keys) d)) = mset (map (map_prod id sort_keys) d)"
    by simp
  then have "mset (map fst (sort_key fst (map (map_prod id sort_keys) d))) = mset (map fst d)"
    by (metis (no_types, lifting) fst_map_prod id_apply list.map_comp list.map_cong0 comp_apply
        mset_map)
  then have "distinct (map fst (sort_key fst (map (map_prod id sort_keys) d)))"
    using 3 by (metis mset_eq_imp_distinct_iff yaml_plain.simps(3))
  with 3 show ?case by auto
qed auto

lemma json_yaml_roundtrip: "yaml_roundtrip json_yaml"
  by (auto simp: yaml_roundtrip_def json_yaml_def json_loads_dumps yaml_plain_json_ok
      yaml_plain_sort_keys)

end
