(* ===== verification/Py_Env.thy ===== *)
theory Py_Env
  imports Py_Yaml
begin

text \<open>
  More of the standard library that both gateways use: environment variables
  (\<open>os.getenv\<close>), the conversion \<open>int(s)\<close> of a string, and TLS contexts (\<open>ssl\<close>) as records of
  their settings.
\<close>

section \<open>Environment variables and integers\<close>

type_synonym environ = "string \<rightharpoonup> string"

definition getenv :: "environ \<Rightarrow> string \<Rightarrow> string \<Rightarrow> string" where
  "getenv env k dflt = (case env k of None \<Rightarrow> dflt | Some v \<Rightarrow> v)"

definition is_space :: "char \<Rightarrow> bool" where
  "is_space c = (c \<in> set [CHR '' '', CHR 0x09, CHR 0x0A, CHR 0x0B, CHR 0x0C, CHR 0x0D,
     CHR 0x1C, CHR 0x1D, CHR 0x1E, CHR 0x1F])"

definition str_strip :: "string \<Rightarrow> string" where
  "str_strip s = rev (dropWhile is_space (rev (dropWhile is_space s)))"

text \<open>Decimal digits, with single underscores between digits; the flag says that a digit was last.\<close>

fun int_digits :: "bool \<Rightarrow> nat \<Rightarrow> string \<Rightarrow> nat option" where
  "int_digits d acc [] = (if d then Some acc else None)"
| "int_digits d acc (c # s) =
     (if is_digit c then int_digits True (acc * 10 + digit_val c) s
      else if c = CHR ''_'' \<and> d then int_digits False acc s
      else None)"

definition py_int :: "string \<Rightarrow> int result" where
  "py_int s =
     (let t = str_strip s;
          (neg, ds) = (if prefix ''-'' t then (True, tl t) else if prefix ''+'' t then (False, tl t)
                       else (False, t))
      in case int_digits False 0 ds of
           None \<Rightarrow> Inl ValueError
         | Some n \<Rightarrow> Inr (if neg then - int n else int n))"

section \<open>TLS contexts\<close>

datatype tls_version = TLSv1_2 | TLSv1_3
datatype tls_role = PROTOCOL_TLS_SERVER | PROTOCOL_TLS_CLIENT
datatype verify_mode = CERT_NONE | CERT_REQUIRED

record ssl_context =
  ctx_role :: tls_role
  minimum_version :: tls_version
  maximum_version :: tls_version
  ctx_verify_mode :: verify_mode
  check_hostname :: bool
  ctx_cafile :: "string option"
  ctx_certfile :: "string option"
  ctx_keyfile :: "string option"

text \<open>A fresh context: a client verifies its peer and the host name, a server does not.\<close>

definition SSLContext :: "tls_role \<Rightarrow> ssl_context" where
  "SSLContext role =
     \<lparr>ctx_role = role, minimum_version = TLSv1_2, maximum_version = TLSv1_3,
      ctx_verify_mode = (if role = PROTOCOL_TLS_CLIENT then CERT_REQUIRED else CERT_NONE),
      check_hostname = (role = PROTOCOL_TLS_CLIENT),
      ctx_cafile = None, ctx_certfile = None, ctx_keyfile = None\<rparr>"

text \<open>Loading reads the files; what they must hold is not modelled, only that they are there.\<close>

definition load_verify_locations :: "fsys \<Rightarrow> string \<Rightarrow> ssl_context \<Rightarrow> ssl_context result" where
  "load_verify_locations fs cafile c =
     (if path_exists cafile fs then Inr (c\<lparr>ctx_cafile := Some cafile\<rparr>) else Inl FileNotFoundError)"

definition load_cert_chain :: "fsys \<Rightarrow> string \<Rightarrow> string \<Rightarrow> ssl_context \<Rightarrow> ssl_context result" where
  "load_cert_chain fs certfile keyfile c =
     (if path_exists certfile fs \<and> path_exists keyfile fs
      then Inr (c\<lparr>ctx_certfile := Some certfile, ctx_keyfile := Some keyfile\<rparr>)
      else Inl FileNotFoundError)"

section \<open>Lemmas\<close>

lemma int_digits_dec:
  "(\<forall>c \<in> set s. is_digit c) \<Longrightarrow> d \<or> s \<noteq> [] \<Longrightarrow>
     int_digits d acc s = Some (foldl (\<lambda>n c. n * 10 + digit_val c) acc s)"
  by (induction s arbitrary: d acc) auto

lemma show_nat_nonempty: "show_nat n \<noteq> []"
  by (metis show_nat_Cons list.distinct(1))

lemma digit_not_space: "is_digit c \<Longrightarrow> \<not> is_space c \<and> c \<noteq> CHR ''-'' \<and> c \<noteq> CHR ''+''"
  by (auto simp: is_digit_def is_space_def)

lemma str_strip_id: "(\<forall>c \<in> set s. \<not> is_space c) \<Longrightarrow> str_strip s = s"
proof -
  assume "\<forall>c \<in> set s. \<not> is_space c"
  then have "dropWhile is_space s = s" "dropWhile is_space (rev s) = rev s"
    by (cases s, auto) (cases s rule: rev_cases, auto)
  then show ?thesis by (simp add: str_strip_def)
qed

text \<open>\<open>int(str(n)) = n\<close>.\<close>

lemma py_int_show: "py_int (show_nat n) = Inr (int n)"
proof -
  have d: "\<forall>c \<in> set (show_nat n). is_digit c" using show_nat_digits by blast
  then have "str_strip (show_nat n) = show_nat n" using digit_not_space by (intro str_strip_id) blast
  moreover have "\<not> prefix ''-'' (show_nat n)" "\<not> prefix ''+'' (show_nat n)"
    by (rule show_nat_Cons [of n], auto dest: digit_not_space)+
  moreover have "int_digits False 0 (show_nat n) = Some n"
    using int_digits_dec [OF d, of False 0] show_nat_nonempty [of n] dec_val_show_nat [of n]
    by (simp add: dec_val_def)
  ultimately show ?thesis by (simp add: py_int_def)
qed

end
