(* ===== verification/Qstie_Common.thy ===== *)
theory Qstie_Common
  imports Sha256 Py_Text
begin

text \<open>
  The shared contract of the two gateways, \<open>packages/qstie-common\<close>: the protocol enumerations
  (\<open>enums/protocol_enums.py\<close>), the exception hierarchy (\<open>errors/protocol_errors.py\<close>), the
  fingerprint convention (\<open>fingerprints/utils.py\<close>) and the frame codec
  (\<open>protocol/frame_codec.py\<close>). The transaction envelope is in \<open>Qstie_Envelope\<close>.

  A frame is one octet of message type, four octets of big-endian length and the payload. The
  codec is shown to be a stream codec (locale \<open>stream_codec\<close>): decoding what was encoded returns
  the message and the rest of the buffer, every strict prefix of a frame asks for more, and
  whatever decodes was encoded.
\<close>

section \<open>Enumerations\<close>

datatype MessageType = SIGNED_BUNDLE | ACK | NACK

fun MessageType_value :: "MessageType \<Rightarrow> nat" where
  "MessageType_value SIGNED_BUNDLE = 0x01"
| "MessageType_value ACK = 0x02"
| "MessageType_value NACK = 0x03"

definition MessageType_of :: "nat \<Rightarrow> MessageType result" where
  "MessageType_of n =
     (if n = 0x01 then Inr SIGNED_BUNDLE else if n = 0x02 then Inr ACK
      else if n = 0x03 then Inr NACK else Inl ValueError)"

datatype NackReason = SIG_INVALID | POLICY_DENIED | MALFORMED | UNKNOWN_SENDER | INGEST_FAILED
  | IDENTITY_MISMATCH | REVOKED_CERT

fun NackReason_value :: "NackReason \<Rightarrow> string" where
  "NackReason_value SIG_INVALID = ''SIG_INVALID''"
| "NackReason_value POLICY_DENIED = ''POLICY_DENIED''"
| "NackReason_value MALFORMED = ''MALFORMED''"
| "NackReason_value UNKNOWN_SENDER = ''UNKNOWN_SENDER''"
| "NackReason_value INGEST_FAILED = ''INGEST_FAILED''"
| "NackReason_value IDENTITY_MISMATCH = ''IDENTITY_MISMATCH''"
| "NackReason_value REVOKED_CERT = ''REVOKED_CERT''"

datatype TlpMarking = GREEN | AMBER | AMBER_STRICT

fun TlpMarking_value :: "TlpMarking \<Rightarrow> string" where
  "TlpMarking_value GREEN = ''tlp:green''"
| "TlpMarking_value AMBER = ''tlp:amber''"
| "TlpMarking_value AMBER_STRICT = ''tlp:amber+strict''"

definition TlpMarking_of :: "string \<Rightarrow> TlpMarking result" where
  "TlpMarking_of s =
     (if s = ''tlp:green'' then Inr GREEN else if s = ''tlp:amber'' then Inr AMBER
      else if s = ''tlp:amber+strict'' then Inr AMBER_STRICT else Inl ValueError)"

text \<open>The markings ordered by how much they restrict sharing.\<close>

fun tlp_rank :: "TlpMarking \<Rightarrow> nat" where
  "tlp_rank GREEN = 0"
| "tlp_rank AMBER = 1"
| "tlp_rank AMBER_STRICT = 2"

instantiation TlpMarking :: linorder
begin

definition less_eq_TlpMarking :: "TlpMarking \<Rightarrow> TlpMarking \<Rightarrow> bool" where
  "less_eq_TlpMarking a b = (tlp_rank a \<le> tlp_rank b)"

definition less_TlpMarking :: "TlpMarking \<Rightarrow> TlpMarking \<Rightarrow> bool" where
  "less_TlpMarking a b = (tlp_rank a < tlp_rank b)"

instance
proof
  fix x y :: TlpMarking
  show "x \<le> y \<Longrightarrow> y \<le> x \<Longrightarrow> x = y"
    unfolding less_eq_TlpMarking_def by (cases x; cases y) simp_all
qed (auto simp: less_eq_TlpMarking_def less_TlpMarking_def)

end

section \<open>Exception classes\<close>

text \<open>The subclasses of \<open>FrameError\<close> and of \<open>ProtocolError\<close>.\<close>

definition is_FrameError :: "exn \<Rightarrow> bool" where
  "is_FrameError e = (e \<in> {OversizedFrameError, MalformedFrameError, InvalidMessageTypeError,
     InvalidPayloadLengthError})"

definition is_ProtocolError :: "exn \<Rightarrow> bool" where
  "is_ProtocolError e = (is_FrameError e \<or> e = EnvelopeError)"

section \<open>Fingerprints\<close>

text \<open>The argument of the call: octets, or an object of another type.\<close>

datatype py_arg = ArgBytes bytes | ArgOther

fun calculate_fingerprint :: "py_arg \<Rightarrow> string result" where
  "calculate_fingerprint (ArgBytes data) =
     (let digest = hex_bytes (sha256 data) in Inr (str_lower digest))"
| "calculate_fingerprint ArgOther = Inl TypeError"

section \<open>Frames\<close>

definition HEADER_SIZE :: nat where
  "HEADER_SIZE = 5"

definition DEFAULT_MAX_PAYLOAD_SIZE :: int where
  "DEFAULT_MAX_PAYLOAD_SIZE = 10 * 1024 * 1024"

record FrameCodec =
  max_payload_size :: int

definition FrameCodec_default :: FrameCodec where
  "FrameCodec_default = \<lparr>max_payload_size = DEFAULT_MAX_PAYLOAD_SIZE\<rparr>"

text \<open>\<open>struct.pack(">BI", t, n)\<close> and \<open>struct.unpack(">BI", data)\<close>.\<close>

definition pack_BI :: "nat \<Rightarrow> nat \<Rightarrow> bytes result" where
  "pack_BI t n = (if t < 256 \<and> n < 2 ^ 32 then Inr (word_of_nat t # be32 n) else Inl StructError)"

definition unpack_BI :: "bytes \<Rightarrow> (nat \<times> nat) result" where
  "unpack_BI data =
     (if length data = HEADER_SIZE then Inr (unat (hd data), be32_dec (tl data))
      else Inl StructError)"

definition encode_frame :: "FrameCodec \<Rightarrow> MessageType \<Rightarrow> bytes \<Rightarrow> bytes result" where
  "encode_frame c msg_type payload =
     (if int (length payload) > max_payload_size c then Inl OversizedFrameError
      else rbind (pack_BI (MessageType_value msg_type) (length payload))
             (\<lambda>header. Inr (header @ payload)))"

definition decode_frame_stream ::
    "FrameCodec \<Rightarrow> bytes \<Rightarrow> (MessageType option \<times> bytes option \<times> bytes) result" where
  "decode_frame_stream c buffer =
     (if length buffer < HEADER_SIZE then Inr (None, None, buffer)
      else rbind (unpack_BI (take HEADER_SIZE buffer)) (\<lambda>(msg_type_val, payload_len).
        case MessageType_of msg_type_val of
          Inl _ \<Rightarrow> Inl InvalidMessageTypeError
        | Inr msg_type \<Rightarrow>
          if int payload_len > max_payload_size c then Inl OversizedFrameError
          else
            (let total_frame_size = HEADER_SIZE + payload_len
             in if length buffer < total_frame_size then Inr (None, None, buffer)
                else
                  (let payload = take payload_len (drop HEADER_SIZE buffer);
                       remaining = drop total_frame_size buffer
                   in Inr (Some msg_type, Some payload, remaining)))))"

definition decode_frame :: "FrameCodec \<Rightarrow> bytes \<Rightarrow> (MessageType \<times> bytes) result" where
  "decode_frame c data =
     rbind (decode_frame_stream c data) (\<lambda>(msg_type, payload, remaining).
       case (msg_type, payload) of
         (Some t, Some p) \<Rightarrow> if remaining \<noteq> [] then Inl MalformedFrameError else Inr (t, p)
       | _ \<Rightarrow> Inl MalformedFrameError)"

section \<open>The stream codec interface\<close>

text \<open>
  What a reader of a stream needs of a codec, whatever its framing: an encoded message is decoded
  with the rest of the buffer untouched, a strict prefix asks for more input, and a decoded
  message is one that was encoded.
\<close>

locale stream_codec =
  fixes enc :: "'m \<Rightarrow> 'b list \<Rightarrow> 'b list result"
    and dec :: "'b list \<Rightarrow> ('m option \<times> 'b list option \<times> 'b list) result"
  assumes dec_enc: "enc t p = Inr f \<Longrightarrow> dec (f @ r) = Inr (Some t, Some p, r)"
    and dec_prefix: "enc t p = Inr f \<Longrightarrow> strict_prefix g f \<Longrightarrow> dec g = Inr (None, None, g)"
    and dec_sound: "dec b = Inr (Some t, p', r) \<Longrightarrow>
      \<exists>p f. p' = Some p \<and> enc t p = Inr f \<and> b = f @ r"
    and dec_none: "dec b = Inr (None, p', r) \<Longrightarrow> p' = None \<and> r = b"
begin

lemma dec_exact: "enc t p = Inr f \<Longrightarrow> dec f = Inr (Some t, Some p, [])"
  using dec_enc [of t p f "[]"] by simp

lemma enc_injective: "enc t p = Inr f \<Longrightarrow> enc t' p' = Inr f \<Longrightarrow> t = t' \<and> p = p'"
  using dec_exact [of t p f] dec_exact [of t' p' f] by simp

text \<open>No frame is a strict prefix of another, so a stream of frames is read one way only.\<close>

lemma enc_prefix_free:
  assumes "enc t p = Inr f" "enc t' p' = Inr f'" "prefix f f'"
  shows "f = f'"
proof (rule ccontr)
  assume "f \<noteq> f'"
  with assms(3) have "strict_prefix f f'" by simp
  with assms(2) have "dec f = Inr (None, None, f)" by (rule dec_prefix)
  with dec_exact [OF assms(1)] show False by simp
qed

lemma dec_append_stable:
  assumes "dec b = Inr (Some t, Some p, r)"
  shows "dec (b @ x) = Inr (Some t, Some p, r @ x)"
proof -
  from dec_sound [OF assms] obtain f where f: "enc t p = Inr f" "b = f @ r" by auto
  show ?thesis using dec_enc [OF f(1), of "r @ x"] by (simp add: f(2))
qed

end

section \<open>The codec implements the interface\<close>

lemma MessageType_of_value [simp]: "MessageType_of (MessageType_value t) = Inr t"
  by (cases t) (simp_all add: MessageType_of_def)

lemma MessageType_of_Inr: "MessageType_of n = Inr t \<longleftrightarrow> n = MessageType_value t"
  by (cases t) (auto simp: MessageType_of_def split: if_splits)

lemma MessageType_value_less [simp]: "MessageType_value t < 256"
  by (cases t) simp_all

lemma encode_frame_Inr:
  "encode_frame c t p = Inr f \<longleftrightarrow>
     int (length p) \<le> max_payload_size c \<and> length p < 2 ^ 32
     \<and> f = word_of_nat (MessageType_value t) # be32 (length p) @ p"
  by (auto simp: encode_frame_def pack_BI_def split: if_splits)

lemma unpack_BI_header:
  "t < 256 \<Longrightarrow> n < 2 ^ 32 \<Longrightarrow> unpack_BI (word_of_nat t # be32 n) = Inr (t, n)"
  by (simp add: unpack_BI_def HEADER_SIZE_def unat_word_of_nat_byte)

text \<open>Decoding a buffer whose header has been read.\<close>

lemma decode_header:
  assumes "length hdr = HEADER_SIZE"
  shows "decode_frame_stream c (hdr @ b) =
    (case MessageType_of (unat (hd hdr)) of
       Inl _ \<Rightarrow> Inl InvalidMessageTypeError
     | Inr t \<Rightarrow>
       if int (be32_dec (tl hdr)) > max_payload_size c then Inl OversizedFrameError
       else if length b < be32_dec (tl hdr) then Inr (None, None, hdr @ b)
       else Inr (Some t, Some (take (be32_dec (tl hdr)) b), drop (be32_dec (tl hdr)) b))"
  using assms by (simp add: decode_frame_stream_def unpack_BI_def Let_def split: sum.split)

lemma header_of_value:
  assumes "length hdr = HEADER_SIZE"
  shows "hdr = word_of_nat (unat (hd hdr)) # be32 (be32_dec (tl hdr))"
proof -
  have "length (tl hdr) = 4" using assms by (simp add: HEADER_SIZE_def)
  then show ?thesis using assms by (cases hdr) (auto simp: HEADER_SIZE_def be32_be32_dec)
qed

lemma split_header:
  assumes "HEADER_SIZE \<le> length b"
  obtains hdr r where "b = hdr @ r" "length hdr = HEADER_SIZE"
  using that [of "take HEADER_SIZE b" "drop HEADER_SIZE b"] assms by simp

lemma decode_encoded:
  assumes "encode_frame c t p = Inr f"
  shows "decode_frame_stream c (f @ r) = Inr (Some t, Some p, r)"
proof -
  let ?h = "word_of_nat (MessageType_value t) # be32 (length p)"
  from assms have p: "int (length p) \<le> max_payload_size c" "length p < 2 ^ 32"
    and f: "f = ?h @ p" by (auto simp: encode_frame_Inr)
  have "length ?h = HEADER_SIZE" by (simp add: HEADER_SIZE_def)
  note decode_header [OF this, of c "p @ r"]
  then show ?thesis using p unfolding f
    by (simp add: unat_word_of_nat_byte)
qed

lemma decode_prefix:
  assumes "encode_frame c t p = Inr f" "strict_prefix g f"
  shows "decode_frame_stream c g = Inr (None, None, g)"
proof (cases "length g < HEADER_SIZE")
  case True
  then show ?thesis by (simp add: decode_frame_stream_def)
next
  case False
  let ?h = "word_of_nat (MessageType_value t) # be32 (length p)"
  have h: "length ?h = HEADER_SIZE" by (simp add: HEADER_SIZE_def)
  from assms have p: "int (length p) \<le> max_payload_size c" "length p < 2 ^ 32"
    and f: "f = ?h @ p" by (auto simp: encode_frame_Inr)
  from assms(2) obtain x where x: "f = g @ x" "x \<noteq> []" by (auto simp: strict_prefix_def prefix_def)
  have "?h @ p = g @ x" using f x(1) by simp
  moreover from False have "length ?h \<le> length g" using h by simp
  ultimately obtain b where g: "g = ?h @ b" "p = b @ x" by (rule append_prefix_split)
  then have "length b < length p" using x(2) by simp
  with decode_header [OF h, of c b] p show ?thesis
    unfolding g(1) by (simp add: unat_word_of_nat_byte)
qed

lemma decode_sound:
  assumes "decode_frame_stream c b = Inr (Some t, p', r)"
  shows "\<exists>p f. p' = Some p \<and> encode_frame c t p = Inr f \<and> b = f @ r"
proof -
  have "HEADER_SIZE \<le> length b"
    using assms by (auto simp: decode_frame_stream_def split: if_splits)
  then obtain hdr s where b: "b = hdr @ s" and h: "length hdr = HEADER_SIZE" by (rule split_header)
  let ?n = "be32_dec (tl hdr)"
  have n: "?n < 2 ^ 32" using h by (intro be32_dec_less) (simp add: HEADER_SIZE_def)
  from assms have t: "MessageType_of (unat (hd hdr)) = Inr t" "int ?n \<le> max_payload_size c"
      "?n \<le> length s"
    and r: "p' = Some (take ?n s)" "r = drop ?n s"
    unfolding b decode_header [OF h] by (auto split: sum.splits if_splits)
  then have "encode_frame c t (take ?n s) = Inr (hdr @ take ?n s)"
    using n header_of_value [OF h] by (auto simp: encode_frame_Inr MessageType_of_Inr)
  then show ?thesis using r b by auto
qed

lemma decode_none:
  assumes "decode_frame_stream c b = Inr (None, p', r)"
  shows "p' = None \<and> r = b"
  using assms unfolding decode_frame_stream_def Let_def
  by (auto split: if_splits sum.splits simp: unpack_BI_def)

interpretation frames: stream_codec "encode_frame c" "decode_frame_stream c" for c
  by unfold_locales (auto intro: decode_encoded decode_prefix dest: decode_sound decode_none)

section \<open>Errors of the decoder\<close>

lemma decode_errors:
  assumes "HEADER_SIZE \<le> length b"
  shows "decode_frame_stream c b = Inl e \<longleftrightarrow>
    (e = InvalidMessageTypeError \<and> unat (b ! 0) \<notin> {1, 2, 3}) \<or>
    (e = OversizedFrameError \<and> unat (b ! 0) \<in> {1, 2, 3}
      \<and> int (be32_dec (take 4 (drop 1 b))) > max_payload_size c)"
proof -
  from assms obtain hdr s where b: "b = hdr @ s" and h: "length hdr = HEADER_SIZE"
    by (rule split_header)
  have hd: "b ! 0 = hd hdr" using h by (cases hdr) (auto simp: b HEADER_SIZE_def)
  have tl: "take 4 (drop 1 b) = tl hdr" using h by (cases hdr) (auto simp: b HEADER_SIZE_def)
  show ?thesis
    unfolding hd tl unfolding b decode_header [OF h] MessageType_of_def
    by (auto split: if_splits)
qed

lemma decode_short: "length b < HEADER_SIZE \<Longrightarrow> decode_frame_stream c b = Inr (None, None, b)"
  by (simp add: decode_frame_stream_def)

section \<open>Properties\<close>

text \<open>
  C8: decoding a buffer that starts with an encoded frame returns the message type and the
  payload that were encoded, and leaves exactly the octets that followed the frame.
\<close>

theorem frame_roundtrip:
  assumes "encode_frame c t p = Inr f"
  shows "decode_frame_stream c (f @ rest) = Inr (Some t, Some p, rest)"
  using assms by (rule frames.dec_enc)

theorem frame_roundtrip_witness:
  "encode_frame FrameCodec_default ACK [1, 2] = Inr [2, 0, 0, 0, 2, 1, 2] \<and>
   decode_frame_stream FrameCodec_default ([2, 0, 0, 0, 2, 1, 2] @ [9]) =
     Inr (Some ACK, Some [1, 2], [9])"
proof -
  have "encode_frame FrameCodec_default ACK [1, 2] = Inr [2, 0, 0, 0, 2, 1, 2]"
    by (simp add: encode_frame_Inr FrameCodec_default_def DEFAULT_MAX_PAYLOAD_SIZE_def be32_def)
  then show ?thesis using frame_roundtrip by blast
qed

text \<open>
  C9: on every strict prefix of an encoded frame the decoder reports an incomplete frame and
  returns the buffer unchanged, so a reader that appends what arrives next loses nothing.
\<close>

theorem frame_prefix_incomplete:
  assumes "encode_frame c t p = Inr f" and "strict_prefix g f"
  shows "decode_frame_stream c g = Inr (None, None, g)"
  using assms by (rule frames.dec_prefix)

theorem frame_prefix_incomplete_witness:
  "strict_prefix [3, 0, 0] [3, 0, 0, 0, 0] \<and>
   decode_frame_stream FrameCodec_default [3, 0, 0] = Inr (None, None, [3, 0, 0])"
proof -
  have e: "encode_frame FrameCodec_default NACK [] = Inr [3, 0, 0, 0, 0]"
    by (simp add: encode_frame_Inr FrameCodec_default_def DEFAULT_MAX_PAYLOAD_SIZE_def be32_def)
  have s: "strict_prefix [3, 0, 0] [3, 0, 0, 0, 0 :: byte]"
    by (simp add: strict_prefix_def)
  show ?thesis using s frame_prefix_incomplete [OF e s] by simp
qed

text \<open>
  C10: whatever the decoder accepts is the encoding of what it returns: a buffer that decodes to a
  message starts with the one frame of that message, and the rest is returned untouched. No two
  octet sequences decode to the same message.
\<close>

theorem frame_decode_canonical:
  assumes "decode_frame_stream c b = Inr (Some t, p', r)"
  shows "\<exists>p f. p' = Some p \<and> encode_frame c t p = Inr f \<and> b = f @ r
    \<and> int (length p) \<le> max_payload_size c"
  using frames.dec_sound [OF assms] by (auto simp: encode_frame_Inr)

theorem frame_decode_canonical_witness:
  "\<exists>p f. Some [7] = Some p \<and> encode_frame FrameCodec_default SIGNED_BUNDLE p = Inr f
    \<and> [1, 0, 0, 0, 1, 7, 8] = f @ [8] \<and> int (length p) \<le> max_payload_size FrameCodec_default"
proof -
  have "decode_frame_stream FrameCodec_default [1, 0, 0, 0, 1, 7, 8] =
      Inr (Some SIGNED_BUNDLE, Some [7], [8])"
    by (simp add: decode_frame_stream_def unpack_BI_def MessageType_of_def HEADER_SIZE_def
        FrameCodec_default_def DEFAULT_MAX_PAYLOAD_SIZE_def)
  then show ?thesis by (rule frame_decode_canonical)
qed

text \<open>
  C11: with five octets in the buffer the decoder's errors are decided by these five octets alone,
  before any payload arrives: an unknown type octet, or else a declared length above the
  maximum. The type is checked first, and there is no other error.
\<close>

theorem frame_error_from_header:
  assumes "HEADER_SIZE \<le> length b"
  shows "decode_frame_stream c b = Inl e \<longleftrightarrow>
    (e = InvalidMessageTypeError \<and> unat (b ! 0) \<notin> {1, 2, 3}) \<or>
    (e = OversizedFrameError \<and> unat (b ! 0) \<in> {1, 2, 3}
      \<and> int (be32_dec (take 4 (drop 1 b))) > max_payload_size c)"
  using assms by (rule decode_errors)

theorem frame_error_from_header_witness:
  "HEADER_SIZE \<le> length [1, 1, 0, 0, 0 :: byte] \<and>
   decode_frame_stream FrameCodec_default [1, 1, 0, 0, 0] = Inl OversizedFrameError"
proof -
  have h: "HEADER_SIZE \<le> length [1, 1, 0, 0, 0 :: byte]" by (simp add: HEADER_SIZE_def)
  show ?thesis
    using h frame_error_from_header [OF h, of FrameCodec_default OversizedFrameError]
    by (simp add: FrameCodec_default_def DEFAULT_MAX_PAYLOAD_SIZE_def)
qed

text \<open>
  \<open>decode_frame\<close> inverts \<open>encode_frame\<close> exactly: it returns a message for the one octet
  sequence that encodes it and raises on everything else, trailing data included.
\<close>

theorem decode_frame_iff_encode:
  "decode_frame c d = Inr (t, p) \<longleftrightarrow> encode_frame c t p = Inr d"
proof
  assume "decode_frame c d = Inr (t, p)"
  then have "decode_frame_stream c d = Inr (Some t, Some p, [])"
    by (auto simp: decode_frame_def split: option.splits if_splits)
  from frames.dec_sound [OF this] show "encode_frame c t p = Inr d" by auto
next
  assume "encode_frame c t p = Inr d"
  from frames.dec_exact [OF this] show "decode_frame c d = Inr (t, p)"
    by (simp add: decode_frame_def)
qed

text \<open>
  A fingerprint is 64 lowercase hexadecimal digits, the digest's own spelling: lowering it
  again changes nothing, and only octets are accepted.
\<close>

theorem fingerprint_canonical:
  "(\<exists>fp. calculate_fingerprint (ArgBytes data) = Inr fp \<and> fp = hex_bytes (sha256 data)
     \<and> length fp = 64 \<and> list_all is_lower_hex fp)
   \<and> calculate_fingerprint ArgOther = Inl TypeError"
proof -
  have "str_lower (hex_bytes (sha256 data)) = hex_bytes (sha256 data)"
    by (rule str_lower_hex) (rule hex_bytes_lower)
  then show ?thesis
    by (auto simp: length_hex_bytes list_all_iff dest: hex_bytes_lower)
qed

end
