(* ===== verification/Gateway_A_Models.thy ===== *)
theory Gateway_A_Models
  imports Interfaces Py_Env Qstie_Common
begin

text \<open>
  The data of Gateway A: transactions (\<open>gateway_a/models.py\<close>), configuration
  (\<open>gateway_a/config.py\<close>), the dead letter store (\<open>gateway_a/pipeline/dead_letter.py\<close>), the
  telemetry log (\<open>gateway_a/observability/telemetry_logger.py\<close>), the client's TLS context
  (\<open>gateway_a/crypto/tls_client.py\<close>) and the bounded queues between the workers
  (\<open>asyncio.Queue\<close>).
\<close>

section \<open>Transactions\<close>

datatype TransactionState = RECEIVED | VALIDATED | SIGNED | POLICY_APPROVED | POLICY_REJECTED
  | SENDING | ACKED | FAILED | DEAD_LETTERED

fun TransactionState_value :: "TransactionState \<Rightarrow> string" where
  "TransactionState_value RECEIVED = ''received''"
| "TransactionState_value VALIDATED = ''validated''"
| "TransactionState_value SIGNED = ''signed''"
| "TransactionState_value POLICY_APPROVED = ''policy_approved''"
| "TransactionState_value POLICY_REJECTED = ''policy_rejected''"
| "TransactionState_value SENDING = ''sending''"
| "TransactionState_value ACKED = ''acked''"
| "TransactionState_value FAILED = ''failed''"
| "TransactionState_value DEAD_LETTERED = ''dead_lettered''"

text \<open>The identifiers come out of parsed documents and keep their dynamic type.\<close>

record StixBundle =
  bundle_id :: pyval
  raw_json :: bytes
  sb_tlp_marking :: TlpMarking
  misp_event_uuid :: pyval

text \<open>
  The transaction id is the text of the UUID; the creation time is kept as its ISO text and as
  milliseconds of the epoch. \<open>tx_compressed\<close> is the attribute \<open>stix_bundle_compressed\<close>, which the
  class does not declare: it exists only once the signer has set it.
\<close>

record GatewayATransaction =
  tx_id :: string
  tx_sender :: string
  tx_recipient :: string
  tx_bundle :: "StixBundle option"
  tx_compressed :: "bytes option"
  tx_signature :: bytes
  tx_signer_fp :: string
  tx_state :: TransactionState
  tx_created_iso :: string
  tx_created_ms :: int
  tx_retry_count :: int
  tx_telemetry :: "(string \<times> pyval) list"

definition new_transaction ::
    "string \<Rightarrow> string \<Rightarrow> int \<Rightarrow> StixBundle \<Rightarrow> TransactionState \<Rightarrow> (string \<times> pyval) list
       \<Rightarrow> GatewayATransaction" where
  "new_transaction uuid created ms b st telemetry =
     \<lparr>tx_id = uuid, tx_sender = ''RAW'', tx_recipient = ''NIA'', tx_bundle = Some b,
      tx_compressed = None, tx_signature = [], tx_signer_fp = [], tx_state = st,
      tx_created_iso = created, tx_created_ms = ms, tx_retry_count = 0, tx_telemetry = telemetry\<rparr>"

section \<open>Configuration\<close>

record GatewayAConfig =
  ca_agency_id :: string
  ca_cert_path :: string
  ca_key_path :: string
  ca_ml_dsa_private_key_path :: string
  ca_ca_trust_path :: string
  misp_zmq_endpoint :: string
  misp_tags_filter :: "string list"
  ca_hybrid_group :: string
  recipients :: "(string \<times> (string \<times> string) list) list"
  transmission_workers :: int
  ingestion_queue_maxsize :: int
  extracted_queue_maxsize :: int
  signed_queue_maxsize :: int
  tx_queue_maxsize :: int
  max_attempts :: int
  base_backoff_ms :: int
  backoff_factor :: int

definition GatewayAConfig_load :: "environ \<Rightarrow> GatewayAConfig result" where
  "GatewayAConfig_load env =
     rbind (py_int (getenv env ''TRANSMISSION_WORKERS'' ''4'')) (\<lambda>workers.
     rbind (py_int (getenv env ''INGESTION_QUEUE_MAXSIZE'' ''100'')) (\<lambda>q1.
     rbind (py_int (getenv env ''EXTRACTED_QUEUE_MAXSIZE'' ''50'')) (\<lambda>q2.
     rbind (py_int (getenv env ''SIGNED_QUEUE_MAXSIZE'' ''50'')) (\<lambda>q3.
     rbind (py_int (getenv env ''TX_QUEUE_MAXSIZE'' ''20'')) (\<lambda>q4.
     rbind (py_int (getenv env ''MAX_RETRY_ATTEMPTS'' ''3'')) (\<lambda>ma.
     rbind (py_int (getenv env ''BASE_BACKOFF_MS'' ''200'')) (\<lambda>bb.
     rbind (py_int (getenv env ''BACKOFF_FACTOR'' ''2'')) (\<lambda>bf.
       Inr \<lparr>ca_agency_id = getenv env ''AGENCY_ID'' ''RAW'',
            ca_cert_path = getenv env ''CERT_PATH'' ''/app/pki/gateway_raw/raw_gateway.crt'',
            ca_key_path = getenv env ''KEY_PATH'' ''/app/pki/gateway_raw/raw_gateway.key'',
            ca_ml_dsa_private_key_path =
              getenv env ''ML_DSA_PRIVATE_KEY_PATH'' ''/app/pki/gateway_raw/raw_ml_dsa65.pem'',
            ca_ca_trust_path = getenv env ''CA_TRUST_PATH'' ''/app/pki/ca/root_ca.crt'',
            misp_zmq_endpoint = getenv env ''MISP_ZMQ_ENDPOINT'' ''tcp://misp-host:50000'',
            misp_tags_filter =
              str_split (CHR '','') (getenv env ''MISP_TAGS_FILTER'' ''share:NIA,tlp:amber''),
            ca_hybrid_group = getenv env ''HYBRID_GROUP'' ''X25519MLKEM768'',
            recipients = [(''NIA'', [(''host'', getenv env ''GATEWAY_B_HOST'' ''gateway-b''),
                                     (''port'', getenv env ''GATEWAY_B_PORT'' ''8443'')])],
            transmission_workers = workers, ingestion_queue_maxsize = q1,
            extracted_queue_maxsize = q2, signed_queue_maxsize = q3, tx_queue_maxsize = q4,
            max_attempts = ma, base_backoff_ms = bb, backoff_factor = bf\<rparr>))))))))"

section \<open>The client's TLS context\<close>

record PqcTlsClient =
  tc_cert_path :: string
  tc_key_path :: string
  tc_ca_trust_path :: string
  tc_hybrid_group :: string

definition create_ssl_context_a :: "fsys \<Rightarrow> PqcTlsClient \<Rightarrow> ssl_context result" where
  "create_ssl_context_a fs cl =
     (let c = (SSLContext PROTOCOL_TLS_CLIENT)
                \<lparr>minimum_version := TLSv1_3, maximum_version := TLSv1_3,
                 ctx_verify_mode := CERT_REQUIRED, check_hostname := False\<rparr>
      in rbind (load_verify_locations fs (tc_ca_trust_path cl) c)
           (load_cert_chain fs (tc_cert_path cl) (tc_key_path cl)))"

section \<open>Queues\<close>

text \<open>A size of zero or less is no bound.\<close>

record 'a aqueue =
  q_items :: "'a list"
  q_maxsize :: nat

definition q_new :: "int \<Rightarrow> 'a aqueue" where
  "q_new maxsize = \<lparr>q_items = [], q_maxsize = nat maxsize\<rparr>"

text \<open>\<open>put\<close> blocks (\<open>None\<close>) on a full queue, \<open>get\<close> on an empty one.\<close>

definition q_put :: "'a \<Rightarrow> 'a aqueue \<Rightarrow> 'a aqueue option" where
  "q_put x q =
     (if 0 < q_maxsize q \<and> q_maxsize q \<le> length (q_items q) then None
      else Some (q\<lparr>q_items := q_items q @ [x]\<rparr>))"

definition q_get :: "'a aqueue \<Rightarrow> ('a \<times> 'a aqueue) option" where
  "q_get q = (case q_items q of [] \<Rightarrow> None | x # xs \<Rightarrow> Some (x, q\<lparr>q_items := xs\<rparr>))"

section \<open>The dead letter store\<close>

record DeadLetterStore =
  dl_maxlen :: nat
  dl_filepath :: string
  dl_store :: "pyval list"

definition DeadLetterStore_init :: "nat \<Rightarrow> string \<Rightarrow> DeadLetterStore" where
  "DeadLetterStore_init maxlen filepath =
     \<lparr>dl_maxlen = maxlen, dl_filepath = filepath, dl_store = []\<rparr>"

text \<open>\<open>append\<close> of a \<open>deque\<close> with a maximal length drops from the left.\<close>

definition deque_append :: "nat \<Rightarrow> 'a \<Rightarrow> 'a list \<Rightarrow> 'a list" where
  "deque_append maxlen x xs =
     (let ys = xs @ [x] in drop (length ys - maxlen) ys)"

definition dl_entry :: "GatewayATransaction \<Rightarrow> string \<Rightarrow> pyval" where
  "dl_entry t reason = VDict
     [(''transaction_id'', VStr (tx_id t)), (''reason'', VStr reason),
      (''state'', VStr (TransactionState_value (tx_state t))),
      (''timestamp'', VStr (tx_created_iso t))]"

definition dl_add ::
    "GatewayATransaction \<Rightarrow> string \<Rightarrow> DeadLetterStore \<times> fsys \<Rightarrow> DeadLetterStore \<times> fsys" where
  "dl_add t reason s =
     (let entry = dl_entry t reason; (d, fs) = s
      in (d\<lparr>dl_store := deque_append (dl_maxlen d) entry (dl_store d)\<rparr>,
          append_file (dl_filepath d) (json_dumps entry @ [CHR 0x0A]) fs))"

definition dl_snapshot :: "DeadLetterStore \<Rightarrow> pyval list" where
  "dl_snapshot d = dl_store d"

section \<open>The telemetry log\<close>

definition TELEMETRY_FILE_A :: string where
  "TELEMETRY_FILE_A = ''results/phase5/evidence/telemetry_a.jsonl''"

definition telemetry_val_a :: "GatewayATransaction \<Rightarrow> pyval" where
  "telemetry_val_a t = VDict
     [(''transaction_id'', VStr (tx_id t)), (''state'', VStr (TransactionState_value (tx_state t))),
      (''telemetry'', VDict (tx_telemetry t))]"

definition log_telemetry :: "GatewayATransaction \<Rightarrow> fsys \<Rightarrow> fsys" where
  "log_telemetry t fs =
     append_file TELEMETRY_FILE_A (json_dumps (telemetry_val_a t) @ [CHR 0x0A]) fs"

section \<open>Lemmas\<close>

lemma aqueue_put: "q_put x q = Some q' \<Longrightarrow> q_items q' = q_items q @ [x] \<and> q_maxsize q' = q_maxsize q"
  by (auto simp: q_put_def split: if_splits)

lemma aqueue_get: "q_get q = Some (x, q') \<Longrightarrow> q_items q = x # q_items q' \<and> q_maxsize q' = q_maxsize q"
  by (auto simp: q_get_def split: list.splits)

interpretation aq: bounded_fifo q_items q_maxsize q_put q_get
  by unfold_locales (auto dest: aqueue_put aqueue_get simp: q_put_def q_get_def split: list.splits if_splits)

lemma deque_append_length: "length (deque_append n x xs) \<le> n"
  by (simp add: deque_append_def)

text \<open>A bounded log keeps the newest entries: it is the suffix of the unbounded one.\<close>

lemma deque_append_suffix:
  "deque_append n x (drop (length ys - n) ys) = drop (length (ys @ [x]) - n) (ys @ [x])"
  by (cases "length ys \<le> n") (auto simp: deque_append_def drop_drop Suc_diff_le)

fun dl_add_all ::
    "(GatewayATransaction \<times> string) list \<Rightarrow> DeadLetterStore \<times> fsys \<Rightarrow> DeadLetterStore \<times> fsys" where
  "dl_add_all [] s = s"
| "dl_add_all ((t, r) # ts) s = dl_add_all ts (dl_add t r s)"

lemma dl_add_all_append: "dl_add_all (xs @ ys) s = dl_add_all ys (dl_add_all xs s)"
proof (induction xs arbitrary: s)
  case (Cons e xs)
  show ?case by (cases e) (simp only: append_Cons dl_add_all.simps Cons.IH)
qed simp

text \<open>One line of the file for an entry.\<close>

definition dl_line :: "GatewayATransaction \<times> string \<Rightarrow> string" where
  "dl_line e = json_dumps (dl_entry (fst e) (snd e)) @ [CHR 0x0A]"

lemma dl_add_all_state:
  "dl_filepath (fst (dl_add_all es s)) = dl_filepath (fst s)"
  "dl_maxlen (fst (dl_add_all es s)) = dl_maxlen (fst s)"
proof (induction es arbitrary: s)
  case (Cons e es)
  obtain t r where e: "e = (t, r)" by force
  {
    case 1
    show ?case by (simp only: e dl_add_all.simps Cons.IH) (simp add: dl_add_def Let_def split: prod.split)
  next
    case 2
    show ?case by (simp only: e dl_add_all.simps Cons.IH) (simp add: dl_add_def Let_def split: prod.split)
  }
qed simp_all

definition file_text :: "string \<Rightarrow> fsys \<Rightarrow> string" where
  "file_text p fs = (case files fs p of None \<Rightarrow> [] | Some s \<Rightarrow> s)"

lemma file_text_append [simp]: "file_text p (append_file p s fs) = file_text p fs @ s"
  by (simp add: file_text_def split: option.split)

section \<open>Properties\<close>

text \<open>
  The dead letter store holds exactly the newest entries. After any sequence of additions to
  a fresh store, the memory holds the last \<open>maxlen\<close> entries in order, never more, while the file
  has received every entry, one line each, in order.
\<close>

theorem dead_letters_newest:
  "dl_snapshot (fst (dl_add_all es (DeadLetterStore_init n p, fs)))
      = drop (length es - n) (map (\<lambda>e. dl_entry (fst e) (snd e)) es)
   \<and> length (dl_snapshot (fst (dl_add_all es (DeadLetterStore_init n p, fs)))) \<le> n
   \<and> file_text p (snd (dl_add_all es (DeadLetterStore_init n p, fs)))
      = file_text p fs @ concat (map dl_line es)"
proof (induction es rule: rev_induct)
  case Nil
  then show ?case by (simp add: DeadLetterStore_init_def dl_snapshot_def)
next
  case (snoc e es)
  let ?s = "dl_add_all es (DeadLetterStore_init n p, fs)"
  obtain t r where e: "e = (t, r)" by force
  have m: "dl_maxlen (fst ?s) = n" "dl_filepath (fst ?s) = p"
    by (simp_all add: dl_add_all_state DeadLetterStore_init_def)
  have "length (map (\<lambda>e. dl_entry (fst e) (snd e)) es) = length es" by simp
  with deque_append_suffix [of n "dl_entry t r" "map (\<lambda>e. dl_entry (fst e) (snd e)) es"]
  show ?case using snoc.IH m
    by (auto simp: dl_add_all_append e dl_add_def Let_def dl_snapshot_def dl_line_def split: prod.split)
qed

text \<open>
  The sending side speaks TLS 1.3 only, presents its own certificate and requires one of the
  peer signed under the configured authority; it does not compare the host name with the
  certificate, so any certificate of that authority is accepted as the peer.
\<close>

theorem client_context_profile:
  "create_ssl_context_a fs cl = Inr c \<longleftrightarrow>
     path_exists (tc_ca_trust_path cl) fs \<and> path_exists (tc_cert_path cl) fs
     \<and> path_exists (tc_key_path cl) fs
     \<and> c = \<lparr>ctx_role = PROTOCOL_TLS_CLIENT, minimum_version = TLSv1_3, maximum_version = TLSv1_3,
           ctx_verify_mode = CERT_REQUIRED, check_hostname = False,
           ctx_cafile = Some (tc_ca_trust_path cl), ctx_certfile = Some (tc_cert_path cl),
           ctx_keyfile = Some (tc_key_path cl)\<rparr>"
  by (auto simp: create_ssl_context_a_def load_verify_locations_def load_cert_chain_def SSLContext_def
      split: if_splits)

end
