(* ===== verification/Gateway_A_Ingestion.thy ===== *)
theory Gateway_A_Ingestion
  imports Gateway_A_Models
begin

text \<open>
  Where Gateway A gets its transactions from: the MISP listener
  (\<open>gateway_a/ingestion/misp_listener.py\<close>), which filters the events of a publisher by their
  tags, and the STIX extractor (\<open>gateway_a/ingestion/stix_extractor.py\<close>), which derives the TLP
  marking and converts an event to a STIX bundle.

  The publisher is the list of what the socket delivers. The packages \<open>misp_stix_converter\<close> and
  \<open>stix2\<close> are parameters, the record \<open>stix_libs\<close>.
\<close>

section \<open>The MISP listener\<close>

record MispZmqListener =
  ml_endpoint :: string
  tags_filter :: "string list"

text \<open>\<open>{tag.get("name") for tag in tags}\<close>: every name has to be hashable.\<close>

definition tag_name_of :: "pyval \<Rightarrow> pyval result" where
  "tag_name_of tag =
     rbind (py_get tag ''name'' VNone) (\<lambda>n. if hashable n then Inr n else Inl TypeError)"

definition is_relevant :: "MispZmqListener \<Rightarrow> pyval \<Rightarrow> bool result" where
  "is_relevant l event_data =
     (if tags_filter l = [] then Inr True
      else rbind (py_get event_data ''Event'' (VDict [])) (\<lambda>event.
        if \<not> truthy event then Inr False
        else rbind (py_get event ''Tag'' (VList [])) (\<lambda>tags.
             rbind (py_iter tags) (\<lambda>ts.
             rbind (rmap tag_name_of ts) (\<lambda>event_tag_names.
               Inr (list_ex (\<lambda>t. VStr t \<in> set event_tag_names) (tags_filter l)))))))"

text \<open>
  One message: \<open>Inr None\<close> when it is ignored (also when its payload is not JSON), \<open>Inr (Some e)\<close>
  when the event \<open>e\<close> is to be put into the queue, \<open>Inl\<close> when an exception leaves the inner loop.
\<close>

definition on_message :: "MispZmqListener \<Rightarrow> int \<Rightarrow> string \<Rightarrow> pyval option result" where
  "on_message l now message =
     (case str_partition (CHR '' '') message of (topic, _, payload) \<Rightarrow>
        if topic \<noteq> ''misp_json'' then Inr None
        else case json_loads payload of
          Inl e \<Rightarrow> if e = JSONDecodeError then Inr None else Inl e
        | Inr event_data \<Rightarrow>
            rbind (is_relevant l event_data) (\<lambda>rel.
              if rel then rbind (py_setitem event_data ''_t_received'' (VInt now)) (\<lambda>e. Inr (Some e))
              else Inr None))"




section \<open>The STIX extractor\<close>

text \<open>
  \<open>misp_to_stix\<close>: the serialised package, or \<open>None\<close> when the parser raises or returns none, and
  the event as the parser leaves it (it may change the dictionary in place). \<open>stix2_parse\<close>: the
  parsed bundle, or \<open>None\<close> when it raises.
\<close>

record stix_libs =
  libs_available :: bool
  misp_to_stix :: "pyval \<Rightarrow> string option \<times> pyval"
  stix2_parse :: "string \<Rightarrow> pyval option"

text \<open>\<open>tag.get("name", "").lower()\<close>.\<close>

definition lower_tag_name :: "pyval \<Rightarrow> string result" where
  "lower_tag_name tag =
     rbind (py_get tag ''name'' (VStr [])) (\<lambda>n.
       case n of VStr s \<Rightarrow> Inr (str_lower s) | _ \<Rightarrow> Inl AttributeError)"

text \<open>One turn of the loop over the tags.\<close>

definition tlp_step :: "string \<Rightarrow> TlpMarking \<Rightarrow> TlpMarking" where
  "tlp_step tag_name tlp =
     (if tag_name = ''tlp:clear'' \<or> tag_name = ''tlp:white'' then GREEN
      else if tag_name = ''tlp:green'' then GREEN
      else if tag_name = ''tlp:amber'' then AMBER
      else if tag_name = ''tlp:amber+strict'' then AMBER_STRICT
      else tlp)"

definition tlp_of_tags :: "pyval list \<Rightarrow> TlpMarking result" where
  "tlp_of_tags tags =
     rfold (\<lambda>tag tlp. rbind (lower_tag_name tag) (\<lambda>n. Inr (tlp_step n tlp))) tags AMBER"

definition event_uuid :: "pyval \<Rightarrow> pyval result" where
  "event_uuid misp_event =
     rbind (py_get misp_event ''Event'' (VDict [])) (\<lambda>e. py_get e ''uuid'' (VStr []))"

text \<open>The body of the \<open>try\<close>.\<close>

definition convert_event ::
    "stix_libs \<Rightarrow> pyval \<Rightarrow> (StixBundle option \<times> pyval) result" where
  "convert_event libs misp_event =
     rbind (event_uuid misp_event) (\<lambda>uuid.
     rbind (rbind (py_get misp_event ''Event'' (VDict [])) (\<lambda>e. py_get e ''Tag'' (VList []))) (\<lambda>tags.
     rbind (rbind (py_iter tags) tlp_of_tags) (\<lambda>tlp.
       case misp_to_stix libs misp_event of
         (None, ev) \<Rightarrow> Inr (None, ev)
       | (Some stix_bundle_str, ev) \<Rightarrow>
           (case stix2_parse libs stix_bundle_str of
              None \<Rightarrow> Inl STIXError
            | Some parsed_bundle \<Rightarrow>
                rbind (py_get parsed_bundle ''id'' (VStr ''bundle--unknown'')) (\<lambda>bid.
                rbind (encode_utf8 stix_bundle_str) (\<lambda>raw.
                  Inr (Some \<lparr>bundle_id = bid, raw_json = raw, sb_tlp_marking = tlp,
                             misp_event_uuid = uuid\<rparr>, ev)))))))"

definition convert_and_validate ::
    "stix_libs \<Rightarrow> pyval \<Rightarrow> (StixBundle option \<times> pyval) result" where
  "convert_and_validate libs misp_event =
     (if \<not> libs_available libs then Inr (None, misp_event)
      else rbind (event_uuid misp_event) (\<lambda>uuid.
        if \<not> truthy uuid then Inr (None, misp_event)
        else case convert_event libs misp_event of
          Inl _ \<Rightarrow> Inr (None, misp_event)
        | Inr r \<Rightarrow> Inr r))"

text \<open>
  One turn of the worker: the transaction to be put into the next queue, none when the event is
  rejected, an exception when the turn ends in the last handler. The fresh UUID, the creation
  time and the clock are arguments.
\<close>

record fresh =
  fr_uuid :: string
  fr_created :: string
  fr_created_ms :: int
  fr_now :: int

definition extractor_turn :: "stix_libs \<Rightarrow> fresh \<Rightarrow> pyval \<Rightarrow> GatewayATransaction option result" where
  "extractor_turn libs fr misp_event =
     rbind (convert_and_validate libs misp_event) (\<lambda>(b, ev).
       case b of
         None \<Rightarrow> Inr None
       | Some stix \<Rightarrow>
           rbind (py_get ev ''_t_received'' (VInt (fr_now fr))) (\<lambda>t.
             Inr (Some (new_transaction (fr_uuid fr) (fr_created fr) (fr_created_ms fr) stix VALIDATED
               [(''t_received'', t), (''t_extracted'', VInt (fr_now fr))]))))"

section \<open>Lemmas\<close>

text \<open>What a tag name says about the marking, if anything.\<close>

definition tlp_of_name :: "string \<Rightarrow> TlpMarking option" where
  "tlp_of_name n =
     (if n \<in> {''tlp:clear'', ''tlp:white'', ''tlp:green''} then Some GREEN
      else if n = ''tlp:amber'' then Some AMBER
      else if n = ''tlp:amber+strict'' then Some AMBER_STRICT else None)"

lemma tlp_step_name: "tlp_step n t = (case tlp_of_name n of None \<Rightarrow> t | Some u \<Rightarrow> u)"
  by (simp add: tlp_step_def tlp_of_name_def)

lemma tlp_fold:
  "rmap lower_tag_name tags = Inr names \<Longrightarrow>
     rfold (\<lambda>tag tlp. rbind (lower_tag_name tag) (\<lambda>n. Inr (tlp_step n tlp))) tags t
       = Inr (last (t # List.map_filter tlp_of_name names))"
proof (induction tags arbitrary: t names)
  case Nil
  then show ?case by (simp add: map_filter_simps)
next
  case (Cons tag tags)
  then obtain n ns where n: "lower_tag_name tag = Inr n" "rmap lower_tag_name tags = Inr ns" "names = n # ns"
    by auto
  show ?case
    using Cons.IH [OF n(2)] by (simp add: n tlp_step_name map_filter_simps split: option.split)
qed


lemma str_partition_cases:
  "str_partition c m = (h, sep, t) \<Longrightarrow> (sep = [c] \<and> m = h @ c # t) \<or> (sep = [] \<and> m = h \<and> t = [])"
  by (induction m arbitrary: h sep t) (auto split: if_splits prod.splits)

lemma py_get_Inr:
  "py_get v k dflt = Inr x \<longleftrightarrow>
     (\<exists>d. v = VDict d \<and> (map_of d k = Some x \<or> map_of d k = None \<and> x = dflt))"
  by (cases v) (auto split: option.splits)

lemma rmap_mem: "rmap f xs = Inr ys \<Longrightarrow> y \<in> set ys \<Longrightarrow> \<exists>x \<in> set xs. f x = Inr y"
  by (induction xs arbitrary: ys) auto

lemma is_relevant_tag:
  assumes "is_relevant l v = Inr True" "tags_filter l \<noteq> []"
  shows "\<exists>d ev tags name t ts. v = VDict d \<and> map_of d ''Event'' = Some (VDict ev)
    \<and> map_of ev ''Tag'' = Some tags \<and> name \<in> set (tags_filter l) \<and> py_iter tags = Inr ts
    \<and> VDict t \<in> set ts \<and> map_of t ''name'' = Some (VStr name)"
proof -
  from assms obtain event tags ts names name where
      e: "py_get v ''Event'' (VDict []) = Inr event" "truthy event"
    and t: "py_get event ''Tag'' (VList []) = Inr tags" "py_iter tags = Inr ts"
    and n: "rmap tag_name_of ts = Inr names" "name \<in> set (tags_filter l)" "VStr name \<in> set names"
    by (auto simp: is_relevant_def list_ex_iff split: if_splits)
  from rmap_mem [OF n(1,3)] obtain tag where tag: "tag \<in> set ts" "tag_name_of tag = Inr (VStr name)"
    by blast
  then obtain td where td: "tag = VDict td" "map_of td ''name'' = Some (VStr name)"
    by (auto simp: tag_name_of_def py_get_Inr split: if_splits)
  from e obtain d where d: "v = VDict d" "map_of d ''Event'' = Some event"
    by (auto simp: py_get_Inr)
  from t tag obtain ev where ev: "event = VDict ev" "map_of ev ''Tag'' = Some tags"
    by (auto simp: py_get_Inr)
  from d ev n(2) t(2) tag td show ?thesis by blast
qed

section \<open>Properties\<close>















text \<open>
  An event that the listener accepts under a non-empty filter was published on the topic
  \<open>misp_json\<close>, is a JSON object, and carries one of the tags of the filter.
\<close>

theorem accepted_event_has_tag:
  assumes "on_message l now m = Inr (Some e)" and "tags_filter l \<noteq> []"
  shows "\<exists>payload d ev tags name t. m = ''misp_json '' @ payload \<and> json_loads payload = Inr (VDict d)
    \<and> map_of d ''Event'' = Some (VDict ev) \<and> map_of ev ''Tag'' = Some tags
    \<and> name \<in> set (tags_filter l)
    \<and> (\<exists>ts. py_iter tags = Inr ts \<and> VDict t \<in> set ts \<and> map_of t ''name'' = Some (VStr name))
    \<and> e = VDict (AList.update ''_t_received'' (VInt now) d)"
proof -
  obtain topic sep payload where p: "str_partition (CHR '' '') m = (topic, sep, payload)"
    by (metis prod_cases3)
  from assms(1) p obtain v where v: "topic = ''misp_json''" "json_loads payload = Inr v"
      "is_relevant l v = Inr True" "py_setitem v ''_t_received'' (VInt now) = Inr e"
    by (auto simp: on_message_def split: if_splits sum.splits)
  have "payload \<noteq> []" using v(2) json_loads_empty by auto
  with str_partition_cases [OF p] v(1) have m: "m = ''misp_json '' @ payload" by auto
  from is_relevant_tag [OF v(3) assms(2)] obtain d ev tags name t ts where
    "v = VDict d" "map_of d ''Event'' = Some (VDict ev)" "map_of ev ''Tag'' = Some tags"
    "name \<in> set (tags_filter l)" "py_iter tags = Inr ts" "VDict t \<in> set ts"
    "map_of t ''name'' = Some (VStr name)" by blast
  with m v show ?thesis by auto
qed

definition tagged :: "string \<Rightarrow> pyval" where
  "tagged n = VDict [(''name'', VStr n)]"

text \<open>
  What leaves the extractor is a validated transaction: from RAW to NIA, not yet signed,
  with a non-empty event identifier, whose octets are those of a package that the STIX library
  accepted, and whose marking is the one derived from the event's tags.
\<close>

theorem extracted_is_validated:
  assumes "extractor_turn libs fr ev = Inr (Some t)"
  shows "\<exists>b str ev' v tags ts tlp. tx_state t = VALIDATED \<and> tx_bundle t = Some b \<and> tx_compressed t = None
    \<and> tx_signature t = [] \<and> tx_retry_count t = 0 \<and> tx_recipient t = ''NIA'' \<and> tx_sender t = ''RAW''
    \<and> event_uuid ev = Inr (misp_event_uuid b) \<and> truthy (misp_event_uuid b)
    \<and> misp_to_stix libs ev = (Some str, ev') \<and> stix2_parse libs str = Some v
    \<and> encode_utf8 str = Inr (raw_json b)
    \<and> rbind (py_get ev ''Event'' (VDict [])) (\<lambda>e. py_get e ''Tag'' (VList [])) = Inr tags
    \<and> py_iter tags = Inr ts \<and> tlp_of_tags ts = Inr tlp \<and> sb_tlp_marking b = tlp"
proof -
  from assms obtain b ev' r where c: "convert_and_validate libs ev = Inr (Some b, ev')"
    and t: "t = new_transaction (fr_uuid fr) (fr_created fr) (fr_created_ms fr) b VALIDATED
      [(''t_received'', r), (''t_extracted'', VInt (fr_now fr))]"
    by (auto simp: extractor_turn_def split: option.splits)
  from c obtain u where u: "event_uuid ev = Inr u" "truthy u" "convert_event libs ev = Inr (Some b, ev')"
    by (auto simp: convert_and_validate_def split: if_splits sum.splits)
  obtain p ev2 where m: "misp_to_stix libs ev = (p, ev2)" by force
  with u(3) have "p \<noteq> None" by (cases p) (auto simp: convert_event_def)
  then obtain str where p: "p = Some str" by blast
  from u(3) m p have "stix2_parse libs str \<noteq> None"
    by (cases "stix2_parse libs str") (auto simp: convert_event_def)
  then obtain v where v: "stix2_parse libs str = Some v" by blast
  from u(3) u(1) m p v obtain tags ts tlp where
    "rbind (py_get ev ''Event'' (VDict [])) (\<lambda>e. py_get e ''Tag'' (VList [])) = Inr tags"
    "py_iter tags = Inr ts" "tlp_of_tags ts = Inr tlp" "ev2 = ev'"
    "encode_utf8 str = Inr (raw_json b)" "sb_tlp_marking b = tlp" "misp_event_uuid b = u"
    by (auto simp: convert_event_def)
  with t u m p v show ?thesis by (auto simp: new_transaction_def)
qed

text \<open>The names of an event's tags as the extractor compares them, in lower case.\<close>

definition event_tag_names :: "pyval \<Rightarrow> string list result" where
  "event_tag_names ev =
     rbind (rbind (rbind (py_get ev ''Event'' (VDict [])) (\<lambda>e. py_get e ''Tag'' (VList []))) py_iter)
       (rmap lower_tag_name)"

lemma tlp_of_tags_names: "tlp_of_tags ts = Inr tlp \<Longrightarrow> \<exists>names. rmap lower_tag_name ts = Inr names"
proof -
  have "rfold (\<lambda>tag tlp. rbind (lower_tag_name tag) (\<lambda>n. Inr (tlp_step n tlp))) ts t = Inr tlp
      \<Longrightarrow> \<exists>names. rmap lower_tag_name ts = Inr names" for t
    by (induction ts arbitrary: t) auto
  then show "tlp_of_tags ts = Inr tlp \<Longrightarrow> ?thesis" by (auto simp: tlp_of_tags_def)
qed

lemma extracted_marking:
  assumes "extractor_turn libs fr ev = Inr (Some t)"
  shows "\<exists>b names. tx_bundle t = Some b \<and> event_tag_names ev = Inr names \<and> tx_recipient t = ''NIA''
    \<and> sb_tlp_marking b = last (AMBER # List.map_filter tlp_of_name names)"
proof -
  from extracted_is_validated [OF assms] obtain b tags ts tlp where
    b: "tx_bundle t = Some b" "tx_recipient t = ''NIA''" "sb_tlp_marking b = tlp"
    and t: "rbind (py_get ev ''Event'' (VDict [])) (\<lambda>e. py_get e ''Tag'' (VList [])) = Inr tags" "py_iter tags = Inr ts"
      "tlp_of_tags ts = Inr tlp" by blast
  from tlp_of_tags_names [OF t(3)] obtain names where n: "rmap lower_tag_name ts = Inr names" by blast
  with t tlp_fold [OF n, of AMBER] b show ?thesis by (auto simp: event_tag_names_def tlp_of_tags_def)
qed

text \<open>
  C29: the marking that a transaction carries is that of the last tag of its event that names a
  marking, compared without regard to case, and \<open>tlp:amber\<close> when no tag does; \<open>tlp:clear\<close> and
  \<open>tlp:white\<close> count as green. Tags of any other name, \<open>tlp:red\<close> among them, do not count.
\<close>

theorem marking_is_last_tag:
  assumes "extractor_turn libs fr ev = Inr (Some t)" and "event_tag_names ev = Inr names"
  shows "\<exists>b. tx_bundle t = Some b
    \<and> sb_tlp_marking b =
        (case List.find (\<lambda>n. n \<in> {''tlp:clear'', ''tlp:white'', ''tlp:green'', ''tlp:amber'', ''tlp:amber+strict''}) (rev names) of
           None \<Rightarrow> AMBER
         | Some n \<Rightarrow> if n = ''tlp:amber+strict'' then AMBER_STRICT else if n = ''tlp:amber'' then AMBER else GREEN)"
proof -
  let ?P = "\<lambda>n. n \<in> {''tlp:clear'', ''tlp:white'', ''tlp:green'', ''tlp:amber'', ''tlp:amber+strict''}"
  let ?m = "\<lambda>n. if n = ''tlp:amber+strict'' then AMBER_STRICT else if n = ''tlp:amber'' then AMBER else GREEN"
  have "last (AMBER # List.map_filter tlp_of_name ns) = (case List.find ?P (rev ns) of None \<Rightarrow> AMBER | Some n \<Rightarrow> ?m n)" for ns
  proof (induction ns rule: rev_induct)
    case (snoc n ns)
    have a: "List.map_filter tlp_of_name (ns @ [n]) = List.map_filter tlp_of_name ns @ List.map_filter tlp_of_name [n]"
      by (simp add: map_filter_def)
    show ?case
    proof (cases "?P n")
      case True
      then have "tlp_of_name n = Some (?m n)" by (auto simp: tlp_of_name_def)
      with True show ?thesis unfolding a by (simp add: map_filter_simps)
    next
      case False
      then have "tlp_of_name n = None" by (auto simp: tlp_of_name_def)
      with False snoc show ?thesis unfolding a by (simp add: map_filter_simps)
    qed
  qed (simp add: map_filter_simps)
  with extracted_marking [OF assms(1)] assms(2) show ?thesis by auto
qed

definition demo_listener :: MispZmqListener where
  "demo_listener = \<lparr>ml_endpoint = ''e'', tags_filter = [''share:NIA'']\<rparr>"

definition demo_event :: pyval where
  "demo_event = VDict [(''Event'', VDict [(''uuid'', VStr ''u-1''),
     (''Tag'', VList [tagged ''share:NIA'', tagged ''tlp:green''])])]"

lemma demo_event_ok: "json_ok demo_event"
  by (simp add: demo_event_def tagged_def ascii_valid ascii_def)

theorem accepted_event_has_tag_witness:
  "\<exists>e name. on_message demo_listener 5 (''misp_json '' @ json_dumps demo_event) = Inr (Some e)
    \<and> name \<in> set (tags_filter demo_listener)"
proof -
  let ?m = "''misp_json '' @ json_dumps demo_event"
  have p: "str_partition (CHR '' '') ?m = (''misp_json'', '' '', json_dumps demo_event)" by simp
  have r: "is_relevant demo_listener demo_event = Inr True"
    by (simp add: is_relevant_def demo_listener_def demo_event_def tag_name_of_def tagged_def)
  have "\<exists>e. on_message demo_listener 5 ?m = Inr (Some e)"
    unfolding on_message_def p prod.case json_loads_dumps [OF demo_event_ok]
    by (simp add: r) (simp add: demo_event_def)
  then obtain e where e: "on_message demo_listener 5 ?m = Inr (Some e)" ..
  from accepted_event_has_tag [OF e] e show ?thesis by (auto simp: demo_listener_def)
qed

definition demo_stix_libs :: stix_libs where
  "demo_stix_libs = \<lparr>libs_available = True, misp_to_stix = (\<lambda>e. (Some ''{}'', e)),
     stix2_parse = (\<lambda>_. Some (VDict []))\<rparr>"

definition demo_fresh :: fresh where
  "demo_fresh = \<lparr>fr_uuid = ''tx-1'', fr_created = ''2026-01-01T00:00:00'', fr_created_ms = 1767225600000,
     fr_now = 9\<rparr>"

theorem extracted_is_validated_witness:
  "\<exists>t. extractor_turn demo_stix_libs demo_fresh demo_event = Inr (Some t) \<and> tx_state t = VALIDATED"
proof -
  have "valid_text ''{}''" by (simp add: ascii_valid ascii_def)
  then have "\<exists>t. extractor_turn demo_stix_libs demo_fresh demo_event = Inr (Some t)"
    by (simp add: extractor_turn_def convert_and_validate_def convert_event_def event_uuid_def
        demo_event_def demo_stix_libs_def tlp_of_tags_def lower_tag_name_def tagged_def encode_utf8_def)
  then obtain t where t: "extractor_turn demo_stix_libs demo_fresh demo_event = Inr (Some t)" ..
  from extracted_is_validated [OF t] t show ?thesis by blast
qed

lemma lower_lits:
  "str_lower ''tlp:amber+strict'' = ''tlp:amber+strict''" "str_lower ''tlp:green'' = ''tlp:green''"
  "str_lower ''tlp:red'' = ''tlp:red''" "str_lower ''TLP:GREEN'' = ''tlp:green''"
  by (simp_all add: str_lower_def lower_char_def less_eq_char_def char_of_eq_iff)

definition demo_strict_event :: pyval where
  "demo_strict_event = VDict [(''Event'', VDict [(''uuid'', VStr ''u-1''),
     (''Tag'', VList [tagged ''tlp:amber+strict'', tagged ''TLP:GREEN'', tagged ''tlp:red''])])]"

lemma demo_strict:
  "event_tag_names demo_strict_event = Inr [''tlp:amber+strict'', ''tlp:green'', ''tlp:red'']"
  "\<exists>t. extractor_turn demo_stix_libs demo_fresh demo_strict_event = Inr (Some t)"
proof -
  show "event_tag_names demo_strict_event = Inr [''tlp:amber+strict'', ''tlp:green'', ''tlp:red'']"
    by (simp add: event_tag_names_def demo_strict_event_def lower_tag_name_def tagged_def lower_lits)
  have "valid_text ''{}''" by (simp add: ascii_valid ascii_def)
  then show "\<exists>t. extractor_turn demo_stix_libs demo_fresh demo_strict_event = Inr (Some t)"
    by (simp add: extractor_turn_def convert_and_validate_def convert_event_def event_uuid_def
        demo_strict_event_def demo_stix_libs_def tlp_of_tags_def lower_tag_name_def tagged_def encode_utf8_def)
qed

theorem marking_is_last_tag_witness:
  "\<exists>t b. extractor_turn demo_stix_libs demo_fresh demo_strict_event = Inr (Some t)
    \<and> tx_bundle t = Some b \<and> sb_tlp_marking b = GREEN"
proof -
  from demo_strict(2) obtain t where t: "extractor_turn demo_stix_libs demo_fresh demo_strict_event = Inr (Some t)" ..
  from marking_is_last_tag [OF t demo_strict(1)] t show ?thesis by auto
qed

end
