(* ===== verification/Qstie_Trust.thy ===== *)
theory Qstie_Trust
  imports Qstie_Common Py_Yaml
begin

text \<open>
  The trust and key management infrastructure, \<open>packages/qstie-trust\<close>: the records
  (\<open>models.py\<close>), certificate and key fingerprints (\<open>fingerprint.py\<close>), key generation
  (\<open>ca/signing_keygen.py\<close>), the certificate authority (\<open>ca/root_ca.py\<close>), the revocation list
  (\<open>ca/revocation.py\<close>), the trust bundle (\<open>export.py\<close>) and the commands of the \<open>qstie-ca\<close> tool
  (\<open>cli.py\<close>), which act on the file system.

  The package \<open>cryptography\<close> is a parameter, the record \<open>crypto_lib\<close>: key generation from fresh
  randomness, the X.509 builder's \<open>sign\<close>, the PEM and DER encodings, signing and verifying of
  a digest with an elliptic curve key and with an ML-DSA key. The laws that the properties use
  are \<open>pem_laws\<close>, \<open>builder_law\<close>, \<open>builder_accepts\<close>, \<open>keygen_law\<close> and \<open>signature_law\<close>; the last part gives a
  concrete library with all of them, for the witnesses.
\<close>

section \<open>The cryptography package\<close>

datatype key_type = EcKey | MlDsaKey

record private_key =
  sk_type :: key_type
  sk_bits :: bytes

record public_key =
  vk_type :: key_type
  vk_bits :: bytes

datatype name_attr = COMMON_NAME string | ORGANIZATION_NAME string

datatype hash_alg = SHA256

record key_usage =
  digital_signature :: bool
  key_cert_sign :: bool
  crl_sign :: bool

text \<open>What the builder is given; times are seconds.\<close>

record tbs_cert =
  subject :: "name_attr list"
  issuer :: "name_attr list"
  cert_public_key :: public_key
  serial_number :: int
  not_valid_before :: int
  not_valid_after :: int
  basic_constraints_ca :: bool
  key_usage_ext :: "key_usage option"
  subject_alt_name :: "string option"

text \<open>
  \<open>signed_with\<close> records which key and which digest the builder signed with; the sources never verify
  the signature of a certificate themselves.
\<close>

record certificate =
  tbs :: tbs_cert
  signed_with :: "public_key \<times> hash_alg option"
  cert_sig :: bytes

record crypto_lib =
  gen_ec :: "nat \<Rightarrow> private_key"
  gen_mldsa :: "nat \<Rightarrow> private_key"
  pub_of :: "private_key \<Rightarrow> public_key"
  builder_sign :: "private_key \<Rightarrow> hash_alg option \<Rightarrow> tbs_cert \<Rightarrow> certificate result"
  pem_private :: "private_key \<Rightarrow> string"
  pem_public :: "public_key \<Rightarrow> string"
  pem_cert :: "certificate \<Rightarrow> string"
  load_pem_private :: "string \<Rightarrow> private_key option"
  load_pem_public :: "string \<Rightarrow> public_key option"
  load_pem_cert :: "string \<Rightarrow> certificate option"
  cert_der :: "certificate \<Rightarrow> bytes"
  spki_der :: "public_key \<Rightarrow> bytes"
  ec_sign_prehashed :: "private_key \<Rightarrow> bytes \<Rightarrow> bytes result"
  mldsa_sign :: "private_key \<Rightarrow> bytes \<Rightarrow> bytes result"
  ec_verify_prehashed :: "public_key \<Rightarrow> bytes \<Rightarrow> bytes \<Rightarrow> bool"
  mldsa_verify :: "public_key \<Rightarrow> bytes \<Rightarrow> bytes \<Rightarrow> bool"

definition pem_laws :: "crypto_lib \<Rightarrow> bool" where
  "pem_laws L = ((\<forall>k. load_pem_private L (pem_private L k) = Some k)
     \<and> (\<forall>k. load_pem_public L (pem_public L k) = Some k)
     \<and> (\<forall>c. load_pem_cert L (pem_cert L c) = Some c))"

text \<open>A certificate the builder signed carries what it was given.\<close>

definition builder_law :: "crypto_lib \<Rightarrow> bool" where
  "builder_law L = (\<forall>k alg t c. builder_sign L k alg t = Inr c \<longrightarrow>
     tbs c = t \<and> signed_with c = (pub_of L k, alg))"

text \<open>
  What the builder accepts: a digest exactly for elliptic curve keys, a positive serial number of
  at most 159 bits, dates of the calendar in order, a common name of 1 to 64 characters, an
  organisation that is not empty, a DNS name in ASCII.
\<close>

fun attr_ok :: "name_attr \<Rightarrow> bool" where
  "attr_ok (COMMON_NAME s) = (s \<noteq> [] \<and> length s \<le> 64)"
| "attr_ok (ORGANIZATION_NAME s) = (s \<noteq> [])"

definition tbs_ok :: "tbs_cert \<Rightarrow> bool" where
  "tbs_ok t = (0 < serial_number t \<and> serial_number t < 2 ^ 159
     \<and> 0 \<le> not_valid_before t \<and> not_valid_before t \<le> not_valid_after t \<and> not_valid_after t < 253402300800
     \<and> list_all attr_ok (subject t)
     \<and> (case subject_alt_name t of None \<Rightarrow> True | Some n \<Rightarrow> ascii n))"

definition builder_accepts :: "crypto_lib \<Rightarrow> bool" where
  "builder_accepts L = (\<forall>k alg t. (alg = None \<longleftrightarrow> sk_type k \<noteq> EcKey) \<longrightarrow> tbs_ok t \<longrightarrow>
     (\<exists>c. builder_sign L k alg t = Inr c))"

definition keygen_law :: "crypto_lib \<Rightarrow> bool" where
  "keygen_law L = (\<forall>s. sk_type (gen_ec L s) = EcKey \<and> sk_type (gen_mldsa L s) = MlDsaKey)"

text \<open>
  A public key is of the type of its private key, and each scheme verifies the signatures made
  with the private key.
\<close>

definition signature_law :: "crypto_lib \<Rightarrow> bool" where
  "signature_law L = (\<forall>k d s.
     vk_type (pub_of L k) = sk_type k
     \<and> (ec_sign_prehashed L k d = Inr s \<longrightarrow> ec_verify_prehashed L (pub_of L k) s d)
     \<and> (mldsa_sign L k d = Inr s \<longrightarrow> mldsa_verify L (pub_of L k) s d))"

section \<open>Models\<close>

record TrustBundleEntry =
  agency_id :: string
  payload_signing_public_key_path :: string
  payload_signing_public_key_fingerprint :: string
  tls_certificate_fingerprint :: string
  issue_timestamp :: string
  expiry_timestamp :: string

text \<open>The fields of an entry read back from a file have whatever type the file gives them.\<close>

record RevocationEntry =
  rev_fingerprint :: pyval
  rev_key_type :: pyval
  rev_agency_id :: pyval
  rev_reason :: pyval
  rev_revoked_at :: pyval

record CertMetadata =
  cm_agency_id :: string
  cm_subject :: string
  cm_issuer :: string
  cm_san :: "string option"
  cm_serial_number :: string
  cm_algorithm :: string
  cm_valid_from :: string
  cm_valid_until :: string
  cm_fingerprint :: string
  cm_key_type :: string

section \<open>Fingerprints and keys\<close>

definition get_cert_fingerprint :: "crypto_lib \<Rightarrow> certificate \<Rightarrow> string result" where
  "get_cert_fingerprint L cert = calculate_fingerprint (ArgBytes (cert_der L cert))"

definition get_pubkey_fingerprint :: "crypto_lib \<Rightarrow> public_key \<Rightarrow> string result" where
  "get_pubkey_fingerprint L pubkey = calculate_fingerprint (ArgBytes (spki_der L pubkey))"

definition generate_ml_dsa_keypair :: "crypto_lib \<Rightarrow> nat \<Rightarrow> private_key \<times> public_key" where
  "generate_ml_dsa_keypair L seed = (let k = gen_mldsa L seed in (k, pub_of L k))"

definition generate_ecdsa_keypair :: "crypto_lib \<Rightarrow> nat \<Rightarrow> private_key \<times> public_key" where
  "generate_ecdsa_keypair L seed = (let k = gen_ec L seed in (k, pub_of L k))"

section \<open>The certificate authority\<close>

record CertificateAuthority =
  ca_cert :: certificate
  ca_private_key :: private_key

text \<open>What a call draws from its environment: randomness, a serial number, the time.\<close>

record entropy =
  seed :: nat
  serial :: int
  now :: int

definition days :: "int \<Rightarrow> int" where
  "days n = 86400 * n"

definition init_root ::
    "crypto_lib \<Rightarrow> entropy \<Rightarrow> int \<Rightarrow> string \<Rightarrow> CertificateAuthority result" where
  "init_root L r validity_days key_type =
     (let (private_key, alg) =
            (if key_type = ''ecdsa'' then (gen_ec L (seed r), Some SHA256)
             else (gen_mldsa L (seed r), None));
          public_key = pub_of L private_key;
          name = [COMMON_NAME (''QS-TIE Root CA ('' @ key_type @ '')'')];
          t = \<lparr>subject = name, issuer = name, cert_public_key = public_key,
               serial_number = serial r, not_valid_before = now r,
               not_valid_after = now r + days validity_days, basic_constraints_ca = True,
               key_usage_ext = Some \<lparr>digital_signature = True, key_cert_sign = True, crl_sign = True\<rparr>,
               subject_alt_name = None\<rparr>
      in rbind (builder_sign L private_key alg t)
           (\<lambda>cert. Inr \<lparr>ca_cert = cert, ca_private_key = private_key\<rparr>))"

definition issue_leaf_cert ::
    "crypto_lib \<Rightarrow> entropy \<Rightarrow> CertificateAuthority \<Rightarrow> string \<Rightarrow> string \<Rightarrow> int \<Rightarrow> string
       \<Rightarrow> (certificate \<times> private_key) result" where
  "issue_leaf_cert L r ca agency san validity_days key_type =
     (let private_key = (if key_type = ''ecdsa'' then gen_ec L (seed r) else gen_mldsa L (seed r));
          public_key = pub_of L private_key;
          name = [COMMON_NAME (''QS-TIE Gateway '' @ agency @ '' ('' @ key_type @ '')''),
                  ORGANIZATION_NAME agency];
          t = \<lparr>subject = name, issuer = subject (tbs (ca_cert ca)), cert_public_key = public_key,
               serial_number = serial r, not_valid_before = now r,
               not_valid_after = now r + days validity_days, basic_constraints_ca = False,
               key_usage_ext = None,
               subject_alt_name = (if san \<noteq> [] then Some san else None)\<rparr>;
          alg = (if sk_type (ca_private_key ca) = EcKey then Some SHA256 else None)
      in rbind (builder_sign L (ca_private_key ca) alg t) (\<lambda>cert. Inr (cert, private_key)))"

section \<open>The revocation list\<close>

record RevocationList =
  rl_entries :: "RevocationEntry list"

definition rl_add :: "RevocationEntry \<Rightarrow> RevocationList \<Rightarrow> RevocationList" where
  "rl_add e rl = rl\<lparr>rl_entries := rl_entries rl @ [e]\<rparr>"

definition rev_val :: "RevocationEntry \<Rightarrow> pyval" where
  "rev_val e = VDict
     [(''fingerprint'', rev_fingerprint e), (''key_type'', rev_key_type e),
      (''agency_id'', rev_agency_id e), (''reason'', rev_reason e),
      (''revoked_at'', rev_revoked_at e)]"

definition rl_save :: "yaml_lib \<Rightarrow> string \<Rightarrow> RevocationList \<Rightarrow> fsys \<Rightarrow> fsys" where
  "rl_save y filepath rl fs =
     (let data = VDict [(''revoked'', VList (map rev_val (rl_entries rl)))]
      in write_file filepath (yaml_dump y data) fs)"

text \<open>\<open>RevocationEntry(**item)\<close>: a mapping with exactly the five fields.\<close>

definition rev_of :: "pyval \<Rightarrow> RevocationEntry result" where
  "rev_of item =
     (case item of
        VDict d \<Rightarrow>
          (case map (map_of d) [''fingerprint'', ''key_type'', ''agency_id'', ''reason'', ''revoked_at''] of
             [Some f, Some k, Some a, Some r, Some t] \<Rightarrow>
               if set (map fst d) \<subseteq> set [''fingerprint'', ''key_type'', ''agency_id'', ''reason'', ''revoked_at'']
               then Inr \<lparr>rev_fingerprint = f, rev_key_type = k, rev_agency_id = a, rev_reason = r,
                         rev_revoked_at = t\<rparr>
               else Inl TypeError
           | _ \<Rightarrow> Inl TypeError)
      | _ \<Rightarrow> Inl TypeError)"

definition rl_load :: "yaml_lib \<Rightarrow> string \<Rightarrow> fsys \<Rightarrow> RevocationList result" where
  "rl_load y filepath fs =
     (if \<not> path_exists filepath fs then Inr \<lparr>rl_entries = []\<rparr>
      else rbind (rbind (read_file filepath fs) (load_yaml y)) (\<lambda>data.
        if \<not> truthy data then Inr \<lparr>rl_entries = []\<rparr>
        else rbind (py_in ''revoked'' data) (\<lambda>has.
          if \<not> has then Inr \<lparr>rl_entries = []\<rparr>
          else rbind (py_getitem data ''revoked'') (\<lambda>items.
               rbind (py_iter items) (\<lambda>its.
               rbind (rmap rev_of its) (\<lambda>es. Inr \<lparr>rl_entries = es\<rparr>))))))"

section \<open>The trust bundle\<close>

record TrustBundleExporter =
  tb_entries :: "TrustBundleEntry list"

definition tb_add :: "TrustBundleEntry \<Rightarrow> TrustBundleExporter \<Rightarrow> TrustBundleExporter" where
  "tb_add e tb = tb\<lparr>tb_entries := tb_entries tb @ [e]\<rparr>"

definition tb_val :: "TrustBundleEntry \<Rightarrow> pyval" where
  "tb_val e = VDict
     [(''agency_id'', VStr (agency_id e)),
      (''payload_signing_public_key_path'', VStr (payload_signing_public_key_path e)),
      (''payload_signing_public_key_fingerprint'', VStr (payload_signing_public_key_fingerprint e)),
      (''tls_certificate_fingerprint'', VStr (tls_certificate_fingerprint e)),
      (''issue_timestamp'', VStr (issue_timestamp e)),
      (''expiry_timestamp'', VStr (expiry_timestamp e))]"

definition tb_save :: "yaml_lib \<Rightarrow> string \<Rightarrow> TrustBundleExporter \<Rightarrow> fsys \<Rightarrow> fsys" where
  "tb_save y filepath tb fs =
     (let data = VDict [(''trusted_agencies'', VList (map tb_val (tb_entries tb)))]
      in write_file filepath (yaml_dump y data) fs)"

section \<open>The commands of \<open>qstie-ca\<close>\<close>

definition save_private_key :: "crypto_lib \<Rightarrow> private_key \<Rightarrow> string \<Rightarrow> fsys \<Rightarrow> fsys" where
  "save_private_key L key path fs =
     (let pem = pem_private L key in chmod path 0x180 (write_file path pem fs))"

definition save_public_key :: "crypto_lib \<Rightarrow> public_key \<Rightarrow> string \<Rightarrow> fsys \<Rightarrow> fsys" where
  "save_public_key L key path fs = (let pem = pem_public L key in write_file path pem fs)"

definition save_cert :: "crypto_lib \<Rightarrow> certificate \<Rightarrow> string \<Rightarrow> fsys \<Rightarrow> fsys" where
  "save_cert L cert path fs = (let pem = pem_cert L cert in write_file path pem fs)"

definition load_private_key :: "crypto_lib \<Rightarrow> string \<Rightarrow> fsys \<Rightarrow> private_key result" where
  "load_private_key L path fs =
     rbind (read_file path fs) (\<lambda>c. case load_pem_private L c of None \<Rightarrow> Inl ValueError | Some k \<Rightarrow> Inr k)"

definition load_cert :: "crypto_lib \<Rightarrow> string \<Rightarrow> fsys \<Rightarrow> certificate result" where
  "load_cert L path fs =
     rbind (read_file path fs) (\<lambda>c. case load_pem_cert L c of None \<Rightarrow> Inl ValueError | Some k \<Rightarrow> Inr k)"

definition load_public_key_file :: "crypto_lib \<Rightarrow> string \<Rightarrow> fsys \<Rightarrow> public_key result" where
  "load_public_key_file L path fs =
     rbind (read_file path fs) (\<lambda>c. case load_pem_public L c of None \<Rightarrow> Inl ValueError | Some k \<Rightarrow> Inr k)"

definition cmd_init_root ::
    "crypto_lib \<Rightarrow> entropy \<Rightarrow> string \<Rightarrow> int \<Rightarrow> string \<Rightarrow> fsys \<Rightarrow> fsys result" where
  "cmd_init_root L r out_dir validity_days key_type fs =
     rbind (init_root L r validity_days key_type) (\<lambda>ca.
       let cert_path = path_join out_dir ''root_ca.crt'';
           key_path = path_join out_dir ''root_ca.key''
       in Inr (save_private_key L (ca_private_key ca) key_path (save_cert L (ca_cert ca) cert_path fs)))"

definition cmd_issue_gateway_cert ::
    "crypto_lib \<Rightarrow> entropy \<Rightarrow> string \<Rightarrow> string \<Rightarrow> string \<Rightarrow> int \<Rightarrow> string \<Rightarrow> string \<Rightarrow> fsys
       \<Rightarrow> fsys result" where
  "cmd_issue_gateway_cert L r agency ca_dir san validity_days out_dir key_type fs =
     (let ca_cert_path = path_join ca_dir ''root_ca.crt'';
          ca_key_path = path_join ca_dir ''root_ca.key''
      in if \<not> path_exists ca_cert_path fs \<or> \<not> path_exists ca_key_path fs
         then Inl (SystemExit (''CA not found in '' @ ca_dir))
         else rbind (load_cert L ca_cert_path fs) (\<lambda>cc.
              rbind (load_private_key L ca_key_path fs) (\<lambda>ck.
              rbind (issue_leaf_cert L r \<lparr>ca_cert = cc, ca_private_key = ck\<rparr> agency san
                       validity_days key_type) (\<lambda>(cert, key).
                let agency_lower = str_lower agency;
                    sfx = (if key_type = ''ecdsa'' then ''_ecdsa'' else []);
                    cert_path = path_join out_dir (agency_lower @ ''_gateway'' @ sfx @ ''.crt'');
                    key_path = path_join out_dir (agency_lower @ ''_gateway'' @ sfx @ ''.key'')
                in Inr (save_private_key L key key_path (save_cert L cert cert_path fs))))))"

definition cmd_issue_signing_key ::
    "crypto_lib \<Rightarrow> entropy \<Rightarrow> string \<Rightarrow> string \<Rightarrow> string \<Rightarrow> fsys \<Rightarrow> fsys result" where
  "cmd_issue_signing_key L r agency out_dir key_type fs =
     (let (priv, pub) = (if key_type = ''ecdsa'' then generate_ecdsa_keypair L (seed r)
                         else generate_ml_dsa_keypair L (seed r));
          agency_lower = str_lower agency;
          sfx = (if key_type = ''ecdsa'' then ''ecdsa256'' else ''ml_dsa65'');
          priv_path = path_join out_dir (agency_lower @ ''_'' @ sfx @ ''.pem'');
          pub_path = path_join out_dir (agency_lower @ ''_'' @ sfx @ ''.pub'')
      in Inr (save_public_key L pub pub_path (save_private_key L priv priv_path fs)))"

text \<open>One turn of the loop of \<open>export-trust-bundle\<close>.\<close>

definition export_agency ::
    "crypto_lib \<Rightarrow> string \<Rightarrow> string \<Rightarrow> string \<Rightarrow> string \<Rightarrow> fsys \<Rightarrow> string
       \<Rightarrow> TrustBundleExporter \<Rightarrow> TrustBundleExporter result" where
  "export_agency L pki_root key_type now_str expiry_str fs agency exporter =
     (let agency_lower = str_lower agency;
          gateway_dir = path_join pki_root (''gateway_'' @ agency_lower);
          (cert_path, pub_path, pub_path_rel) =
            (if key_type = ''ecdsa'' then
               (path_join gateway_dir (agency_lower @ ''_gateway_ecdsa.crt''),
                path_join gateway_dir (agency_lower @ ''_ecdsa256.pub''),
                ''gateway_'' @ agency_lower @ ''/'' @ agency_lower @ ''_ecdsa256.pub'')
             else
               (path_join gateway_dir (agency_lower @ ''_gateway.crt''),
                path_join gateway_dir (agency_lower @ ''_ml_dsa65.pub''),
                ''gateway_'' @ agency_lower @ ''/'' @ agency_lower @ ''_ml_dsa65.pub''))
      in if \<not> path_exists cert_path fs \<or> \<not> path_exists pub_path fs
         then Inl (SystemExit (''Missing artifacts for '' @ agency @ '' in '' @ gateway_dir))
         else rbind (load_cert L cert_path fs) (\<lambda>cert.
              rbind (load_public_key_file L pub_path fs) (\<lambda>pub_key.
              rbind (get_cert_fingerprint L cert) (\<lambda>cert_fp.
              rbind (get_pubkey_fingerprint L pub_key) (\<lambda>pub_fp.
                Inr (tb_add
                  \<lparr>agency_id = agency, payload_signing_public_key_path = pub_path_rel,
                   payload_signing_public_key_fingerprint = pub_fp,
                   tls_certificate_fingerprint = cert_fp, issue_timestamp = now_str,
                   expiry_timestamp = expiry_str\<rparr> exporter))))))"

definition cmd_export_trust_bundle ::
    "crypto_lib \<Rightarrow> yaml_lib \<Rightarrow> string \<Rightarrow> string \<Rightarrow> string \<Rightarrow> string \<Rightarrow> string \<Rightarrow> string \<Rightarrow> fsys
       \<Rightarrow> fsys result" where
  "cmd_export_trust_bundle L y agencies pki_root out key_type now_str expiry_str fs =
     rbind (rfold (export_agency L pki_root key_type now_str expiry_str fs)
              (str_split (CHR '','') agencies) \<lparr>tb_entries = []\<rparr>)
       (\<lambda>exporter. Inr (tb_save y out exporter fs))"

definition cmd_revoke ::
    "yaml_lib \<Rightarrow> string \<Rightarrow> string \<Rightarrow> string \<Rightarrow> string \<Rightarrow> string \<Rightarrow> string \<Rightarrow> fsys \<Rightarrow> fsys result" where
  "cmd_revoke y agency key_type reason out fingerprint now_str fs =
     rbind (rl_load y out fs) (\<lambda>rl.
       let rl' = rl_add \<lparr>rev_fingerprint = VStr fingerprint, rev_key_type = VStr key_type,
                         rev_agency_id = VStr agency, rev_reason = VStr reason,
                         rev_revoked_at = VStr now_str\<rparr> rl
       in Inr (rl_save y out rl' fs))"

text \<open>\<open>main\<close> turns an exception of a command into an exit; \<open>sys.exit\<close> passes through.\<close>

definition cli_run :: "fsys result \<Rightarrow> fsys result" where
  "cli_run res =
     (case res of
        Inl (SystemExit m) \<Rightarrow> Inl (SystemExit m)
      | Inl _ \<Rightarrow> Inl (SystemExit ''Error'')
      | Inr fs \<Rightarrow> Inr fs)"

section \<open>Lemmas\<close>

lemma pem_lawsD:
  assumes "pem_laws L"
  shows "load_pem_private L (pem_private L k) = Some k"
    and "load_pem_public L (pem_public L pk) = Some pk"
    and "load_pem_cert L (pem_cert L c) = Some c"
  using assms by (auto simp: pem_laws_def)

lemma files_save [simp]:
  "files (save_private_key L k p fs) = (files fs)(p \<mapsto> pem_private L k)"
  "files (save_public_key L pk p fs) = (files fs)(p \<mapsto> pem_public L pk)"
  "files (save_cert L c p fs) = (files fs)(p \<mapsto> pem_cert L c)"
  by (simp_all add: save_private_key_def save_public_key_def save_cert_def Let_def)

lemma mode_save_private [simp]: "modes (save_private_key L k p fs) p = Some 0x180"
  by (simp add: save_private_key_def Let_def)

lemma mode_save_public_other: "modes fs q = Some m \<Longrightarrow> modes (save_public_key L pk p fs) q = Some m"
  by (simp add: save_public_key_def Let_def modes_write_existing)

text \<open>Joining a directory with names that differ only in how they end.\<close>

lemma path_join_common:
  obtains pre where "\<And>t. t \<noteq> [] \<Longrightarrow> hd t \<noteq> CHR ''/'' \<Longrightarrow> path_join a (x @ t) = pre @ t"
proof (cases "x = []")
  case True
  then have "\<And>t. t \<noteq> [] \<Longrightarrow> hd t \<noteq> CHR ''/'' \<Longrightarrow> path_join a (x @ t) = path_join a [] @ t"
    by (auto simp: path_join_def neq_Nil_conv)
  then show thesis by (rule that)
next
  case False
  then have "path_join a (x @ t) = path_join a x @ t" for t
    by (auto simp: path_join_def neq_Nil_conv)
  then show thesis using that by blast
qed

lemma path_join_inj:
  assumes "path_join a (x @ s) = path_join a (x @ t)"
    and "s \<noteq> []" "hd s \<noteq> CHR ''/''" "t \<noteq> []" "hd t \<noteq> CHR ''/''"
  shows "s = t"
  using assms path_join_common [of a x] by (metis same_append_eq)

lemma str_split_single: "c \<notin> set s \<Longrightarrow> str_split c s = [s]"
  by (induction s) auto

lemma calculate_fingerprint_Inr:
  "calculate_fingerprint (ArgBytes b) = Inr (hex_bytes (sha256 b))"
proof -
  have "str_lower (hex_bytes (sha256 b)) = hex_bytes (sha256 b)"
    by (rule str_lower_hex) (rule hex_bytes_lower)
  then show ?thesis by simp
qed

subsection \<open>Revocation lists\<close>

definition rev_plain :: "RevocationEntry \<Rightarrow> bool" where
  "rev_plain e = list_all (\<lambda>v. yaml_plain v \<and> sort_keys v = v)
     [rev_fingerprint e, rev_key_type e, rev_agency_id e, rev_reason e, rev_revoked_at e]"

lemma ascii_lits [simp]:
  "valid_text ''fingerprint''" "valid_text ''key_type''" "valid_text ''agency_id''"
  "valid_text ''reason''" "valid_text ''revoked_at''" "valid_text ''revoked''"
  "valid_text ''trusted_agencies''" "valid_text ''payload_signing_public_key_path''"
  "valid_text ''payload_signing_public_key_fingerprint''"
  "valid_text ''tls_certificate_fingerprint''" "valid_text ''issue_timestamp''"
  "valid_text ''expiry_timestamp''"
  by (simp_all add: ascii_valid ascii_def)

lemma rev_val_plain: "rev_plain e \<Longrightarrow> yaml_plain (rev_val e)"
  by (simp add: rev_plain_def rev_val_def)

lemma rev_of_val:
  assumes "rev_plain e"
  shows "rev_of (sort_keys (rev_val e)) = Inr e"
  using assms
  by (simp add: rev_of_def rev_val_def rev_plain_def map_of_sort_key del: sort_key_simps)

lemma rl_load_save:
  assumes y: "yaml_roundtrip y" and p: "list_all rev_plain (rl_entries rl)"
  shows "rl_load y f (rl_save y f rl fs) = Inr rl"
proof -
  let ?d = "VDict [(''revoked'', VList (map rev_val (rl_entries rl)))]"
  have "yaml_plain ?d" using p by (auto simp: list_all_iff rev_val_plain)
  with y have "yaml_safe_load y (yaml_dump y ?d) = Some (sort_keys ?d)"
    by (simp add: yaml_roundtrip_def)
  moreover have "rmap (rev_of \<circ> (sort_keys \<circ> rev_val)) (rl_entries rl) = Inr (rl_entries rl)"
    using rmap_Inr [of "rl_entries rl" "rev_of \<circ> (sort_keys \<circ> rev_val)" id] p
    by (auto simp: rev_of_val list_all_iff)
  ultimately show ?thesis
    by (simp add: rl_load_def rl_save_def path_exists_def read_file_def load_yaml_def rmap_map
        comp_assoc)
qed

subsection \<open>What the commands leave behind\<close>

lemma issue_cert_files:
  assumes "cmd_issue_gateway_cert L r ag cad san vd out kt fs = Inr fs'"
  obtains ca cert key where
    "issue_leaf_cert L r ca ag san vd kt = Inr (cert, key)"
    "fs' = save_private_key L key
        (path_join out (str_lower ag @ ''_gateway'' @ (if kt = ''ecdsa'' then ''_ecdsa'' else []) @ ''.key''))
        (save_cert L cert
          (path_join out (str_lower ag @ ''_gateway'' @ (if kt = ''ecdsa'' then ''_ecdsa'' else []) @ ''.crt''))
          fs)"
    "load_cert L (path_join cad ''root_ca.crt'') fs = Inr (ca_cert ca)"
    "load_private_key L (path_join cad ''root_ca.key'') fs = Inr (ca_private_key ca)"
proof -
  from assms obtain cc ck cert key where
      i: "issue_leaf_cert L r \<lparr>ca_cert = cc, ca_private_key = ck\<rparr> ag san vd kt = Inr (cert, key)"
    and l: "load_cert L (path_join cad ''root_ca.crt'') fs = Inr cc"
      "load_private_key L (path_join cad ''root_ca.key'') fs = Inr ck"
    and f: "fs' = save_private_key L key
        (path_join out (str_lower ag @ ''_gateway'' @ (if kt = ''ecdsa'' then ''_ecdsa'' else []) @ ''.key''))
        (save_cert L cert
          (path_join out (str_lower ag @ ''_gateway'' @ (if kt = ''ecdsa'' then ''_ecdsa'' else []) @ ''.crt''))
          fs)"
    by (auto simp: cmd_issue_gateway_cert_def Let_def split: if_splits)
  from that [OF i f] l show thesis by simp
qed

section \<open>A library with the laws\<close>

text \<open>
  Lists of strings packed into a string (every character escaped, every string terminated), and
  keys and certificates packed with it.
\<close>

fun pack_str :: "string \<Rightarrow> string" where
  "pack_str [] = ''|''"
| "pack_str (c # s) = CHR ''.'' # c # pack_str s"

definition pack :: "string list \<Rightarrow> string" where
  "pack ss = concat (map pack_str ss)"

fun unpack_with :: "string \<Rightarrow> string \<Rightarrow> string list" where
  "unpack_with acc (CHR ''.'' # c # s) = unpack_with (acc @ [c]) s"
| "unpack_with acc (_ # s) = acc # unpack_with [] s"
| "unpack_with acc [] = []"

definition unpack :: "string \<Rightarrow> string list" where
  "unpack = unpack_with []"

lemma unpack_pack_str: "unpack_with acc (pack_str s @ t) = (acc @ s) # unpack_with [] t"
  by (induction s arbitrary: acc) auto

lemma unpack_pack [simp]: "unpack (pack ss) = ss"
  unfolding unpack_def pack_def by (induction ss) (auto simp: unpack_pack_str)

definition read_int :: "string \<Rightarrow> int" where
  "read_int s = (if prefix ''-'' s then - int (dec_val (tl s)) else int (dec_val s))"

lemma read_show_int [simp]: "read_int (show_int i) = i"
proof (cases "i < 0")
  case True
  then show ?thesis by (simp add: read_int_def show_int_def dec_val_show_nat)
next
  case False
  have "prefix ''-'' (show_nat (nat i)) = False" using show_nat_not_minus [of "nat i" "[]"] by simp
  then show ?thesis using False by (simp add: read_int_def show_int_def dec_val_show_nat)
qed

definition put_key :: "key_type \<Rightarrow> bytes \<Rightarrow> string" where
  "put_key t b = (if t = EcKey then CHR ''e'' else CHR ''m'') # map char_of_byte b"

definition get_key :: "string \<Rightarrow> key_type \<times> bytes" where
  "get_key s = (if prefix ''e'' s then EcKey else MlDsaKey, map byte_of_char (tl s))"

lemma get_put_key [simp]: "get_key (put_key t b) = (t, b)"
  by (cases t) (simp_all add: get_key_def put_key_def comp_def)

fun put_attr :: "name_attr \<Rightarrow> string" where
  "put_attr (COMMON_NAME s) = CHR ''C'' # s"
| "put_attr (ORGANIZATION_NAME s) = CHR ''O'' # s"

definition get_attr :: "string \<Rightarrow> name_attr" where
  "get_attr s = (if prefix ''C'' s then COMMON_NAME (tl s) else ORGANIZATION_NAME (tl s))"

lemma get_put_attr [simp]: "get_attr (put_attr a) = a"
  by (cases a) (simp_all add: get_attr_def)

definition put_bool :: "bool \<Rightarrow> string" where
  "put_bool b = (if b then ''1'' else ''0'')"

lemma put_bool_eq [simp]: "put_bool b = ''1'' \<longleftrightarrow> b"
  by (simp add: put_bool_def)

definition put_cert :: "certificate \<Rightarrow> string" where
  "put_cert c = (let t = tbs c in pack
     ([pack (map put_attr (subject t)), pack (map put_attr (issuer t)),
       put_key (vk_type (cert_public_key t)) (vk_bits (cert_public_key t)),
       show_int (serial_number t), show_int (not_valid_before t), show_int (not_valid_after t),
       put_bool (basic_constraints_ca t),
       (case key_usage_ext t of None \<Rightarrow> [] | Some u \<Rightarrow>
          pack [put_bool (digital_signature u), put_bool (key_cert_sign u), put_bool (crl_sign u)]),
       (case subject_alt_name t of None \<Rightarrow> [] | Some s \<Rightarrow> pack [s]),
       put_key (vk_type (fst (signed_with c))) (vk_bits (fst (signed_with c))),
       put_bool (snd (signed_with c) = Some SHA256), map char_of_byte (cert_sig c)]))"

definition get_cert :: "string \<Rightarrow> certificate option" where
  "get_cert s = (case unpack s of
     [su, i, k, n, b, a, ca, ku, san, sk, alg, sig] \<Rightarrow> Some
       \<lparr>tbs = \<lparr>subject = map get_attr (unpack su), issuer = map get_attr (unpack i),
          cert_public_key = \<lparr>vk_type = fst (get_key k), vk_bits = snd (get_key k)\<rparr>,
          serial_number = read_int n, not_valid_before = read_int b, not_valid_after = read_int a,
          basic_constraints_ca = (ca = ''1''),
          key_usage_ext = (case unpack ku of
             [x, y, z] \<Rightarrow> Some \<lparr>digital_signature = (x = ''1''), key_cert_sign = (y = ''1''),
                                crl_sign = (z = ''1'')\<rparr>
           | _ \<Rightarrow> None),
          subject_alt_name = (case unpack san of [x] \<Rightarrow> Some x | _ \<Rightarrow> None)\<rparr>,
        signed_with = (\<lparr>vk_type = fst (get_key sk), vk_bits = snd (get_key sk)\<rparr>,
                       if alg = ''1'' then Some SHA256 else None),
        cert_sig = map byte_of_char sig\<rparr>
   | _ \<Rightarrow> None)"

lemma map_byte_of_char_of_byte [simp]: "map (byte_of_char \<circ> char_of_byte) b = b"
  by (induction b) auto

lemma unpack_Nil [simp]: "unpack [] = []"
  by (simp add: unpack_def)

lemma get_put_cert [simp]: "get_cert (put_cert c) = Some c"
proof -
  have alg: "(if a = Some SHA256 then Some SHA256 else None) = (a :: hash_alg option)" for a
  proof (cases a)
    case (Some h)
    then show ?thesis by (cases h) simp
  qed simp
  have attrs: "map (get_attr \<circ> put_attr) xs = xs" for xs by (induction xs) auto
  obtain t sw sg where c: "c = \<lparr>tbs = t, signed_with = sw, cert_sig = sg\<rparr>" by (cases c)
  show ?thesis unfolding c
    by (cases t; cases sw)
      (auto simp: get_cert_def put_cert_def Let_def attrs alg split: option.split)
qed

definition demo_crypto :: crypto_lib where
  "demo_crypto =
     \<lparr>gen_ec = (\<lambda>s. \<lparr>sk_type = EcKey, sk_bits = be32 s\<rparr>),
      gen_mldsa = (\<lambda>s. \<lparr>sk_type = MlDsaKey, sk_bits = be32 s\<rparr>),
      pub_of = (\<lambda>k. \<lparr>vk_type = sk_type k, vk_bits = sk_bits k\<rparr>),
      builder_sign = (\<lambda>k alg t. Inr
        \<lparr>tbs = t, signed_with = (\<lparr>vk_type = sk_type k, vk_bits = sk_bits k\<rparr>, alg), cert_sig = sk_bits k\<rparr>),
      pem_private = (\<lambda>k. put_key (sk_type k) (sk_bits k)),
      pem_public = (\<lambda>k. put_key (vk_type k) (vk_bits k)),
      pem_cert = put_cert,
      load_pem_private = (\<lambda>s. Some \<lparr>sk_type = fst (get_key s), sk_bits = snd (get_key s)\<rparr>),
      load_pem_public = (\<lambda>s. Some \<lparr>vk_type = fst (get_key s), vk_bits = snd (get_key s)\<rparr>),
      load_pem_cert = get_cert,
      cert_der = (\<lambda>c. map byte_of_char (put_cert c)),
      spki_der = (\<lambda>k. map byte_of_char (put_key (vk_type k) (vk_bits k))),
      ec_sign_prehashed = (\<lambda>k d. Inr (sk_bits k @ d)),
      mldsa_sign = (\<lambda>k d. Inr (sk_bits k @ d)),
      ec_verify_prehashed = (\<lambda>k s d. s = vk_bits k @ d),
      mldsa_verify = (\<lambda>k s d. s = vk_bits k @ d)\<rparr>"

lemma demo_crypto_laws:
  "pem_laws demo_crypto" "builder_law demo_crypto" "keygen_law demo_crypto"
  "signature_law demo_crypto"
  by (auto simp: pem_laws_def builder_law_def keygen_law_def signature_law_def demo_crypto_def)

section \<open>Properties\<close>

definition signing_pub :: "crypto_lib \<Rightarrow> entropy \<Rightarrow> string \<Rightarrow> public_key" where
  "signing_pub L r kt =
     pub_of L (if kt = ''ecdsa'' then gen_ec L (seed r) else gen_mldsa L (seed r))"

lemma issue_key_files:
  assumes "cmd_issue_signing_key L r ag out kt fs = Inr fs'"
  shows "\<exists>sk. fs' = save_public_key L (signing_pub L r kt)
      (path_join out (str_lower ag @ ''_'' @ (if kt = ''ecdsa'' then ''ecdsa256'' else ''ml_dsa65'') @ ''.pub''))
      (save_private_key L sk
        (path_join out (str_lower ag @ ''_'' @ (if kt = ''ecdsa'' then ''ecdsa256'' else ''ml_dsa65'') @ ''.pem''))
        fs)"
  using assms
  by (auto simp: cmd_issue_signing_key_def generate_ecdsa_keypair_def generate_ml_dsa_keypair_def
      signing_pub_def Let_def split: if_splits)

lemma issued_files:
  assumes c: "cmd_issue_gateway_cert L r1 ag cad san vd out kt fs0 = Inr fs1"
    and k: "cmd_issue_signing_key L r2 ag out kt fs1 = Inr fs2"
  shows "\<exists>ca cert sk. issue_leaf_cert L r1 ca ag san vd kt = Inr (cert, sk)
    \<and> load_cert L (path_join cad ''root_ca.crt'') fs0 = Inr (ca_cert ca)
    \<and> load_private_key L (path_join cad ''root_ca.key'') fs0 = Inr (ca_private_key ca)
    \<and> files fs2 (path_join out (str_lower ag @ ''_gateway'' @ (if kt = ''ecdsa'' then ''_ecdsa'' else []) @ ''.crt''))
        = Some (pem_cert L cert)
    \<and> files fs2 (path_join out (str_lower ag @ ''_'' @ (if kt = ''ecdsa'' then ''ecdsa256'' else ''ml_dsa65'') @ ''.pub''))
        = Some (pem_public L (signing_pub L r2 kt))"
proof -
  from c obtain ca cert sk where
      i: "issue_leaf_cert L r1 ca ag san vd kt = Inr (cert, sk)"
        "load_cert L (path_join cad ''root_ca.crt'') fs0 = Inr (ca_cert ca)"
        "load_private_key L (path_join cad ''root_ca.key'') fs0 = Inr (ca_private_key ca)"
    and f1: "fs1 = save_private_key L sk
        (path_join out (str_lower ag @ ''_gateway'' @ (if kt = ''ecdsa'' then ''_ecdsa'' else []) @ ''.key''))
        (save_cert L cert
          (path_join out (str_lower ag @ ''_gateway'' @ (if kt = ''ecdsa'' then ''_ecdsa'' else []) @ ''.crt''))
          fs0)" by (rule issue_cert_files)
  from issue_key_files [OF k] obtain sk2 where
      f2: "fs2 = save_public_key L (signing_pub L r2 kt)
        (path_join out (str_lower ag @ ''_'' @ (if kt = ''ecdsa'' then ''ecdsa256'' else ''ml_dsa65'') @ ''.pub''))
        (save_private_key L sk2
          (path_join out (str_lower ag @ ''_'' @ (if kt = ''ecdsa'' then ''ecdsa256'' else ''ml_dsa65'') @ ''.pem''))
          fs1)" by blast
  show ?thesis
    using i unfolding f2 f1
    by (intro exI [of _ ca] exI [of _ cert] exI [of _ sk]) (auto dest: path_join_inj)
qed

lemma export_agency_loaded:
  assumes "files fs (path_join (path_join root (''gateway_'' @ str_lower ag))
        (str_lower ag @ ''_gateway'' @ (if kt = ''ecdsa'' then ''_ecdsa'' else []) @ ''.crt''))
      = Some (pem_cert L cert)"
    and "files fs (path_join (path_join root (''gateway_'' @ str_lower ag))
        (str_lower ag @ ''_'' @ (if kt = ''ecdsa'' then ''ecdsa256'' else ''ml_dsa65'') @ ''.pub''))
      = Some (pem_public L pub)"
    and "pem_laws L"
  shows "export_agency L root kt n e fs ag tb = Inr (tb_add
    \<lparr>agency_id = ag,
     payload_signing_public_key_path = ''gateway_'' @ str_lower ag @ ''/'' @ str_lower ag
       @ (if kt = ''ecdsa'' then ''_ecdsa256.pub'' else ''_ml_dsa65.pub''),
     payload_signing_public_key_fingerprint = hex_bytes (sha256 (spki_der L pub)),
     tls_certificate_fingerprint = hex_bytes (sha256 (cert_der L cert)),
     issue_timestamp = n, expiry_timestamp = e\<rparr> tb)"
  using assms
  by (auto simp: export_agency_def Let_def path_exists_def load_cert_def load_public_key_file_def
      read_file_def pem_lawsD get_cert_fingerprint_def get_pubkey_fingerprint_def
      calculate_fingerprint_Inr simp del: calculate_fingerprint.simps split: if_splits)

text \<open>
  After a gateway certificate and a signing key were issued for an agency, exporting the trust
  bundle for it succeeds, and the one entry carries the agency's name as given, the fingerprint
  of exactly the certificate that was issued, that of exactly the signing key that was issued,
  and the path of that key relative to the root of the tree.
\<close>

theorem export_matches_issued:
  assumes "pem_laws L"
    and "cmd_issue_gateway_cert L r1 ag cad san vd (path_join root (''gateway_'' @ str_lower ag)) kt fs0
      = Inr fs1"
    and "cmd_issue_signing_key L r2 ag (path_join root (''gateway_'' @ str_lower ag)) kt fs1 = Inr fs2"
    and "CHR '','' \<notin> set ag"
  shows "\<exists>ca cert sk. issue_leaf_cert L r1 ca ag san vd kt = Inr (cert, sk)
    \<and> load_cert L (path_join cad ''root_ca.crt'') fs0 = Inr (ca_cert ca)
    \<and> cmd_export_trust_bundle L y ag root out kt n e fs2 = Inr (tb_save y out \<lparr>tb_entries =
      [\<lparr>agency_id = ag,
        payload_signing_public_key_path = ''gateway_'' @ str_lower ag @ ''/'' @ str_lower ag
          @ (if kt = ''ecdsa'' then ''_ecdsa256.pub'' else ''_ml_dsa65.pub''),
        payload_signing_public_key_fingerprint = hex_bytes (sha256 (spki_der L (signing_pub L r2 kt))),
        tls_certificate_fingerprint = hex_bytes (sha256 (cert_der L cert)),
        issue_timestamp = n, expiry_timestamp = e\<rparr>]\<rparr> fs2)"
proof -
  from issued_files [OF assms(2,3)] obtain ca cert sk where
    i: "issue_leaf_cert L r1 ca ag san vd kt = Inr (cert, sk)"
       "load_cert L (path_join cad ''root_ca.crt'') fs0 = Inr (ca_cert ca)"
    and f: "files fs2 (path_join (path_join root (''gateway_'' @ str_lower ag))
        (str_lower ag @ ''_gateway'' @ (if kt = ''ecdsa'' then ''_ecdsa'' else []) @ ''.crt''))
      = Some (pem_cert L cert)"
      "files fs2 (path_join (path_join root (''gateway_'' @ str_lower ag))
        (str_lower ag @ ''_'' @ (if kt = ''ecdsa'' then ''ecdsa256'' else ''ml_dsa65'') @ ''.pub''))
      = Some (pem_public L (signing_pub L r2 kt))" by blast
  have "cmd_export_trust_bundle L y ag root out kt n e fs2 = Inr (tb_save y out
      (tb_add \<lparr>agency_id = ag,
        payload_signing_public_key_path = ''gateway_'' @ str_lower ag @ ''/'' @ str_lower ag
          @ (if kt = ''ecdsa'' then ''_ecdsa256.pub'' else ''_ml_dsa65.pub''),
        payload_signing_public_key_fingerprint = hex_bytes (sha256 (spki_der L (signing_pub L r2 kt))),
        tls_certificate_fingerprint = hex_bytes (sha256 (cert_der L cert)),
        issue_timestamp = n, expiry_timestamp = e\<rparr> \<lparr>tb_entries = []\<rparr>) fs2)"
    by (simp add: cmd_export_trust_bundle_def str_split_single assms(4)
        export_agency_loaded [OF f assms(1)])
  with i show ?thesis by (auto simp: tb_add_def)
qed

definition demo_entropy :: entropy where
  "demo_entropy = \<lparr>seed = 7, serial = 1, now = 0\<rparr>"

lemma issue_signing_key_total: "\<exists>fs'. cmd_issue_signing_key L r ag out kt fs = Inr fs'"
  by (auto simp: cmd_issue_signing_key_def Let_def split: prod.split)

lemma bootstrap_succeeds:
  assumes "pem_laws L" "\<And>k alg t. \<exists>c. builder_sign L k alg t = Inr c"
  shows "\<exists>fs0 fs1 fs2. cmd_init_root L r cad vd kt fs = Inr fs0
    \<and> cmd_issue_gateway_cert L r1 ag cad san vd1 out kt1 fs0 = Inr fs1
    \<and> cmd_issue_signing_key L r2 ag out kt2 fs1 = Inr fs2"
proof -
  obtain ca where ca: "init_root L r vd kt = Inr ca"
    using assms(2) by (fastforce simp: init_root_def Let_def split: prod.split)
  obtain leaf where leaf: "issue_leaf_cert L r1 ca ag san vd1 kt1 = Inr leaf"
    using assms(2) by (fastforce simp: issue_leaf_cert_def Let_def)
  let ?fs0 = "save_private_key L (ca_private_key ca) (path_join cad ''root_ca.key'')
      (save_cert L (ca_cert ca) (path_join cad ''root_ca.crt'') fs)"
  have ne: "path_join cad ''root_ca.crt'' \<noteq> path_join cad ''root_ca.key''"
    using path_join_inj [of cad "[]" "''root_ca.crt''" "''root_ca.key''"] by auto
  have f: "files ?fs0 (path_join cad ''root_ca.crt'') = Some (pem_cert L (ca_cert ca))"
      "files ?fs0 (path_join cad ''root_ca.key'') = Some (pem_private L (ca_private_key ca))"
    using ne by simp_all
  have "cmd_init_root L r cad vd kt fs = Inr ?fs0" by (simp add: cmd_init_root_def ca)
  moreover obtain fs1 where "cmd_issue_gateway_cert L r1 ag cad san vd1 out kt1 ?fs0 = Inr fs1"
    using f leaf
    by (cases leaf, cases ca)
      (auto simp: cmd_issue_gateway_cert_def Let_def path_exists_def load_cert_def
        load_private_key_def read_file_def pem_lawsD [OF assms(1)] simp del: files_save)
  moreover obtain fs2 where "cmd_issue_signing_key L r2 ag out kt2 fs1 = Inr fs2"
    using issue_signing_key_total by blast
  ultimately show ?thesis by blast
qed

lemma lower_RAW [simp]: "str_lower ''RAW'' = ''raw''"
  by (simp add: str_lower_def lower_char_def less_eq_char_def char_of_eq_iff)

lemma demo_builder: "\<exists>c. builder_sign demo_crypto k alg t = Inr c"
  by (simp add: demo_crypto_def)

lemmas demo_bootstrap = bootstrap_succeeds [OF demo_crypto_laws(1) demo_builder]

theorem export_matches_issued_witness:
  "\<exists>fs2 ca cert sk. issue_leaf_cert demo_crypto demo_entropy ca ''RAW'' ''raw.local'' 90 ''mldsa''
      = Inr (cert, sk)
    \<and> cmd_export_trust_bundle demo_crypto json_yaml ''RAW'' ''pki'' ''ts.yaml'' ''mldsa'' ''n'' ''e'' fs2
      = Inr (tb_save json_yaml ''ts.yaml'' \<lparr>tb_entries =
      [\<lparr>agency_id = ''RAW'', payload_signing_public_key_path = ''gateway_raw/raw_ml_dsa65.pub'',
        payload_signing_public_key_fingerprint =
          hex_bytes (sha256 (spki_der demo_crypto (signing_pub demo_crypto demo_entropy ''mldsa''))),
        tls_certificate_fingerprint = hex_bytes (sha256 (cert_der demo_crypto cert)),
        issue_timestamp = ''n'', expiry_timestamp = ''e''\<rparr>]\<rparr> fs2)"
proof -
  let ?out = "path_join ''pki'' (''gateway_'' @ str_lower ''RAW'')"
  obtain fs0 fs1 fs2 where
    "cmd_issue_gateway_cert demo_crypto demo_entropy ''RAW'' ''ca'' ''raw.local'' 90 ?out ''mldsa'' fs0 = Inr fs1"
    "cmd_issue_signing_key demo_crypto demo_entropy ''RAW'' ?out ''mldsa'' fs1 = Inr fs2"
    using demo_bootstrap [of demo_entropy "''ca''" 3650 "''mldsa''" fs_empty demo_entropy "''RAW''"
        "''raw.local''" 90 ?out "''mldsa''" demo_entropy "''mldsa''"] by blast
  from export_matches_issued [OF demo_crypto_laws(1) this, of json_yaml "''ts.yaml''" "''n''" "''e''"]
  have "\<exists>ca cert sk. issue_leaf_cert demo_crypto demo_entropy ca ''RAW'' ''raw.local'' 90 ''mldsa''
      = Inr (cert, sk)
    \<and> cmd_export_trust_bundle demo_crypto json_yaml ''RAW'' ''pki'' ''ts.yaml'' ''mldsa'' ''n'' ''e'' fs2
      = Inr (tb_save json_yaml ''ts.yaml'' \<lparr>tb_entries =
      [\<lparr>agency_id = ''RAW'', payload_signing_public_key_path = ''gateway_raw/raw_ml_dsa65.pub'',
        payload_signing_public_key_fingerprint =
          hex_bytes (sha256 (spki_der demo_crypto (signing_pub demo_crypto demo_entropy ''mldsa''))),
        tls_certificate_fingerprint = hex_bytes (sha256 (cert_der demo_crypto cert)),
        issue_timestamp = ''n'', expiry_timestamp = ''e''\<rparr>]\<rparr> fs2)"
    by simp blast
  then show ?thesis by blast
qed

text \<open>
  \<open>qstie-ca revoke\<close> on a readable list succeeds and appends exactly the one entry to it: the
  list read back is the old one followed by the new entry, and no other file changes.
\<close>

theorem revoke_appends_entry:
  assumes "yaml_roundtrip y" and "rl_load y out fs = Inr rl"
    and "list_all rev_plain (rl_entries rl)"
    and "list_all valid_text [ag, kt, reason, fp, n]"
  shows "\<exists>fs'. cmd_revoke y ag kt reason out fp n fs = Inr fs'
    \<and> rl_load y out fs' = Inr (rl_add \<lparr>rev_fingerprint = VStr fp, rev_key_type = VStr kt,
         rev_agency_id = VStr ag, rev_reason = VStr reason, rev_revoked_at = VStr n\<rparr> rl)
    \<and> (\<forall>p. p \<noteq> out \<longrightarrow> files fs' p = files fs p)"
proof -
  let ?rl = "rl_add \<lparr>rev_fingerprint = VStr fp, rev_key_type = VStr kt, rev_agency_id = VStr ag,
    rev_reason = VStr reason, rev_revoked_at = VStr n\<rparr> rl"
  have "list_all rev_plain (rl_entries ?rl)"
    using assms(3,4) by (simp add: rl_add_def rev_plain_def)
  from rl_load_save [OF assms(1) this, of out fs] show ?thesis
    by (simp add: cmd_revoke_def assms(2) rl_save_def Let_def)
qed

theorem revoke_appends_entry_witness:
  "\<exists>fs'. cmd_revoke json_yaml ''RAW'' ''tls'' ''lost'' ''r.yaml'' ''ab'' ''t'' fs_empty = Inr fs'
    \<and> rl_load json_yaml ''r.yaml'' fs' = Inr \<lparr>rl_entries =
        [\<lparr>rev_fingerprint = VStr ''ab'', rev_key_type = VStr ''tls'', rev_agency_id = VStr ''RAW'',
          rev_reason = VStr ''lost'', rev_revoked_at = VStr ''t''\<rparr>]\<rparr>"
proof -
  have "rl_load json_yaml ''r.yaml'' fs_empty = Inr \<lparr>rl_entries = []\<rparr>"
    by (simp add: rl_load_def path_exists_def fs_empty_def)
  from revoke_appends_entry [OF json_yaml_roundtrip this, of "''RAW''" "''tls''" "''lost''" "''ab''" "''t''"]
  show ?thesis by (auto simp: ascii_valid ascii_def rl_add_def)
qed

text \<open>What is drawn for a certificate: a serial number and a time at which the dates fit the calendar.\<close>

definition draw_ok :: "entropy \<Rightarrow> int \<Rightarrow> bool" where
  "draw_ok r vd = (0 < serial r \<and> serial r < 2 ^ 159 \<and> 0 \<le> now r \<and> 0 \<le> vd \<and> now r + days vd < 253402300800)"

lemma builder_acceptsD:
  "builder_accepts L \<Longrightarrow> alg = None \<longleftrightarrow> sk_type k \<noteq> EcKey \<Longrightarrow> tbs_ok t \<Longrightarrow> \<exists>c. builder_sign L k alg t = Inr c"
  by (simp add: builder_accepts_def)

lemma init_root_total:
  assumes "builder_accepts L" "keygen_law L" "draw_ok r vd" "kt = ''mldsa'' \<or> kt = ''ecdsa''"
  shows "\<exists>ca. init_root L r vd kt = Inr ca"
proof -
  let ?k = "if kt = ''ecdsa'' then gen_ec L (seed r) else gen_mldsa L (seed r)"
  let ?alg = "if kt = ''ecdsa'' then Some SHA256 else None"
  let ?name = "[COMMON_NAME (''QS-TIE Root CA ('' @ kt @ '')'')]"
  let ?t = "\<lparr>subject = ?name, issuer = ?name, cert_public_key = pub_of L ?k, serial_number = serial r,
    not_valid_before = now r, not_valid_after = now r + days vd, basic_constraints_ca = True,
    key_usage_ext = Some \<lparr>digital_signature = True, key_cert_sign = True, crl_sign = True\<rparr>, subject_alt_name = None\<rparr>"
  have t: "tbs_ok ?t" using assms(3,4) by (auto simp: tbs_ok_def draw_ok_def days_def)
  have "?alg = None \<longleftrightarrow> sk_type ?k \<noteq> EcKey" using assms(2) by (simp add: keygen_law_def)
  from builder_acceptsD [OF assms(1) this t] obtain c where c: "builder_sign L ?k ?alg ?t = Inr c" ..
  show ?thesis
  proof (cases "kt = ''ecdsa''")
    case True
    with c show ?thesis by (simp add: init_root_def Let_def)
  next
    case False
    with c show ?thesis by (simp add: init_root_def Let_def)
  qed
qed

lemma issue_leaf_total:
  assumes "builder_accepts L" "draw_ok r vd" "kt = ''mldsa'' \<or> kt = ''ecdsa''" "ag \<noteq> []" "length ag \<le> 40" "ascii san"
  shows "\<exists>cert key. issue_leaf_cert L r ca ag san vd kt = Inr (cert, key)"
proof -
  let ?alg = "if sk_type (ca_private_key ca) = EcKey then Some SHA256 else None"
  let ?t = "\<lparr>subject = [COMMON_NAME (''QS-TIE Gateway '' @ ag @ '' ('' @ kt @ '')''), ORGANIZATION_NAME ag],
    issuer = subject (tbs (ca_cert ca)),
    cert_public_key = pub_of L (if kt = ''ecdsa'' then gen_ec L (seed r) else gen_mldsa L (seed r)),
    serial_number = serial r, not_valid_before = now r, not_valid_after = now r + days vd, basic_constraints_ca = False,
    key_usage_ext = None, subject_alt_name = (if san \<noteq> [] then Some san else None)\<rparr>"
  have "length kt = 5" using assms(3) by auto
  then have t: "tbs_ok ?t" using assms(2,4-6) by (simp add: tbs_ok_def draw_ok_def days_def)
  have "?alg = None \<longleftrightarrow> sk_type (ca_private_key ca) \<noteq> EcKey" by simp
  from builder_acceptsD [OF assms(1) this t] obtain c where c: "builder_sign L (ca_private_key ca) ?alg ?t = Inr c" ..
  then show ?thesis by (simp add: issue_leaf_cert_def Let_def)
qed

lemma issue_leaf_fields:
  assumes "builder_law L" "issue_leaf_cert L r ca ag san vd kt = Inr (cert, key)"
  shows "issuer (tbs cert) = subject (tbs (ca_cert ca))" "\<not> basic_constraints_ca (tbs cert)"
    "signed_with cert = (pub_of L (ca_private_key ca), if sk_type (ca_private_key ca) = EcKey then Some SHA256 else None)"
    "cert_public_key (tbs cert) = pub_of L key"
    "key = (if kt = ''ecdsa'' then gen_ec L (seed r) else gen_mldsa L (seed r))"
    "not_valid_after (tbs cert) - not_valid_before (tbs cert) = 86400 * vd"
    "subject_alt_name (tbs cert) = (if san \<noteq> [] then Some san else None)"
  using assms by (auto simp: issue_leaf_cert_def builder_law_def Let_def days_def)

lemma init_root_fields:
  assumes "builder_law L" "init_root L r vd kt = Inr ca"
  shows "subject (tbs (ca_cert ca)) = [COMMON_NAME (''QS-TIE Root CA ('' @ kt @ '')'')]"
    "basic_constraints_ca (tbs (ca_cert ca))" "cert_public_key (tbs (ca_cert ca)) = pub_of L (ca_private_key ca)"
    "ca_private_key ca = (if kt = ''ecdsa'' then gen_ec L (seed r) else gen_mldsa L (seed r))"
  using assms by (auto simp: init_root_def builder_law_def Let_def split: if_splits)

text \<open>
  C24: an authority can certify every agency, whatever the two key types. A root is created and
  from it a leaf certificate is issued without an error (the digest handed to the builder suits the
  key that signs, also when root and leaf have keys of different types), as long as the names and
  dates are acceptable. The leaf names the root as its issuer, is signed with the key that the root
  certificate certifies, is itself no authority, certifies the fresh key it is returned with, which
  is of the requested type, and is valid for the requested days and for the requested DNS name.
\<close>

theorem authority_issues:
  assumes "builder_accepts L" and "builder_law L" and "keygen_law L"
    and "draw_ok r0 vd0" and "draw_ok r1 vd1"
    and "kt0 = ''mldsa'' \<or> kt0 = ''ecdsa''" and "kt1 = ''mldsa'' \<or> kt1 = ''ecdsa''"
    and "ag \<noteq> []" and "length ag \<le> 40" and "ascii san"
  shows "\<exists>ca cert key. init_root L r0 vd0 kt0 = Inr ca \<and> issue_leaf_cert L r1 ca ag san vd1 kt1 = Inr (cert, key)
    \<and> basic_constraints_ca (tbs (ca_cert ca)) \<and> \<not> basic_constraints_ca (tbs cert)
    \<and> issuer (tbs cert) = subject (tbs (ca_cert ca))
    \<and> signed_with cert = (cert_public_key (tbs (ca_cert ca)), if kt0 = ''ecdsa'' then Some SHA256 else None)
    \<and> cert_public_key (tbs cert) = pub_of L key \<and> sk_type key = (if kt1 = ''ecdsa'' then EcKey else MlDsaKey)
    \<and> not_valid_after (tbs cert) - not_valid_before (tbs cert) = 86400 * vd1
    \<and> subject_alt_name (tbs cert) = (if san \<noteq> [] then Some san else None)"
proof -
  from init_root_total [OF assms(1,3,4,6)] obtain ca where i: "init_root L r0 vd0 kt0 = Inr ca" by blast
  from issue_leaf_total [OF assms(1,5,7-10)] obtain cert key where l: "issue_leaf_cert L r1 ca ag san vd1 kt1 = Inr (cert, key)"
    by blast
  from assms(3) issue_leaf_fields [OF assms(2) l] init_root_fields [OF assms(2) i] i l show ?thesis
    by (auto simp: keygen_law_def)
qed

theorem authority_issues_witness:
  "\<exists>ca cert key. init_root demo_crypto demo_entropy 3650 ''mldsa'' = Inr ca
    \<and> issue_leaf_cert demo_crypto demo_entropy ca ''RAW'' ''raw.local'' 90 ''ecdsa'' = Inr (cert, key)
    \<and> signed_with cert = (cert_public_key (tbs (ca_cert ca)), None) \<and> sk_type key = EcKey"
proof -
  have "draw_ok demo_entropy 3650" "draw_ok demo_entropy 90" "ascii ''raw.local''"
    by (simp_all add: draw_ok_def demo_entropy_def days_def ascii_def)
  moreover have "builder_accepts demo_crypto" by (simp add: builder_accepts_def demo_crypto_def)
  ultimately show ?thesis
    using authority_issues [of demo_crypto demo_entropy 3650 demo_entropy 90 "''mldsa''" "''ecdsa''" "''RAW''" "''raw.local''"]
      demo_crypto_laws(2,3) by auto
qed

text \<open>
  C25: whenever \<open>init-root\<close>, \<open>issue-gateway-cert\<close> or \<open>issue-signing-key\<close> succeeds, the private key
  file it wrote is readable and writable by its owner only (mode 600), whatever was there before.
\<close>

theorem private_keys_owner_only:
  "(cmd_init_root L r out vd kt fs = Inr fs' \<longrightarrow> modes fs' (path_join out ''root_ca.key'') = Some 0x180)
   \<and> (cmd_issue_gateway_cert L r ag cad san vd out kt fs = Inr fs' \<longrightarrow>
       modes fs' (path_join out (str_lower ag @ ''_gateway''
         @ (if kt = ''ecdsa'' then ''_ecdsa'' else []) @ ''.key'')) = Some 0x180)
   \<and> (cmd_issue_signing_key L r ag out kt fs = Inr fs' \<longrightarrow>
       modes fs' (path_join out (str_lower ag @ ''_''
         @ (if kt = ''ecdsa'' then ''ecdsa256'' else ''ml_dsa65'') @ ''.pem'')) = Some 0x180)"
proof (intro conjI impI)
  assume "cmd_init_root L r out vd kt fs = Inr fs'"
  then show "modes fs' (path_join out ''root_ca.key'') = Some 0x180"
    by (auto simp: cmd_init_root_def Let_def)
next
  assume "cmd_issue_gateway_cert L r ag cad san vd out kt fs = Inr fs'"
  then show "modes fs' (path_join out (str_lower ag @ ''_gateway''
      @ (if kt = ''ecdsa'' then ''_ecdsa'' else []) @ ''.key'')) = Some 0x180"
    by (rule issue_cert_files) (simp del: append_assoc)
next
  assume "cmd_issue_signing_key L r ag out kt fs = Inr fs'"
  from issue_key_files [OF this] show "modes fs' (path_join out (str_lower ag @ ''_''
      @ (if kt = ''ecdsa'' then ''ecdsa256'' else ''ml_dsa65'') @ ''.pem'')) = Some 0x180"
    by (auto intro: mode_save_public_other)
qed

theorem private_keys_owner_only_witness:
  "\<exists>fs'. cmd_issue_signing_key demo_crypto demo_entropy ''RAW'' ''d'' ''mldsa'' fs_empty = Inr fs'
    \<and> modes fs' ''d/raw_ml_dsa65.pem'' = Some 0x180"
proof -
  obtain fs' where f: "cmd_issue_signing_key demo_crypto demo_entropy ''RAW'' ''d'' ''mldsa'' fs_empty = Inr fs'"
    using issue_signing_key_total by blast
  have p: "path_join ''d'' ''raw_ml_dsa65.pem'' = ''d/raw_ml_dsa65.pem''" by code_simp
  from f private_keys_owner_only [of demo_crypto demo_entropy "''d''" 0 "''mldsa''" fs_empty fs' "''RAW''"]
  show ?thesis by (auto simp: p)
qed

end
