(* ===== verification/Gateway_A_Workers.thy ===== *)
theory Gateway_A_Workers
  imports Gateway_A_Models Qstie_Trust
begin

text \<open>
  The workers of Gateway A between extraction and transmission: the signer
  (\<open>gateway_a/crypto/signer.py\<close>, \<open>gateway_a/pipeline/signer_worker.py\<close>) and the outbound policy
  enforcement point (\<open>gateway_a/policy/pep_outbound.py\<close>, \<open>gateway_a/pipeline/pep_worker.py\<close>). One
  turn of a worker's loop is a function from the transaction it took to what becomes of it;
  \<open>zlib.compress\<close> is a parameter.
\<close>

section \<open>The signer\<close>

record MlDsaSigner =
  private_key_path :: string
  signer_key :: "private_key option"

definition MlDsaSigner_init :: "crypto_lib \<Rightarrow> fsys \<Rightarrow> string \<Rightarrow> MlDsaSigner result" where
  "MlDsaSigner_init L fs path =
     rbind (load_private_key L path fs) (\<lambda>k.
       Inr \<lparr>private_key_path = path, signer_key = Some k\<rparr>)"

definition signer_sign :: "crypto_lib \<Rightarrow> MlDsaSigner \<Rightarrow> bytes \<Rightarrow> bytes result" where
  "signer_sign L s payload =
     (case signer_key s of
        None \<Rightarrow> Inl RuntimeError
      | Some k \<Rightarrow>
          (let digest = sha256 payload
           in if sk_type k = EcKey then ec_sign_prehashed L k digest else mldsa_sign L k digest))"

section \<open>The signer worker\<close>

record SignerWorker =
  sw_signer :: MlDsaSigner
  cert_fingerprint :: string

definition load_cert_fingerprint :: "crypto_lib \<Rightarrow> fsys \<Rightarrow> string \<Rightarrow> string" where
  "load_cert_fingerprint L fs cert_path =
     (case load_cert L cert_path fs of
        Inl _ \<Rightarrow> ''mock_fingerprint''
      | Inr cert \<Rightarrow> hex_bytes (sha256 (cert_der L cert)))"

definition SignerWorker_init :: "crypto_lib \<Rightarrow> fsys \<Rightarrow> MlDsaSigner \<Rightarrow> string \<Rightarrow> SignerWorker" where
  "SignerWorker_init L fs signer cert_path =
     \<lparr>sw_signer = signer, cert_fingerprint = load_cert_fingerprint L fs cert_path\<rparr>"

text \<open>
  One turn: the transaction for the next queue, or the exception that the loop logs; then the
  transaction is dropped.
\<close>

definition signer_turn ::
    "crypto_lib \<Rightarrow> (bytes \<Rightarrow> bytes) \<Rightarrow> SignerWorker \<Rightarrow> int \<Rightarrow> GatewayATransaction
       \<Rightarrow> GatewayATransaction result" where
  "signer_turn L compress sw tnow t =
     (case tx_bundle t of
        None \<Rightarrow> Inl AttributeError
      | Some b \<Rightarrow>
          (let compressed_payload = compress (raw_json b);
               t1 = t\<lparr>tx_compressed := Some compressed_payload\<rparr>
           in rbind (signer_sign L (sw_signer sw) compressed_payload) (\<lambda>sig.
                Inr (t1\<lparr>tx_signature := sig, tx_signer_fp := cert_fingerprint sw, tx_state := SIGNED,
                        tx_telemetry := AList.update ''t_signed'' (VInt tnow) (tx_telemetry t1)\<rparr>))))"

section \<open>The outbound policy enforcement point\<close>

record SharingPolicyRule =
  spr_tlp_marking :: TlpMarking
  allowed_recipients :: "string list"

record OutboundPep =
  policy_table :: "TlpMarking \<rightharpoonup> string list"

text \<open>The dictionary comprehension: a later rule for a marking replaces an earlier one.\<close>

definition OutboundPep_init :: "SharingPolicyRule list \<Rightarrow> OutboundPep" where
  "OutboundPep_init rs =
     \<lparr>policy_table = foldl (\<lambda>m r. m(spr_tlp_marking r \<mapsto> allowed_recipients r)) Map.empty rs\<rparr>"

definition authorize :: "OutboundPep \<Rightarrow> TlpMarking \<Rightarrow> string \<Rightarrow> bool \<times> string option" where
  "authorize pep tlp recipient =
     (case policy_table pep tlp of
        None \<Rightarrow> (False, Some ''POLICY_DENIED_UNKNOWN_TLP'')
      | Some allowed \<Rightarrow>
          if recipient \<notin> set allowed then (False, Some ''POLICY_DENIED_UNAUTHORIZED_RECIPIENT'')
          else (True, None))"

text \<open>The table of \<open>run_pipeline\<close>.\<close>

definition main_policy :: "SharingPolicyRule list" where
  "main_policy =
     [\<lparr>spr_tlp_marking = AMBER, allowed_recipients = [''NIA'']\<rparr>,
      \<lparr>spr_tlp_marking = AMBER_STRICT, allowed_recipients = []\<rparr>,
      \<lparr>spr_tlp_marking = GREEN, allowed_recipients = [''NIA'', ''ALLY_X'']\<rparr>]"

section \<open>The policy worker\<close>

text \<open>One turn: the approved transaction for the next queue, or none; the dead letters; an exception.\<close>

definition pep_turn ::
    "OutboundPep \<Rightarrow> GatewayATransaction \<Rightarrow> DeadLetterStore \<times> fsys
       \<Rightarrow> GatewayATransaction option result \<times> DeadLetterStore \<times> fsys" where
  "pep_turn pep t dl =
     (case tx_bundle t of
        None \<Rightarrow> (Inl AttributeError, dl)
      | Some b \<Rightarrow>
          (case authorize pep (sb_tlp_marking b) (tx_recipient t) of
             (True, _) \<Rightarrow> (Inr (Some (t\<lparr>tx_state := POLICY_APPROVED\<rparr>)), dl)
           | (False, reason) \<Rightarrow>
               (Inr None, dl_add (t\<lparr>tx_state := POLICY_REJECTED\<rparr>)
                  (case reason of None \<Rightarrow> ''None'' | Some r \<Rightarrow> r) dl)))"

section \<open>Lemmas\<close>

lemma policy_table_last:
  "foldl (\<lambda>m r. m(spr_tlp_marking r \<mapsto> allowed_recipients r)) m rs tlp =
     (case List.find (\<lambda>r. spr_tlp_marking r = tlp) (rev rs) of
        None \<Rightarrow> m tlp | Some r \<Rightarrow> Some (allowed_recipients r))"
  by (induction rs arbitrary: m rule: rev_induct) auto

definition rule_grants :: "SharingPolicyRule \<Rightarrow> TlpMarking \<times> string \<Rightarrow> bool" where
  "rule_grants r q = (spr_tlp_marking r = fst q \<and> snd q \<in> set (allowed_recipients r))"

lemma find_member: "List.find P xs = Some x \<Longrightarrow> x \<in> set xs \<and> P x"
  by (induction xs) (auto split: if_splits)

lemma authorize_iff:
  "fst (authorize (OutboundPep_init rs) tlp rcp) \<longleftrightarrow>
     (case List.find (\<lambda>r. spr_tlp_marking r = tlp) (rev rs) of
        None \<Rightarrow> False | Some r \<Rightarrow> rcp \<in> set (allowed_recipients r))"
  by (simp add: authorize_def OutboundPep_init_def policy_table_last split: option.split)

lemma authorize_granted:
  assumes "fst (authorize (OutboundPep_init rs) tlp rcp)"
  shows "\<exists>r \<in> set rs. rule_grants r (tlp, rcp)"
proof -
  from assms obtain r where "List.find (\<lambda>r. spr_tlp_marking r = tlp) (rev rs) = Some r"
    "rcp \<in> set (allowed_recipients r)" by (auto simp: authorize_iff split: option.splits)
  with find_member [OF this(1)] show ?thesis by (auto simp: rule_grants_def)
qed

interpretation outbound: fail_closed
  "\<lambda>rs (tlp, rcp). fst (authorize (OutboundPep_init rs) tlp rcp)" rule_grants
  by unfold_locales (auto intro: authorize_granted)

lemma authorize_reason: "fst (authorize pep tlp r) \<longleftrightarrow> snd (authorize pep tlp r) = None"
  by (simp add: authorize_def split: option.split)

lemma signer_turn_verifies:
  assumes "signature_law L" and "signer_key (sw_signer sw) = Some k"
    and "signer_turn L compress sw tnow t = Inr t'"
  shows "\<exists>b. tx_bundle t = Some b \<and> tx_bundle t' = Some b \<and> tx_state t' = SIGNED
    \<and> tx_compressed t' = Some (compress (raw_json b))
    \<and> (if vk_type (pub_of L k) = EcKey
        then ec_verify_prehashed L (pub_of L k) (tx_signature t') (sha256 (compress (raw_json b)))
        else mldsa_verify L (pub_of L k) (tx_signature t') (sha256 (compress (raw_json b))))
    \<and> tx_id t' = tx_id t \<and> tx_recipient t' = tx_recipient t \<and> tx_retry_count t' = tx_retry_count t"
proof -
  from assms(3) obtain b where b: "tx_bundle t = Some b"
    by (auto simp: signer_turn_def split: option.splits)
  from assms(3) b obtain sig where s: "signer_sign L (sw_signer sw) (compress (raw_json b)) = Inr sig"
    and t': "tx_signature t' = sig" "tx_bundle t' = Some b" "tx_state t' = SIGNED"
      "tx_compressed t' = Some (compress (raw_json b))" "tx_id t' = tx_id t"
      "tx_recipient t' = tx_recipient t" "tx_retry_count t' = tx_retry_count t"
    by (auto simp: signer_turn_def Let_def)
  have "vk_type (pub_of L k) = sk_type k" using assms(1) by (simp add: signature_law_def)
  moreover have "if sk_type k = EcKey
      then ec_verify_prehashed L (pub_of L k) sig (sha256 (compress (raw_json b)))
      else mldsa_verify L (pub_of L k) sig (sha256 (compress (raw_json b)))"
    using s assms(1,2) by (auto simp: signer_sign_def Let_def signature_law_def)
  ultimately show ?thesis using b t' by simp
qed

section \<open>Properties\<close>

text \<open>
  The outbound policy fails closed. A transfer is permitted exactly when the last rule for
  its marking lists the recipient; without a rule for the marking it is denied, and every denial
  carries a reason.
\<close>

theorem outbound_policy:
  "(fst (authorize (OutboundPep_init rs) tlp rcp) \<longleftrightarrow>
     (case List.find (\<lambda>r. spr_tlp_marking r = tlp) (rev rs) of
        None \<Rightarrow> False | Some r \<Rightarrow> rcp \<in> set (allowed_recipients r)))
   \<and> (fst (authorize (OutboundPep_init rs) tlp rcp) \<longleftrightarrow> snd (authorize (OutboundPep_init rs) tlp rcp) = None)
   \<and> fst (authorize (OutboundPep_init rs) tlp rcp) =
       (fst (authorize (OutboundPep_init rs) tlp rcp) \<and> (\<exists>r. r \<in> set rs \<and> rule_grants r (tlp, rcp)))"
  using outbound.permit_granted [of rs "(tlp, rcp)"] authorize_reason [of "OutboundPep_init rs" tlp rcp]
  by (auto simp: authorize_iff)

text \<open>
  The two policies of the prototype agree on what goes from RAW to NIA: Gateway A's table
  permits a marking to NIA exactly when it is not \<open>tlp:amber+strict\<close>. (It also permits green
  bundles to ALLY_X, for which no route is configured.)
\<close>

theorem main_policy_outbound:
  "fst (authorize (OutboundPep_init main_policy) tlp rcp) \<longleftrightarrow>
     (rcp = ''NIA'' \<and> tlp \<noteq> AMBER_STRICT) \<or> (rcp = ''ALLY_X'' \<and> tlp = GREEN)"
  by (cases tlp) (auto simp: authorize_def OutboundPep_init_def main_policy_def)

text \<open>
  What the signer passes on verifies. A signed transaction carries the compression of its own
  bundle, a signature over the SHA-256 digest of exactly these octets that the public half of
  the signer's key accepts in the scheme of that key, and the state \<open>SIGNED\<close>; nothing else of the
  transaction changes but its fingerprint and telemetry.
\<close>

theorem signed_verifies:
  assumes "signature_law L" and "signer_key (sw_signer sw) = Some k"
    and "signer_turn L compress sw tnow t = Inr t'"
  shows "\<exists>b. tx_bundle t = Some b \<and> tx_bundle t' = Some b \<and> tx_state t' = SIGNED
    \<and> tx_compressed t' = Some (compress (raw_json b))
    \<and> (if vk_type (pub_of L k) = EcKey
        then ec_verify_prehashed L (pub_of L k) (tx_signature t') (sha256 (compress (raw_json b)))
        else mldsa_verify L (pub_of L k) (tx_signature t') (sha256 (compress (raw_json b))))
    \<and> tx_id t' = tx_id t \<and> tx_recipient t' = tx_recipient t \<and> tx_retry_count t' = tx_retry_count t"
  using assms by (rule signer_turn_verifies)

definition demo_bundle :: StixBundle where
  "demo_bundle = \<lparr>bundle_id = VStr ''b'', raw_json = [1, 2], sb_tlp_marking = AMBER, misp_event_uuid = VStr ''u''\<rparr>"

definition demo_tx :: GatewayATransaction where
  "demo_tx = new_transaction ''tx-1'' ''2026-01-01T00:00:00'' 1767225600000 demo_bundle VALIDATED []"

theorem signed_verifies_witness:
  "\<exists>t'. signer_turn demo_crypto id
      \<lparr>sw_signer = \<lparr>private_key_path = ''k'', signer_key = Some (gen_mldsa demo_crypto 7)\<rparr>,
       cert_fingerprint = ''ab''\<rparr> 5 demo_tx = Inr t'
    \<and> tx_state t' = SIGNED \<and> tx_compressed t' = Some [1, 2]"
proof -
  let ?sw = "\<lparr>sw_signer = \<lparr>private_key_path = ''k'', signer_key = Some (gen_mldsa demo_crypto 7)\<rparr>,
    cert_fingerprint = ''ab''\<rparr>"
  have "\<exists>t'. signer_turn demo_crypto id ?sw 5 demo_tx = Inr t'"
    by (simp add: signer_turn_def demo_tx_def new_transaction_def signer_sign_def Let_def)
      (simp add: demo_crypto_def)
  then obtain t' where t': "signer_turn demo_crypto id ?sw 5 demo_tx = Inr t'" ..
  have k: "signer_key (sw_signer ?sw) = Some (gen_mldsa demo_crypto 7)" by simp
  from signed_verifies [OF demo_crypto_laws(4) k t'] t' show ?thesis
    by (auto simp: demo_tx_def new_transaction_def demo_bundle_def)
qed

text \<open>
  C19: the policy worker enforces the rules. What becomes of a transaction is decided by the last
  rule for its marking: if it lists the recipient, the transaction is passed on as approved and no
  dead letter is written; if it does not, or if there is no such rule, the transaction goes nowhere
  but to the dead letter store, once, as rejected and with the reason that applies. With the table of
  \<open>run_pipeline\<close> it passes on exactly what goes to NIA and is not \<open>tlp:amber+strict\<close> and what goes to
  ALLY_X and is green.
\<close>

theorem pep_worker_gate:
  assumes "tx_bundle t = Some b"
  shows "pep_turn (OutboundPep_init rs) t dl =
      (case List.find (\<lambda>r. spr_tlp_marking r = sb_tlp_marking b) (rev rs) of
         None \<Rightarrow> (Inr None, dl_add (t\<lparr>tx_state := POLICY_REJECTED\<rparr>) ''POLICY_DENIED_UNKNOWN_TLP'' dl)
       | Some r \<Rightarrow>
           if tx_recipient t \<in> set (allowed_recipients r) then (Inr (Some (t\<lparr>tx_state := POLICY_APPROVED\<rparr>)), dl)
           else (Inr None, dl_add (t\<lparr>tx_state := POLICY_REJECTED\<rparr>) ''POLICY_DENIED_UNAUTHORIZED_RECIPIENT'' dl))
    \<and> (fst (pep_turn (OutboundPep_init main_policy) t dl) \<noteq> Inr None \<longleftrightarrow>
        (tx_recipient t = ''NIA'' \<and> sb_tlp_marking b \<noteq> AMBER_STRICT) \<or> (tx_recipient t = ''ALLY_X'' \<and> sb_tlp_marking b = GREEN))"
proof -
  have e: "pep_turn (OutboundPep_init rs) t dl =
      (case List.find (\<lambda>r. spr_tlp_marking r = sb_tlp_marking b) (rev rs) of
         None \<Rightarrow> (Inr None, dl_add (t\<lparr>tx_state := POLICY_REJECTED\<rparr>) ''POLICY_DENIED_UNKNOWN_TLP'' dl)
       | Some r \<Rightarrow>
           if tx_recipient t \<in> set (allowed_recipients r) then (Inr (Some (t\<lparr>tx_state := POLICY_APPROVED\<rparr>)), dl)
           else (Inr None, dl_add (t\<lparr>tx_state := POLICY_REJECTED\<rparr>) ''POLICY_DENIED_UNAUTHORIZED_RECIPIENT'' dl))" for rs
    using assms by (simp add: pep_turn_def authorize_def OutboundPep_init_def policy_table_last split: option.split)
  show ?thesis
    unfolding e by (cases "sb_tlp_marking b") (simp_all add: main_policy_def)
qed

theorem pep_worker_gate_witness:
  "tx_bundle demo_tx = Some demo_bundle
   \<and> fst (pep_turn (OutboundPep_init main_policy) demo_tx (DeadLetterStore_init 500 ''d'', fs_empty))
      = Inr (Some (demo_tx\<lparr>tx_state := POLICY_APPROVED\<rparr>))"
proof -
  have b: "tx_bundle demo_tx = Some demo_bundle" "tx_recipient demo_tx = ''NIA''"
    by (simp_all add: demo_tx_def new_transaction_def)
  show ?thesis
    using pep_worker_gate [OF b(1), of main_policy "(DeadLetterStore_init 500 ''d'', fs_empty)"] b
    by (simp add: main_policy_def demo_bundle_def)
qed

end
