(* ===== verification/Qstie_Envelope.thy ===== *)
theory Qstie_Envelope
  imports Qstie_Common Py_Json_Roundtrip
begin

text \<open>
  The transaction envelope, \<open>qstie_common/models/envelope.py\<close>. The class that the protocol buffer
  compiler generates from \<open>proto/qstie.proto\<close> is a parameter, the record \<open>pb_lib\<close>, with the one
  law \<open>pb_roundtrip\<close>: a message whose fields were set is parsed back from its serialisation. The
  last part of the theory gives a concrete class with this law, for the witnesses.
\<close>

section \<open>Definitions\<close>

record ProtoEnvelope =
  p_transaction_id :: string
  p_sender_id :: string
  p_recipient_id :: string
  p_tlp_marking :: string
  p_stix_bundle_compressed :: bytes
  p_signature :: bytes
  p_signer_cert_fingerprint :: string
  p_created_at_unix_ms :: int

text \<open>
  The generated message class: \<open>SerializeToString\<close> and \<open>ParseFromString\<close> (\<open>None\<close> when it
  raises).
\<close>

record pb_lib =
  pb_serialize :: "ProtoEnvelope \<Rightarrow> bytes"
  pb_parse :: "bytes \<Rightarrow> ProtoEnvelope option"

record TransactionEnvelope =
  transaction_id :: string
  sender_id :: string
  recipient_id :: string
  tlp_marking :: TlpMarking
  stix_bundle_compressed :: bytes
  signature :: bytes
  signer_cert_fingerprint :: string
  created_at_unix_ms :: int

definition from_proto :: "ProtoEnvelope \<Rightarrow> TransactionEnvelope result" where
  "from_proto env =
     (case (if p_tlp_marking env \<noteq> [] then TlpMarking_of (p_tlp_marking env) else Inr GREEN) of
        Inl _ \<Rightarrow> Inl EnvelopeError
      | Inr tlp \<Rightarrow> Inr
          \<lparr>transaction_id = p_transaction_id env, sender_id = p_sender_id env,
           recipient_id = p_recipient_id env, tlp_marking = tlp,
           stix_bundle_compressed = p_stix_bundle_compressed env, signature = p_signature env,
           signer_cert_fingerprint = p_signer_cert_fingerprint env,
           created_at_unix_ms = p_created_at_unix_ms env\<rparr>)"

definition int64 :: "int \<Rightarrow> bool" where
  "int64 i = (- (2 ^ 63) \<le> i \<and> i < 2 ^ 63)"

text \<open>Assigning a field of the message checks its type: text is UTF-8, an \<open>int64\<close> is in range.\<close>

definition to_proto :: "TransactionEnvelope \<Rightarrow> ProtoEnvelope result" where
  "to_proto e =
     (if \<not> (valid_text (transaction_id e) \<and> valid_text (sender_id e)
            \<and> valid_text (recipient_id e)) then Inl UnicodeError
      else if \<not> valid_text (signer_cert_fingerprint e) then Inl UnicodeError
      else if \<not> int64 (created_at_unix_ms e) then Inl ValueError
      else Inr
        \<lparr>p_transaction_id = transaction_id e, p_sender_id = sender_id e,
         p_recipient_id = recipient_id e, p_tlp_marking = TlpMarking_value (tlp_marking e),
         p_stix_bundle_compressed = stix_bundle_compressed e, p_signature = signature e,
         p_signer_cert_fingerprint = signer_cert_fingerprint e,
         p_created_at_unix_ms = created_at_unix_ms e\<rparr>)"

definition from_bytes :: "pb_lib \<Rightarrow> bytes \<Rightarrow> TransactionEnvelope result" where
  "from_bytes pb data =
     (case pb_parse pb data of
        None \<Rightarrow> Inl EnvelopeError
      | Some env \<Rightarrow> from_proto env)"

definition to_bytes :: "pb_lib \<Rightarrow> TransactionEnvelope \<Rightarrow> bytes result" where
  "to_bytes pb e = rbind (to_proto e) (\<lambda>env. Inr (pb_serialize pb env))"

text \<open>What protocol buffers promise of a message whose fields were all set.\<close>

definition proto_ok :: "ProtoEnvelope \<Rightarrow> bool" where
  "proto_ok env = (valid_text (p_transaction_id env) \<and> valid_text (p_sender_id env)
     \<and> valid_text (p_recipient_id env) \<and> valid_text (p_tlp_marking env)
     \<and> valid_text (p_signer_cert_fingerprint env) \<and> int64 (p_created_at_unix_ms env))"

definition pb_roundtrip :: "pb_lib \<Rightarrow> bool" where
  "pb_roundtrip pb = (\<forall>env. proto_ok env \<longrightarrow> pb_parse pb (pb_serialize pb env) = Some env)"

section \<open>Lemmas\<close>

lemma TlpMarking_of_value [simp]: "TlpMarking_of (TlpMarking_value t) = Inr t"
  by (cases t) (simp_all add: TlpMarking_of_def)

lemma TlpMarking_value_nonempty [simp]: "TlpMarking_value t \<noteq> []"
  by (cases t) simp_all

lemma TlpMarking_value_ascii: "valid_text (TlpMarking_value t)"
  by (rule ascii_valid, cases t) (simp_all add: ascii_def)

lemma to_proto_Inr:
  "to_proto e = Inr env \<Longrightarrow> proto_ok env \<and> from_proto env = Inr e"
  by (auto simp: to_proto_def proto_ok_def from_proto_def TlpMarking_value_ascii split: if_splits)

lemma envelope_from_to:
  assumes "pb_roundtrip pb" "to_bytes pb e = Inr b"
  shows "from_bytes pb b = Inr e"
proof -
  from assms(2) obtain env where env: "to_proto e = Inr env" "b = pb_serialize pb env"
    by (auto simp: to_bytes_def)
  from to_proto_Inr [OF env(1)] have "proto_ok env" "from_proto env = Inr e" by auto
  with assms(1) env(2) show ?thesis by (simp add: pb_roundtrip_def from_bytes_def)
qed

section \<open>A message class with the law\<close>

text \<open>A serialisation over JSON: the fields by their numbers in \<open>qstie.proto\<close>.\<close>

definition bytes_val :: "bytes \<Rightarrow> pyval" where
  "bytes_val bs = VList (map (\<lambda>b. VInt (int (unat b))) bs)"

fun val_int :: "pyval \<Rightarrow> int" where
  "val_int (VInt i) = i"
| "val_int _ = 0"

fun val_str :: "pyval \<Rightarrow> string" where
  "val_str (VStr s) = s"
| "val_str _ = []"

fun val_bytes :: "pyval \<Rightarrow> bytes" where
  "val_bytes (VList vs) = map (\<lambda>v. word_of_int (val_int v)) vs"
| "val_bytes _ = []"

definition env_val :: "ProtoEnvelope \<Rightarrow> pyval" where
  "env_val e = VDict
     [(''1'', VStr (p_transaction_id e)), (''2'', VStr (p_sender_id e)),
      (''3'', VStr (p_recipient_id e)), (''4'', VStr (p_tlp_marking e)),
      (''5'', bytes_val (p_stix_bundle_compressed e)), (''6'', bytes_val (p_signature e)),
      (''7'', VStr (p_signer_cert_fingerprint e)), (''8'', VInt (p_created_at_unix_ms e))]"

definition field :: "pyval \<Rightarrow> string \<Rightarrow> pyval" where
  "field v k = (case py_get v k VNone of Inl _ \<Rightarrow> VNone | Inr w \<Rightarrow> w)"

definition val_env :: "pyval \<Rightarrow> ProtoEnvelope" where
  "val_env v =
     \<lparr>p_transaction_id = val_str (field v ''1''), p_sender_id = val_str (field v ''2''),
      p_recipient_id = val_str (field v ''3''), p_tlp_marking = val_str (field v ''4''),
      p_stix_bundle_compressed = val_bytes (field v ''5''), p_signature = val_bytes (field v ''6''),
      p_signer_cert_fingerprint = val_str (field v ''7''),
      p_created_at_unix_ms = val_int (field v ''8'')\<rparr>"

definition json_pb :: pb_lib where
  "json_pb =
     \<lparr>pb_serialize = (\<lambda>e. map byte_of_char (json_dumps (env_val e))),
      pb_parse = (\<lambda>b. case json_loads (map char_of_byte b) of
                        Inl _ \<Rightarrow> None | Inr v \<Rightarrow> Some (val_env v))\<rparr>"

lemma json_ok_bytes: "json_ok (bytes_val bs)"
proof -
  have "json_ok (VInt (int (unat b)))" for b :: byte
  proof (rule json_ok_small)
    have "int (unat b) < 256" using unat_byte_less [of b] by linarith
    also have "(256::int) < 10 ^ 20" by simp
    finally show "\<bar>int (unat b)\<bar> < 10 ^ 20" by (simp only: abs_of_nat)
  qed
  then show ?thesis by (simp add: bytes_val_def del: json_ok.simps(3))
qed

lemma json_ok_int64: "int64 i \<Longrightarrow> json_ok (VInt i)"
  by (rule json_ok_small) (auto simp: int64_def)

lemma json_ok_env: "proto_ok e \<Longrightarrow> json_ok (env_val e)"
  by (simp add: env_val_def proto_ok_def json_ok_bytes json_ok_int64
      ascii_valid ascii_def del: json_ok.simps(3))

lemma val_bytes_val [simp]: "val_bytes (bytes_val bs) = bs"
  by (induction bs) (auto simp: bytes_val_def)

lemma val_env_val: "val_env (env_val e) = e"
  by (cases e) (simp add: val_env_def env_val_def field_def)

lemma json_pb_roundtrip: "pb_roundtrip json_pb"
  by (auto simp: pb_roundtrip_def json_pb_def json_loads_dumps json_ok_env val_env_val)

section \<open>Properties\<close>

text \<open>
  C12: an envelope that serialises is parsed back unchanged, its TLP marking included, for every
  implementation of the generated protocol buffer class that parses what it serialised.
\<close>

theorem envelope_roundtrip:
  assumes "pb_roundtrip pb" and "to_bytes pb e = Inr b"
  shows "from_bytes pb b = Inr e"
  using assms by (rule envelope_from_to)

theorem envelope_roundtrip_witness:
  "\<exists>b. from_bytes json_pb b = Inr
     \<lparr>transaction_id = ''tx-1'', sender_id = ''RAW'', recipient_id = ''NIA'', tlp_marking = AMBER,
      stix_bundle_compressed = [1, 2], signature = [3], signer_cert_fingerprint = ''ab'',
      created_at_unix_ms = 1700000000000\<rparr>"
proof -
  let ?e = "\<lparr>transaction_id = ''tx-1'', sender_id = ''RAW'', recipient_id = ''NIA'',
    tlp_marking = AMBER, stix_bundle_compressed = [1, 2], signature = [3],
    signer_cert_fingerprint = ''ab'', created_at_unix_ms = 1700000000000\<rparr>"
  have "valid_text ''tx-1''" "valid_text ''RAW''" "valid_text ''NIA''" "valid_text ''ab''"
    by (auto intro!: ascii_valid simp: ascii_def)
  then obtain b where "to_bytes json_pb ?e = Inr b"
    by (simp add: to_bytes_def to_proto_def int64_def)
  from envelope_roundtrip [OF json_pb_roundtrip this] show ?thesis by blast
qed

end
