(* ===== verification/Gateway_A_Transport.thy ===== *)
theory Gateway_A_Transport
  imports Gateway_A_Models Qstie_Envelope
begin

text \<open>
  Transmission: one exchange with Gateway B (\<open>gateway_a/transport/protocol.py\<close>) and the worker
  that retries it (\<open>gateway_a/pipeline/transmission_worker.py\<close>).

  A session is what the peer makes of it: the octets it sends and how its stream ends, and
  whether \<open>drain\<close> raises. The network is a function from the number of the attempt to what
  happens when a session is opened. Delays are recorded in milliseconds.
\<close>

section \<open>Sessions\<close>

datatype stream_end = Eof | Stall | Broken exn

record session =
  ses_input :: bytes
  ses_end :: stream_end
  ses_drain :: "exn option"

text \<open>
  \<open>asyncio.wait_for(reader.readexactly(n), timeout=5.0)\<close>: the octets and the rest of the stream.
\<close>

definition readexactly :: "nat \<Rightarrow> stream_end \<Rightarrow> bytes \<Rightarrow> (bytes \<times> bytes) result" where
  "readexactly n fin input =
     (if n \<le> length input then Inr (take n input, drop n input)
      else Inl (case fin of Eof \<Rightarrow> IncompleteReadError | Stall \<Rightarrow> TimeoutError | Broken e \<Rightarrow> e))"

definition envelope_of :: "GatewayATransaction \<Rightarrow> TransactionEnvelope result" where
  "envelope_of t =
     (case tx_bundle t of
        None \<Rightarrow> Inl AttributeError
      | Some b \<Rightarrow>
          (case tx_compressed t of
             None \<Rightarrow> Inl AttributeError
           | Some c \<Rightarrow> Inr
               \<lparr>transaction_id = tx_id t, sender_id = tx_sender t, recipient_id = tx_recipient t,
                tlp_marking = sb_tlp_marking b, stix_bundle_compressed = c, signature = tx_signature t,
                signer_cert_fingerprint = tx_signer_fp t, created_at_unix_ms = tx_created_ms t\<rparr>))"

definition request_frame :: "pb_lib \<Rightarrow> GatewayATransaction \<Rightarrow> bytes result" where
  "request_frame pb t =
     rbind (envelope_of t) (\<lambda>proto_env.
     rbind (to_bytes pb proto_env) (\<lambda>payload.
     rbind (pack_BI (MessageType_value SIGNED_BUNDLE) (length payload)) (\<lambda>header.
       Inr (header @ payload))))"

definition read_response :: "GatewayATransaction \<Rightarrow> session \<Rightarrow> (bool \<times> pyval) result" where
  "read_response t s =
     rbind (readexactly 1 (ses_end s) (ses_input s)) (\<lambda>(msg_type_byte, r1).
     rbind (readexactly 4 (ses_end s) r1) (\<lambda>(len_bytes, r2).
     rbind (readexactly (be32_dec len_bytes) (ses_end s) r2) (\<lambda>(resp_payload, r3).
       let msg_type = unat (hd msg_type_byte)
       in if msg_type = MessageType_value ACK then
            rbind (rbind (decode_utf8 resp_payload) json_loads) (\<lambda>resp_dict.
            rbind (py_get resp_dict ''transaction_id'' VNone) (\<lambda>i.
              if i = VStr (tx_id t) then Inr (True, VStr ''ACK'')
              else Inr (False, VStr ''ACK_ID_MISMATCH'')))
          else if msg_type = MessageType_value NACK then
            rbind (rbind (decode_utf8 resp_payload) json_loads) (\<lambda>resp_dict.
            rbind (py_get resp_dict ''reason'' (VStr ''UNKNOWN_NACK'')) (\<lambda>r. Inr (False, r)))
          else Inr (False, VStr ''UNKNOWN_RESPONSE_TYPE''))))"

text \<open>The result, and what was written to the stream.\<close>

definition send_envelope :: "pb_lib \<Rightarrow> GatewayATransaction \<Rightarrow> session \<Rightarrow> (bool \<times> pyval) \<times> bytes list" where
  "send_envelope pb t s =
     (let req = request_frame pb t;
          res = rbind req (\<lambda>frame. case ses_drain s of Some e \<Rightarrow> Inl e | None \<Rightarrow> read_response t s)
      in (case res of
            Inl TimeoutError \<Rightarrow> (False, VStr ''TIMEOUT'')
          | Inl ConnectionRefusedError \<Rightarrow> (False, VStr ''CONNECTION_REFUSED'')
          | Inl _ \<Rightarrow> (False, VStr ''TRANSPORT_ERROR'')
          | Inr r \<Rightarrow> r,
          case req of Inl _ \<Rightarrow> [] | Inr frame \<Rightarrow> [frame]))"

section \<open>The transmission worker\<close>

datatype attempt = ConnectError | Connected session

record tx_world =
  tw_dead :: "DeadLetterStore \<times> fsys"
  tw_sleeps :: "int list"
  tw_written :: "bytes list"

definition transport_reasons :: "pyval list" where
  "transport_reasons = [VStr ''TIMEOUT'', VStr ''TRANSPORT_ERROR'', VStr ''CONNECTION_REFUSED'']"

definition backoff_delay :: "GatewayAConfig \<Rightarrow> int \<Rightarrow> int" where
  "backoff_delay c retry_count = base_backoff_ms c * backoff_factor c ^ nat (retry_count - 1)"

definition tx_sleep :: "int \<Rightarrow> tx_world \<Rightarrow> tx_world" where
  "tx_sleep d w = w\<lparr>tw_sleeps := tw_sleeps w @ [d]\<rparr>"

definition tx_fail :: "string \<Rightarrow> GatewayATransaction \<Rightarrow> tx_world \<Rightarrow> GatewayATransaction \<times> tx_world" where
  "tx_fail reason t w =
     (let t1 = t\<lparr>tx_state := FAILED\<rparr> in (t1, w\<lparr>tw_dead := dl_add t1 reason (tw_dead w)\<rparr>))"

definition tx_acked :: "int \<Rightarrow> GatewayATransaction \<Rightarrow> tx_world \<Rightarrow> GatewayATransaction \<times> tx_world" where
  "tx_acked tnow t w =
     (let t1 = t\<lparr>tx_state := ACKED,
                 tx_telemetry := AList.update ''retry_count'' (VInt (tx_retry_count t))
                   (AList.update ''t_acked'' (VInt tnow) (tx_telemetry t))\<rparr>
      in (t1, w\<lparr>tw_dead := (fst (tw_dead w), log_telemetry t1 (snd (tw_dead w)))\<rparr>))"

function send_loop ::
    "GatewayAConfig \<Rightarrow> pb_lib \<Rightarrow> int \<Rightarrow> (int \<Rightarrow> attempt) \<Rightarrow> GatewayATransaction \<Rightarrow> tx_world
       \<Rightarrow> GatewayATransaction \<times> tx_world" where
  "send_loop c pb tnow net t w =
     (if tx_retry_count t < max_attempts c then
        (let t1 = t\<lparr>tx_retry_count := tx_retry_count t + 1, tx_state := SENDING\<rparr>
         in case net (tx_retry_count t1) of
              ConnectError \<Rightarrow>
                if tx_retry_count t1 < max_attempts c
                then send_loop c pb tnow net t1 (tx_sleep (backoff_delay c (tx_retry_count t1)) w)
                else tx_fail ''MAX_RETRIES_EXCEEDED'' t1 w
            | Connected s \<Rightarrow>
                (let ((success, reason), frames) = send_envelope pb t1 s;
                     w1 = w\<lparr>tw_written := tw_written w @ frames\<rparr>
                 in if success then tx_acked tnow t1 w1
                    else if reason \<in> set transport_reasons then
                      (if tx_retry_count t1 < max_attempts c
                       then send_loop c pb tnow net t1 (tx_sleep (backoff_delay c (tx_retry_count t1)) w1)
                       else tx_fail ''MAX_RETRIES_EXCEEDED'' t1 w1)
                    else tx_fail (''NACK_'' @ py_str reason) t1 w1))
      else (t, w))"
  by pat_completeness auto

termination
  by (relation "measure (\<lambda>(c, pb, tnow, net, t, w). nat (max_attempts c - tx_retry_count t))") auto

declare send_loop.simps [simp del]

text \<open>
  \<open>_process_transaction\<close>. An exception (a route without host or port, a port that is not a number)
  ends in the loop of the worker, which only logs it.
\<close>

definition process_outgoing ::
    "GatewayAConfig \<Rightarrow> pb_lib \<Rightarrow> int \<Rightarrow> (int \<Rightarrow> attempt) \<Rightarrow> GatewayATransaction \<Rightarrow> tx_world
       \<Rightarrow> unit result \<times> GatewayATransaction \<times> tx_world" where
  "process_outgoing c pb tnow net t w =
     (case map_of (recipients c) (tx_recipient t) of
        None \<Rightarrow> (Inr (), tx_fail ''UNKNOWN_RECIPIENT_ROUTING'' t w)
      | Some recipient_config \<Rightarrow>
          if recipient_config = [] then (Inr (), tx_fail ''UNKNOWN_RECIPIENT_ROUTING'' t w)
          else case map_of recipient_config ''host'' of
            None \<Rightarrow> (Inl KeyError, t, w)
          | Some host \<Rightarrow>
            (case map_of recipient_config ''port'' of
               None \<Rightarrow> (Inl KeyError, t, w)
             | Some p \<Rightarrow>
               (case py_int p of
                  Inl e \<Rightarrow> (Inl e, t, w)
                | Inr port \<Rightarrow> (Inr (), send_loop c pb tnow net t w))))"

section \<open>The specification of the retries\<close>

datatype attempt_outcome = Retry | Accepted | Rejected pyval

definition outcome_of :: "pb_lib \<Rightarrow> GatewayATransaction \<Rightarrow> attempt \<Rightarrow> attempt_outcome" where
  "outcome_of pb t a =
     (case a of
        ConnectError \<Rightarrow> Retry
      | Connected s \<Rightarrow>
          (case fst (send_envelope pb t s) of
             (True, _) \<Rightarrow> Accepted
           | (False, reason) \<Rightarrow> if reason \<in> set transport_reasons then Retry else Rejected reason))"

text \<open>The frames of one attempt.\<close>

definition frames_of :: "pb_lib \<Rightarrow> GatewayATransaction \<Rightarrow> attempt \<Rightarrow> bytes list" where
  "frames_of pb t a = (case a of ConnectError \<Rightarrow> [] | Connected s \<Rightarrow> snd (send_envelope pb t s))"

text \<open>
  The transaction after \<open>n\<close> further attempts that all asked for a retry: each attempt wrote its
  frame and was followed by its delay.
\<close>

definition after_retries ::
    "GatewayAConfig \<Rightarrow> pb_lib \<Rightarrow> (int \<Rightarrow> attempt) \<Rightarrow> GatewayATransaction \<Rightarrow> tx_world \<Rightarrow> int list \<Rightarrow> tx_world" where
  "after_retries c pb net t w ns =
     w\<lparr>tw_sleeps := tw_sleeps w @ map (backoff_delay c) ns,
       tw_written := tw_written w @ concat (map (\<lambda>n. frames_of pb t (net n)) ns)\<rparr>"

text \<open>What the last attempt makes of the transaction.\<close>

definition conclude ::
    "int \<Rightarrow> attempt_outcome \<Rightarrow> GatewayATransaction \<Rightarrow> tx_world \<Rightarrow> GatewayATransaction \<times> tx_world" where
  "conclude tnow res t w =
     (case res of
        Accepted \<Rightarrow> tx_acked tnow t w
      | Rejected r \<Rightarrow> tx_fail (''NACK_'' @ py_str r) t w
      | Retry \<Rightarrow> tx_fail ''MAX_RETRIES_EXCEEDED'' t w)"

text \<open>The number of the last attempt: the first that settles the matter, or the maximum.\<close>

definition last_attempt ::
    "GatewayAConfig \<Rightarrow> pb_lib \<Rightarrow> (int \<Rightarrow> attempt) \<Rightarrow> GatewayATransaction \<Rightarrow> int" where
  "last_attempt c pb net t =
     (case List.find (\<lambda>n. outcome_of pb t (net n) \<noteq> Retry) [tx_retry_count t + 1..max_attempts c] of
        None \<Rightarrow> max_attempts c | Some n \<Rightarrow> n)"

section \<open>Lemmas\<close>

lemma readexactly_Inr:
  "readexactly n fin b = Inr (x, r) \<longleftrightarrow> b = x @ r \<and> length x = n"
  by (auto simp: readexactly_def)

lemma send_envelope_cong:
  "tx_id t' = tx_id t \<Longrightarrow> tx_sender t' = tx_sender t \<Longrightarrow> tx_recipient t' = tx_recipient t \<Longrightarrow>
   tx_bundle t' = tx_bundle t \<Longrightarrow> tx_compressed t' = tx_compressed t \<Longrightarrow>
   tx_signature t' = tx_signature t \<Longrightarrow> tx_signer_fp t' = tx_signer_fp t \<Longrightarrow>
   tx_created_ms t' = tx_created_ms t \<Longrightarrow> send_envelope pb t' s = send_envelope pb t s"
proof -
  assume a: "tx_id t' = tx_id t" "tx_sender t' = tx_sender t" "tx_recipient t' = tx_recipient t"
    "tx_bundle t' = tx_bundle t" "tx_compressed t' = tx_compressed t" "tx_signature t' = tx_signature t"
    "tx_signer_fp t' = tx_signer_fp t" "tx_created_ms t' = tx_created_ms t"
  have "envelope_of t' = envelope_of t" unfolding envelope_of_def a ..
  then have "request_frame pb t' = request_frame pb t" by (simp add: request_frame_def)
  moreover have "read_response t' s = read_response t s" unfolding read_response_def a ..
  ultimately show ?thesis by (simp only: send_envelope_def)
qed

lemma send_envelope_retry [simp]:
  "send_envelope pb (t\<lparr>tx_retry_count := n, tx_state := st\<rparr>) s = send_envelope pb t s"
  by (rule send_envelope_cong) simp_all

lemma outcome_retry [simp]:
  "outcome_of pb (t\<lparr>tx_retry_count := n, tx_state := st\<rparr>) a = outcome_of pb t a"
  "frames_of pb (t\<lparr>tx_retry_count := n, tx_state := st\<rparr>) a = frames_of pb t a"
  by (simp_all add: outcome_of_def frames_of_def split: attempt.split)

text \<open>One turn of the loop.\<close>

lemma send_loop_turn:
  assumes "tx_retry_count t < max_attempts c"
  shows "send_loop c pb tnow net t w =
    (let n = tx_retry_count t + 1; t1 = t\<lparr>tx_retry_count := n, tx_state := SENDING\<rparr>;
         w1 = w\<lparr>tw_written := tw_written w @ frames_of pb t (net n)\<rparr>
     in case outcome_of pb t (net n) of
          Accepted \<Rightarrow> tx_acked tnow t1 w1
        | Rejected r \<Rightarrow> tx_fail (''NACK_'' @ py_str r) t1 w1
        | Retry \<Rightarrow> if n < max_attempts c then send_loop c pb tnow net t1 (tx_sleep (backoff_delay c n) w1)
                   else tx_fail ''MAX_RETRIES_EXCEEDED'' t1 w1)"
proof (cases "net (tx_retry_count t + 1)")
  case ConnectError
  then show ?thesis
    using assms by (subst send_loop.simps) (simp add: outcome_of_def frames_of_def Let_def)
next
  case (Connected s)
  obtain ok r fs where e: "send_envelope pb t s = ((ok, r), fs)" by (metis prod.exhaust)
  show ?thesis
    using assms Connected e
    by (subst send_loop.simps) (cases ok, simp_all add: outcome_of_def frames_of_def Let_def)
qed

lemma upto_Cons: "(m::int) \<le> n \<Longrightarrow> [m..n] = m # [m + 1..n]"
  by (rule upto_rec1)

lemma last_attempt_turn:
  assumes "tx_retry_count t < max_attempts c"
  shows "last_attempt c pb net t =
    (if outcome_of pb t (net (tx_retry_count t + 1)) \<noteq> Retry \<or> tx_retry_count t + 1 = max_attempts c
     then tx_retry_count t + 1
     else last_attempt c pb net (t\<lparr>tx_retry_count := tx_retry_count t + 1, tx_state := SENDING\<rparr>))"
  using assms by (simp add: last_attempt_def upto_Cons)

lemma last_attempt_bounds:
  assumes "tx_retry_count t < max_attempts c"
  shows "tx_retry_count t + 1 \<le> last_attempt c pb net t \<and> last_attempt c pb net t \<le> max_attempts c"
proof (cases "List.find (\<lambda>n. outcome_of pb t (net n) \<noteq> Retry) [tx_retry_count t + 1..max_attempts c]")
  case None
  then show ?thesis using assms by (simp add: last_attempt_def)
next
  case (Some n)
  have "n \<in> set [tx_retry_count t + 1..max_attempts c]"
    using Some by (auto simp: find_Some_iff)
  then show ?thesis by (simp add: last_attempt_def Some)
qed

lemma send_loop_spec:
  assumes "tx_retry_count t < max_attempts c"
  shows "send_loop c pb tnow net t w =
    (let n = last_attempt c pb net t;
         w1 = after_retries c pb net t w [tx_retry_count t + 1..n - 1]
     in conclude tnow (outcome_of pb t (net n)) (t\<lparr>tx_retry_count := n, tx_state := SENDING\<rparr>)
          (w1\<lparr>tw_written := tw_written w1 @ frames_of pb t (net n)\<rparr>))"
  using assms
proof (induction "nat (max_attempts c - tx_retry_count t)" arbitrary: t w rule: less_induct)
  case less
  let ?n = "tx_retry_count t + 1"
  let ?t = "t\<lparr>tx_retry_count := ?n, tx_state := SENDING\<rparr>"
  show ?case
  proof (cases "outcome_of pb t (net ?n) \<noteq> Retry \<or> ?n = max_attempts c")
    case True
    then show ?thesis
      unfolding send_loop_turn [OF less.prems] last_attempt_turn [OF less.prems]
      by (auto simp: Let_def conclude_def after_retries_def split: attempt_outcome.split)
  next
    case False
    with less.prems have lt: "?n < max_attempts c" by simp
    have b: "?n + 1 \<le> last_attempt c pb net ?t" using last_attempt_bounds [of ?t c pb net] lt by simp
    have "send_loop c pb tnow net t w
        = send_loop c pb tnow net ?t (tx_sleep (backoff_delay c ?n) (w\<lparr>tw_written := tw_written w @ frames_of pb t (net ?n)\<rparr>))"
      unfolding send_loop_turn [OF less.prems] using False lt by (simp add: Let_def)
    also have "\<dots> = (let n = last_attempt c pb net ?t;
         w1 = after_retries c pb net t (tx_sleep (backoff_delay c ?n)
            (w\<lparr>tw_written := tw_written w @ frames_of pb t (net ?n)\<rparr>)) [?n + 1..n - 1]
     in conclude tnow (outcome_of pb t (net n)) (t\<lparr>tx_retry_count := n, tx_state := SENDING\<rparr>)
          (w1\<lparr>tw_written := tw_written w1 @ frames_of pb t (net n)\<rparr>))"
      using less.hyps [of ?t] lt less.prems by (simp add: Let_def after_retries_def)
    also have "last_attempt c pb net ?t = last_attempt c pb net t"
      using last_attempt_turn [OF less.prems, of pb net] False by simp
    finally show ?thesis
      using b last_attempt_turn [OF less.prems, of pb net] False upto_Cons [of ?n "last_attempt c pb net t - 1"]
      by (simp add: Let_def after_retries_def tx_sleep_def)
  qed
qed

lemma send_envelope_success:
  assumes "fst (fst (send_envelope pb t s))"
  shows "read_response t s = Inr (True, snd (fst (send_envelope pb t s))) \<and> ses_drain s = None
    \<and> (\<exists>f. request_frame pb t = Inr f)"
proof (cases "rbind (request_frame pb t) (\<lambda>frame. case ses_drain s of Some e \<Rightarrow> Inl e | None \<Rightarrow> read_response t s)")
  case (Inl e)
  then show ?thesis using assms by (cases e) (simp_all add: send_envelope_def Let_def)
next
  case (Inr r)
  then show ?thesis using assms
    by (cases r) (auto simp: send_envelope_def Let_def split: option.splits)
qed

lemma unat_type: "unat (b :: byte) = MessageType_value t \<Longrightarrow> b = word_of_nat (MessageType_value t)"
  by (simp add: word_unat_eq_iff unat_word_of_nat_byte)

lemma read_response_ack:
  assumes "read_response t s = Inr (True, r)"
  shows "\<exists>p rest d. ses_input s = word_of_nat (MessageType_value ACK) # be32 (length p) @ p @ rest
    \<and> rbind (decode_utf8 p) json_loads = Inr (VDict d)
    \<and> map_of d ''transaction_id'' = Some (VStr (tx_id t))"
proof -
  from assms obtain a r1 l r2 p rest where
      a: "readexactly 1 (ses_end s) (ses_input s) = Inr (a, r1)"
    and l: "readexactly 4 (ses_end s) r1 = Inr (l, r2)"
    and p: "readexactly (be32_dec l) (ses_end s) r2 = Inr (p, rest)"
    and t: "unat (hd a) = MessageType_value ACK"
    and j: "\<exists>v. rbind (decode_utf8 p) json_loads = Inr v
        \<and> py_get v ''transaction_id'' VNone = Inr (VStr (tx_id t))"
    by (auto simp: read_response_def Let_def split: if_splits)
  from j obtain d where d: "rbind (decode_utf8 p) json_loads = Inr (VDict d)"
      "map_of d ''transaction_id'' = Some (VStr (tx_id t))"
    by (auto elim!: py_get.elims split: option.splits)
  from a have "ses_input s = [hd a] @ r1" by (auto simp: readexactly_Inr length_Suc_conv)
  moreover from l have "r1 = be32 (be32_dec l) @ r2" by (simp add: readexactly_Inr be32_be32_dec)
  moreover from p have "r2 = p @ rest" "be32_dec l = length p" by (simp_all add: readexactly_Inr)
  ultimately have "ses_input s = word_of_nat (MessageType_value ACK) # be32 (length p) @ p @ rest"
    using unat_type [OF t] by simp
  with d show ?thesis by blast
qed

lemma readexactly_append: "length x = n \<Longrightarrow> readexactly n fin (x @ r) = Inr (x, r)"
  by (simp add: readexactly_Inr)

text \<open>Reading a reply that was framed by the codec.\<close>

lemma read_response_framed:
  assumes "encode_frame c mt p = Inr f" "ses_input s = f @ rest"
    and "rbind (decode_utf8 p) json_loads = Inr (VDict d)"
  shows "read_response t s =
    (case mt of
       ACK \<Rightarrow> Inr (if map_of d ''transaction_id'' = Some (VStr (tx_id t)) then (True, VStr ''ACK'')
                  else (False, VStr ''ACK_ID_MISMATCH''))
     | NACK \<Rightarrow> Inr (False, case map_of d ''reason'' of None \<Rightarrow> VStr ''UNKNOWN_NACK'' | Some r \<Rightarrow> r)
     | SIGNED_BUNDLE \<Rightarrow> Inr (False, VStr ''UNKNOWN_RESPONSE_TYPE''))"
proof -
  have n: "length p < 2 ^ 32" and i: "ses_input s =
      [word_of_nat (MessageType_value mt)] @ be32 (length p) @ p @ rest"
    using assms(1,2) by (auto simp: encode_frame_Inr)
  have t: "unat (word_of_nat (MessageType_value mt) :: byte) = MessageType_value mt"
    by (simp add: unat_word_of_nat_byte)
  have v: "MessageType_value mt = MessageType_value ACK \<longleftrightarrow> mt = ACK"
    "MessageType_value mt = MessageType_value NACK \<longleftrightarrow> mt = NACK"
    by (cases mt; simp)+
  have a: "readexactly 1 (ses_end s) (ses_input s)
      = Inr ([word_of_nat (MessageType_value mt)], be32 (length p) @ p @ rest)"
    unfolding i by (rule readexactly_append) simp
  have b: "readexactly 4 (ses_end s) (be32 (length p) @ p @ rest) = Inr (be32 (length p), p @ rest)"
    by (rule readexactly_append) simp
  have e: "readexactly (be32_dec (be32 (length p))) (ses_end s) (p @ rest) = Inr (p, rest)"
    using n by (intro readexactly_append) simp
  show ?thesis
    unfolding read_response_def a rbind.simps prod.case b e Let_def list.sel t v assms(3)
    by (cases mt) (simp_all split: option.split)
qed

section \<open>Properties\<close>

text \<open>
  C16: the worker sends until the matter is settled. The attempts go on to the first one that is
  accepted or rejected by the peer, at most to the configured maximum; only connection failures
  and transport errors lead to another attempt. The delays between them are exactly
  \<open>base * factor ^ 0\<close>, \<open>base * factor ^ 1\<close>, and so on, and the last attempt alone decides: \<open>ACKED\<close>,
  a dead letter with the peer's reason, or a dead letter after the last transport failure.
\<close>

theorem retries_until_settled:
  assumes "tx_retry_count t < max_attempts c"
  shows "send_loop c pb tnow net t w =
    (let n = last_attempt c pb net t;
         w1 = after_retries c pb net t w [tx_retry_count t + 1..n - 1]
     in conclude tnow (outcome_of pb t (net n)) (t\<lparr>tx_retry_count := n, tx_state := SENDING\<rparr>)
          (w1\<lparr>tw_written := tw_written w1 @ frames_of pb t (net n)\<rparr>))
    \<and> tx_retry_count t < last_attempt c pb net t \<and> last_attempt c pb net t \<le> max_attempts c"
  using send_loop_spec [OF assms] last_attempt_bounds [OF assms, of pb net] by auto

definition demo_cfg :: GatewayAConfig where
  "demo_cfg = \<lparr>ca_agency_id = ''RAW'', ca_cert_path = ''c'', ca_key_path = ''k'',
     ca_ml_dsa_private_key_path = ''m'', ca_ca_trust_path = ''a'', misp_zmq_endpoint = ''z'',
     misp_tags_filter = [''share:NIA''], ca_hybrid_group = ''g'',
     recipients = [(''NIA'', [(''host'', ''gateway-b''), (''port'', ''8443'')])],
     transmission_workers = 4, ingestion_queue_maxsize = 100, extracted_queue_maxsize = 50,
     signed_queue_maxsize = 50, tx_queue_maxsize = 20, max_attempts = 3, base_backoff_ms = 200,
     backoff_factor = 2\<rparr>"

definition demo_out :: GatewayATransaction where
  "demo_out = (new_transaction ''tx-1'' ''2026-01-01T00:00:00'' 1767225600000
     \<lparr>bundle_id = VStr ''b'', raw_json = [1, 2], sb_tlp_marking = AMBER, misp_event_uuid = VStr ''u''\<rparr>
     POLICY_APPROVED [])"

definition demo_tw :: tx_world where
  "demo_tw = \<lparr>tw_dead = (DeadLetterStore_init 500 ''d'', fs_empty), tw_sleeps = [], tw_written = []\<rparr>"

lemma demo_out_simps [simp]: "tx_retry_count demo_out = 0" "max_attempts demo_cfg = 3"
  "tx_recipient demo_out = ''NIA''" "tw_sleeps demo_tw = []"
  by (simp_all add: demo_out_def demo_cfg_def demo_tw_def new_transaction_def)

theorem retries_until_settled_witness:
  "tw_sleeps (snd (send_loop demo_cfg json_pb 5 (\<lambda>_. ConnectError) demo_out demo_tw)) = [200, 400]"
proof -
  have l: "last_attempt demo_cfg json_pb (\<lambda>_. ConnectError) demo_out = 3"
    by (simp add: last_attempt_def outcome_of_def upto_rec1)
  have u: "[1..2::int] = [1, 2]" by (simp add: upto_rec1)
  have "tx_retry_count demo_out < max_attempts demo_cfg" by simp
  from retries_until_settled [OF this, of json_pb 5 "\<lambda>_. ConnectError" demo_tw]
  show ?thesis
    by (simp add: l u Let_def conclude_def outcome_of_def tx_fail_def after_retries_def frames_of_def)
      (simp add: backoff_delay_def demo_cfg_def)
qed

text \<open>
  C17: nothing is lost between the two ends. With a route for its recipient and at least one
  attempt left, every transaction ends either \<open>ACKED\<close>, with its telemetry logged and no dead
  letter, or \<open>FAILED\<close> with exactly one dead letter for it; it was tried at least once and at most
  the maximum.
\<close>

theorem outgoing_resolved:
  assumes "map_of (recipients c) (tx_recipient t) = Some route" and "map_of route ''host'' = Some h"
    and "map_of route ''port'' = Some p" and "py_int p = Inr port"
    and "tx_retry_count t < max_attempts c" and "process_outgoing c pb tnow net t w = (r, t', w')"
  shows "r = Inr ()
    \<and> tx_retry_count t < tx_retry_count t' \<and> tx_retry_count t' \<le> max_attempts c
    \<and> ((tx_state t' = ACKED \<and> fst (tw_dead w') = fst (tw_dead w)
          \<and> snd (tw_dead w') = log_telemetry t' (snd (tw_dead w)))
       \<or> (tx_state t' = FAILED \<and> (\<exists>reason. tw_dead w' = dl_add t' reason (tw_dead w))))"
proof -
  have "route \<noteq> []" using assms(2) by auto
  with assms have r: "r = Inr ()" "(t', w') = send_loop c pb tnow net t w"
    by (simp_all add: process_outgoing_def)
  let ?n = "last_attempt c pb net t"
  from r(2) have "t' = fst (send_loop c pb tnow net t w)" "w' = snd (send_loop c pb tnow net t w)"
    by (metis fst_conv, metis snd_conv)
  then show ?thesis
    using r(1) last_attempt_bounds [OF assms(5), of pb net]
    unfolding send_loop_spec [OF assms(5)] Let_def conclude_def
    by (cases "outcome_of pb t (net ?n)") (auto simp: tx_acked_def tx_fail_def after_retries_def Let_def)
qed

theorem outgoing_resolved_witness:
  "\<exists>t' w'. process_outgoing demo_cfg json_pb 5 (\<lambda>_. ConnectError) demo_out demo_tw = (Inr (), t', w')
    \<and> tx_retry_count t' \<le> 3 \<and> (tx_state t' = ACKED \<or> tx_state t' = FAILED)"
proof -
  obtain r t' w' where p: "process_outgoing demo_cfg json_pb 5 (\<lambda>_. ConnectError) demo_out demo_tw = (r, t', w')"
    by (metis prod.exhaust)
  have i: "py_int ''8443'' = Inr 8443"
    by (simp add: py_int_def str_strip_def is_space_def is_digit_def digit_val_def)
  have c: "map_of (recipients demo_cfg) (tx_recipient demo_out) = Some [(''host'', ''gateway-b''), (''port'', ''8443'')]"
    by (simp add: demo_cfg_def)
  from outgoing_resolved [OF c _ _ i _ p] p show ?thesis by auto
qed

text \<open>
  C18: an acknowledgement counts only for the transaction it names: success is reported only if
  the peer's first five octets announce an \<open>ACK\<close> and its payload is a JSON object whose
  \<open>transaction_id\<close> is the identifier that was sent; anything else is a failure or an error.
\<close>

theorem success_means_matching_ack:
  assumes "fst (fst (send_envelope pb t s))"
  shows "\<exists>p rest d. ses_input s = word_of_nat (MessageType_value ACK) # be32 (length p) @ p @ rest
    \<and> rbind (decode_utf8 p) json_loads = Inr (VDict d)
    \<and> map_of d ''transaction_id'' = Some (VStr (tx_id t))"
  using send_envelope_success [OF assms] read_response_ack by blast

definition demo_ack_payload :: bytes where
  "demo_ack_payload = map byte_of_char (json_dumps (VDict [(''transaction_id'', VStr ''tx-1'')]))"

lemma demo_ack_read:
  "rbind (decode_utf8 demo_ack_payload) json_loads = Inr (VDict [(''transaction_id'', VStr ''tx-1'')])"
proof -
  have "json_ok (VDict [(''transaction_id'', VStr ''tx-1'')])" by (simp add: ascii_valid ascii_def)
  with dumps_valid_text [OF this] show ?thesis
    using decode_encode_utf8 [of "json_dumps (VDict [(''transaction_id'', VStr ''tx-1'')])" demo_ack_payload]
    by (simp add: encode_utf8_def demo_ack_payload_def json_loads_dumps del: json_dumps.simps)
qed

theorem success_means_matching_ack_witness:
  "\<exists>pb s. fst (send_envelope pb (demo_out\<lparr>tx_compressed := Some [1]\<rparr>) s) = (True, VStr ''ACK'')
    \<and> (\<exists>p rest. ses_input s = word_of_nat (MessageType_value ACK) # be32 (length p) @ p @ rest)"
proof -
  let ?t = "demo_out\<lparr>tx_compressed := Some [1]\<rparr>"
  let ?pb = "\<lparr>pb_serialize = (\<lambda>_. [1]), pb_parse = (\<lambda>_. None)\<rparr>"
  have "length demo_ack_payload = 26"
    by (simp add: demo_ack_payload_def json_str_plain plain_char_def)
  then have "\<exists>f. encode_frame FrameCodec_default ACK demo_ack_payload = Inr f"
    by (simp add: encode_frame_Inr FrameCodec_default_def DEFAULT_MAX_PAYLOAD_SIZE_def)
  then obtain f where f: "encode_frame FrameCodec_default ACK demo_ack_payload = Inr f" ..
  let ?s = "\<lparr>ses_input = f @ [], ses_end = Eof, ses_drain = None\<rparr>"
  have r: "read_response ?t ?s = Inr (True, VStr ''ACK'')"
    using read_response_framed [OF f _ demo_ack_read, of ?s "[]" ?t]
    by (simp add: demo_out_def new_transaction_def)
  have "valid_text ''tx-1''" "valid_text ''RAW''" "valid_text ''NIA''" "valid_text []"
    by (simp_all add: ascii_valid ascii_def)
  then have "\<exists>q. request_frame ?pb ?t = Inr q"
    by (simp add: request_frame_def envelope_of_def demo_out_def new_transaction_def to_bytes_def
        to_proto_def int64_def pack_BI_def)
  then have "fst (send_envelope ?pb ?t ?s) = (True, VStr ''ACK'')"
    using r by (auto simp: send_envelope_def Let_def)
  with success_means_matching_ack [of ?pb ?t ?s] show ?thesis by fastforce
qed

text \<open>
  With no attempt configured (\<open>MAX_RETRY_ATTEMPTS\<close> zero or negative) a routed transaction
  leaves the worker unsent, neither acknowledged nor dead-lettered, and without an error.
\<close>

theorem no_attempts_loses_silently:
  assumes "map_of (recipients c) (tx_recipient t) = Some route" and "map_of route ''host'' = Some h"
    and "map_of route ''port'' = Some p" and "py_int p = Inr port"
    and "max_attempts c \<le> tx_retry_count t"
  shows "process_outgoing c pb tnow net t w = (Inr (), t, w)"
proof -
  have "route \<noteq> []" using assms(2) by auto
  with assms show ?thesis by (simp add: process_outgoing_def send_loop.simps)
qed

theorem no_attempts_loses_silently_witness:
  "process_outgoing (demo_cfg\<lparr>max_attempts := 0\<rparr>) json_pb 5 (\<lambda>_. ConnectError) demo_out demo_tw
    = (Inr (), demo_out, demo_tw)"
proof -
  have i: "py_int ''8443'' = Inr 8443"
    by (simp add: py_int_def str_strip_def is_space_def is_digit_def digit_val_def)
  have c: "map_of (recipients (demo_cfg\<lparr>max_attempts := 0\<rparr>)) (tx_recipient demo_out)
      = Some [(''host'', ''gateway-b''), (''port'', ''8443'')]"
    by (simp add: demo_cfg_def)
  from no_attempts_loses_silently [OF c _ _ i] show ?thesis by simp
qed

end
