(* ===== verification/Gateway_A_System.thy ===== *)
theory Gateway_A_System
  imports Gateway_A_Ingestion Gateway_A_Workers Gateway_A_Transport
begin

text \<open>
  Gateway A as a whole (\<open>gateway_a/main.py\<close>): the listener and the workers connected by four
  bounded queues, as a step relation. A worker that has finished a turn holds its result until
  the next queue takes it, which is how a full queue holds up the workers before it.

  The steps say what the workers do to the queues; when they run, with their flags and the shutdown,
  is added in \<open>Gateway_A_Shutdown\<close>, whose runs are runs of this relation.

  The transmission of one transaction is a single step: while it waits for the network the other
  workers go on, but all they share with it is the dead letter store and the log files, which are
  only appended to.
\<close>

section \<open>State and start-up\<close>

record pipe_env =
  pe_listener :: MispZmqListener
  pe_libs :: stix_libs
  pe_crypto :: crypto_lib
  pe_compress :: "bytes \<Rightarrow> bytes"
  pe_signer :: SignerWorker
  pe_pep :: OutboundPep
  pe_config :: GatewayAConfig
  pe_pb :: pb_lib

record pipeline =
  pl_in :: "pyval aqueue"
  pl_extracted :: "GatewayATransaction aqueue"
  pl_signed :: "GatewayATransaction aqueue"
  pl_tx :: "GatewayATransaction aqueue"
  pl_hold_in :: "pyval option"
  pl_hold_extracted :: "GatewayATransaction option"
  pl_hold_signed :: "GatewayATransaction option"
  pl_hold_tx :: "GatewayATransaction option"
  pl_dead :: "DeadLetterStore \<times> fsys"
  pl_sent :: "(GatewayATransaction \<times> GatewayATransaction \<times> bytes list) list"

text \<open>\<open>run_pipeline\<close> up to the start of the tasks; a private key that cannot be loaded ends it.\<close>

definition run_pipeline ::
    "stix_libs \<Rightarrow> crypto_lib \<Rightarrow> pb_lib \<Rightarrow> (bytes \<Rightarrow> bytes) \<Rightarrow> environ \<Rightarrow> fsys
       \<Rightarrow> (pipe_env \<times> pipeline) result" where
  "run_pipeline libs L pb compress env fs =
     rbind (GatewayAConfig_load env) (\<lambda>config.
     let in_queue = q_new (ingestion_queue_maxsize config);
         extracted_queue = q_new (extracted_queue_maxsize config);
         signed_queue = q_new (signed_queue_maxsize config);
         tx_queue = q_new (tx_queue_maxsize config);
         dlq = DeadLetterStore_init 500 ''results/phase4/dead_letter.jsonl'';
         misp_listener = \<lparr>ml_endpoint = misp_zmq_endpoint config, tags_filter = misp_tags_filter config\<rparr>
     in rbind (MlDsaSigner_init L fs (ca_ml_dsa_private_key_path config)) (\<lambda>signer.
        let signer_worker = SignerWorker_init L fs signer (ca_cert_path config);
            pep = OutboundPep_init main_policy
        in Inr (\<lparr>pe_listener = misp_listener, pe_libs = libs, pe_crypto = L, pe_compress = compress,
                 pe_signer = signer_worker, pe_pep = pep, pe_config = config, pe_pb = pb\<rparr>,
                \<lparr>pl_in = in_queue, pl_extracted = extracted_queue, pl_signed = signed_queue,
                 pl_tx = tx_queue, pl_hold_in = None, pl_hold_extracted = None,
                 pl_hold_signed = None, pl_hold_tx = None, pl_dead = (dlq, fs), pl_sent = []\<rparr>)))"

section \<open>Steps\<close>

inductive pipe_step :: "pipe_env \<Rightarrow> pipeline \<Rightarrow> pipeline \<Rightarrow> bool" for E :: pipe_env where
  receive: "pl_hold_in s = None \<Longrightarrow> on_message (pe_listener E) tnow m = Inr (Some e) \<Longrightarrow>
    pipe_step E s (s\<lparr>pl_hold_in := Some e\<rparr>)"
| put_in: "pl_hold_in s = Some e \<Longrightarrow> q_put e (pl_in s) = Some q \<Longrightarrow>
    pipe_step E s (s\<lparr>pl_hold_in := None, pl_in := q\<rparr>)"
| extract_event: "pl_hold_extracted s = None \<Longrightarrow> q_get (pl_in s) = Some (ev, q) \<Longrightarrow>
    extractor_turn (pe_libs E) fr ev = r \<Longrightarrow>
    pipe_step E s (s\<lparr>pl_in := q, pl_hold_extracted := (case r of Inr (Some t) \<Rightarrow> Some t | _ \<Rightarrow> None)\<rparr>)"
| put_extracted: "pl_hold_extracted s = Some t \<Longrightarrow> q_put t (pl_extracted s) = Some q \<Longrightarrow>
    pipe_step E s (s\<lparr>pl_hold_extracted := None, pl_extracted := q\<rparr>)"
| sign: "pl_hold_signed s = None \<Longrightarrow> q_get (pl_extracted s) = Some (t, q) \<Longrightarrow>
    signer_turn (pe_crypto E) (pe_compress E) (pe_signer E) tnow t = r \<Longrightarrow>
    pipe_step E s (s\<lparr>pl_extracted := q, pl_hold_signed := (case r of Inr t' \<Rightarrow> Some t' | _ \<Rightarrow> None)\<rparr>)"
| put_signed: "pl_hold_signed s = Some t \<Longrightarrow> q_put t (pl_signed s) = Some q \<Longrightarrow>
    pipe_step E s (s\<lparr>pl_hold_signed := None, pl_signed := q\<rparr>)"
| decide: "pl_hold_tx s = None \<Longrightarrow> q_get (pl_signed s) = Some (t, q) \<Longrightarrow>
    pep_turn (pe_pep E) t (pl_dead s) = (r, dl) \<Longrightarrow>
    pipe_step E s (s\<lparr>pl_signed := q, pl_dead := dl,
      pl_hold_tx := (case r of Inr (Some t') \<Rightarrow> Some t' | _ \<Rightarrow> None)\<rparr>)"
| put_tx: "pl_hold_tx s = Some t \<Longrightarrow> q_put t (pl_tx s) = Some q \<Longrightarrow>
    pipe_step E s (s\<lparr>pl_hold_tx := None, pl_tx := q\<rparr>)"
| transmit: "q_get (pl_tx s) = Some (t, q) \<Longrightarrow>
    process_outgoing (pe_config E) (pe_pb E) tnow net t
      \<lparr>tw_dead = pl_dead s, tw_sleeps = [], tw_written = []\<rparr> = (r, t', w) \<Longrightarrow>
    pipe_step E s (s\<lparr>pl_tx := q, pl_dead := tw_dead w, pl_sent := pl_sent s @ [(t, t', tw_written w)]\<rparr>)"

inductive_cases pipe_stepE: "pipe_step E s s'"

section \<open>Where transactions come from\<close>

definition was_extracted :: "pipe_env \<Rightarrow> GatewayATransaction \<Rightarrow> bool" where
  "was_extracted E t = (\<exists>fr ev. extractor_turn (pe_libs E) fr ev = Inr (Some t))"

definition was_signed :: "pipe_env \<Rightarrow> GatewayATransaction \<Rightarrow> bool" where
  "was_signed E t = (\<exists>t0 n. was_extracted E t0
     \<and> signer_turn (pe_crypto E) (pe_compress E) (pe_signer E) n t0 = Inr t)"

definition was_approved :: "pipe_env \<Rightarrow> GatewayATransaction \<Rightarrow> bool" where
  "was_approved E t = (\<exists>t0 b. was_signed E t0 \<and> t = t0\<lparr>tx_state := POLICY_APPROVED\<rparr>
     \<and> tx_bundle t0 = Some b \<and> fst (authorize (pe_pep E) (sb_tlp_marking b) (tx_recipient t0)))"

definition holds :: "('a \<Rightarrow> bool) \<Rightarrow> 'a option \<Rightarrow> bool" where
  "holds P o' = (case o' of None \<Rightarrow> True | Some x \<Rightarrow> P x)"

definition pipe_inv :: "pipe_env \<Rightarrow> pipeline \<Rightarrow> bool" where
  "pipe_inv E s =
     (list_all (was_extracted E) (q_items (pl_extracted s)) \<and> holds (was_extracted E) (pl_hold_extracted s)
      \<and> list_all (was_signed E) (q_items (pl_signed s)) \<and> holds (was_signed E) (pl_hold_signed s)
      \<and> list_all (was_approved E) (q_items (pl_tx s)) \<and> holds (was_approved E) (pl_hold_tx s)
      \<and> list_all (\<lambda>(t, _, _). was_approved E t) (pl_sent s)
      \<and> aq.within (pl_in s) \<and> aq.within (pl_extracted s) \<and> aq.within (pl_signed s) \<and> aq.within (pl_tx s)
      \<and> q_maxsize (pl_in s) = nat (ingestion_queue_maxsize (pe_config E))
      \<and> q_maxsize (pl_extracted s) = nat (extracted_queue_maxsize (pe_config E))
      \<and> q_maxsize (pl_signed s) = nat (signed_queue_maxsize (pe_config E))
      \<and> q_maxsize (pl_tx s) = nat (tx_queue_maxsize (pe_config E)))"

section \<open>Lemmas\<close>

lemma holds_simps [simp]: "holds P None" "holds P (Some x) = P x"
  by (simp_all add: holds_def)

lemma pep_turn_approved:
  "pep_turn pep t dl = (Inr (Some t'), dl') \<Longrightarrow>
     t' = t\<lparr>tx_state := POLICY_APPROVED\<rparr> \<and> dl' = dl
     \<and> (\<exists>b. tx_bundle t = Some b \<and> fst (authorize pep (sb_tlp_marking b) (tx_recipient t)))"
  by (auto simp: pep_turn_def split: option.splits prod.splits bool.splits)

lemma put_list_all: "q_put x q = Some q' \<Longrightarrow> list_all P (q_items q') \<longleftrightarrow> list_all P (q_items q) \<and> P x"
  by (auto dest: aqueue_put)

lemma get_list_all: "q_get q = Some (x, q') \<Longrightarrow> list_all P (q_items q) \<longleftrightarrow> P x \<and> list_all P (q_items q')"
  by (auto dest: aqueue_get)

lemma put_maxsize: "q_put x q = Some q' \<Longrightarrow> q_maxsize q' = q_maxsize q"
  and get_maxsize: "q_get q = Some (x, q') \<Longrightarrow> q_maxsize q' = q_maxsize q"
  by (auto dest: aqueue_put aqueue_get)

lemma pipe_step_inv:
  assumes "pipe_inv E s" "pipe_step E s s'"
  shows "pipe_inv E s'"
  using assms(2,1)
proof (cases rule: pipe_step.cases)
  case (receive tnow m e)
  then show ?thesis using assms(1) by (simp add: pipe_inv_def)
next
  case (put_in e q)
  then show ?thesis using assms(1) by (auto simp: pipe_inv_def put_maxsize intro: aq.put_within)
next
  case (extract_event ev q fr r)
  then show ?thesis using assms(1)
    by (auto simp: pipe_inv_def was_extracted_def get_maxsize intro: aq.get_within split: sum.split option.split)
next
  case (put_extracted t q)
  then show ?thesis using assms(1) by (auto simp: pipe_inv_def put_list_all put_maxsize intro: aq.put_within)
next
  case (sign t q tnow r)
  then have "was_extracted E t" using assms(1) by (simp add: pipe_inv_def get_list_all)
  with sign assms(1) show ?thesis
    by (auto simp: pipe_inv_def get_list_all was_signed_def get_maxsize intro: aq.get_within split: sum.split)
next
  case (put_signed t q)
  then show ?thesis using assms(1) by (auto simp: pipe_inv_def put_list_all put_maxsize intro: aq.put_within)
next
  case (decide t q r dl)
  then have "was_signed E t" using assms(1) by (simp add: pipe_inv_def get_list_all)
  with decide assms(1) show ?thesis
    by (auto simp: pipe_inv_def get_list_all was_approved_def get_maxsize dest: pep_turn_approved intro: aq.get_within
        split: sum.split option.split)
next
  case (put_tx t q)
  then show ?thesis using assms(1) by (auto simp: pipe_inv_def put_list_all put_maxsize intro: aq.put_within)
next
  case (transmit t q tnow net r t' w)
  then show ?thesis using assms(1) by (auto simp: pipe_inv_def get_list_all get_maxsize intro: aq.get_within)
qed

interpretation pipe: guarded_system "pipe_step E" "pipe_inv E" for E
  by unfold_locales (rule pipe_step_inv)

lemma run_pipeline_inv:
  assumes "run_pipeline libs L pb compress env fs = Inr (E, s)"
  shows "pipe_inv E s"
  using assms by (auto simp: run_pipeline_def Let_def pipe_inv_def aq.within_def q_new_def)

text \<open>What a transmission writes is the request frame of the transaction, perhaps repeatedly.\<close>

lemma frames_of_request: "f \<in> set (frames_of pb t a) \<Longrightarrow> request_frame pb t = Inr f"
  by (auto simp: frames_of_def send_envelope_def Let_def split: attempt.splits sum.splits)

lemma conclude_written [simp]: "tw_written (snd (conclude n res t w)) = tw_written w"
  by (simp add: conclude_def tx_acked_def tx_fail_def Let_def split: attempt_outcome.split)

lemma send_loop_written:
  "f \<in> set (tw_written (snd (send_loop c pb tnow net t w))) \<Longrightarrow>
     f \<in> set (tw_written w) \<or> request_frame pb t = Inr f"
proof (cases "tx_retry_count t < max_attempts c")
  case True
  assume "f \<in> set (tw_written (snd (send_loop c pb tnow net t w)))"
  then show ?thesis
    unfolding send_loop_spec [OF True] Let_def conclude_written
    by (auto simp: after_retries_def dest: frames_of_request)
next
  case False
  assume "f \<in> set (tw_written (snd (send_loop c pb tnow net t w)))"
  with False show ?thesis by (subst (asm) send_loop.simps) simp
qed

lemma process_outgoing_written:
  assumes "process_outgoing c pb tnow net t w = (r, t', w')" "tw_written w = []" "f \<in> set (tw_written w')"
  shows "request_frame pb t = Inr f"
  using assms send_loop_written [of f c pb tnow net t w]
  by (auto simp: process_outgoing_def tx_fail_def Let_def split: option.splits if_splits sum.splits)

text \<open>The record of what was sent holds only request frames.\<close>

definition sent_ok :: "pipe_env \<Rightarrow> pipeline \<Rightarrow> bool" where
  "sent_ok E s = (\<forall>(t, t', fs) \<in> set (pl_sent s). \<forall>f \<in> set fs. request_frame (pe_pb E) t = Inr f)"

lemma sent_ok_step: "sent_ok E s \<Longrightarrow> pipe_step E s s' \<Longrightarrow> sent_ok E s'"
  by (erule pipe_stepE) (auto simp: sent_ok_def dest!: process_outgoing_written)

interpretation sent: guarded_system "pipe_step E" "sent_ok E" for E
  by unfold_locales (rule sent_ok_step)

subsection \<open>What is sent\<close>

lemma was_extracted_fields: "was_extracted E t \<Longrightarrow> tx_recipient t = ''NIA''"
proof -
  assume "was_extracted E t"
  then obtain fr ev where e: "extractor_turn (pe_libs E) fr ev = Inr (Some t)"
    by (auto simp: was_extracted_def)
  then obtain b tel where "t = new_transaction (fr_uuid fr) (fr_created fr) (fr_created_ms fr) b VALIDATED tel"
    by (auto simp: extractor_turn_def split: option.splits)
  then show ?thesis by (simp add: new_transaction_def)
qed

lemma signer_turn_recipient: "signer_turn L z sw n t = Inr t' \<Longrightarrow> tx_recipient t' = tx_recipient t"
  by (auto simp: signer_turn_def Let_def split: option.splits)

lemma authorize_nia:
  "fst (authorize (OutboundPep_init main_policy) tlp ''NIA'') \<longleftrightarrow> tlp \<noteq> AMBER_STRICT"
  by (cases tlp) (auto simp: authorize_def OutboundPep_init_def main_policy_def)

lemma was_approved_facts:
  assumes a: "was_approved E t" and p: "pe_pep E = OutboundPep_init main_policy"
    and l: "signature_law (pe_crypto E)" and k: "signer_key (sw_signer (pe_signer E)) = Some k"
  shows "\<exists>b. tx_bundle t = Some b \<and> tx_state t = POLICY_APPROVED \<and> tx_recipient t = ''NIA''
    \<and> sb_tlp_marking b \<noteq> AMBER_STRICT \<and> tx_compressed t = Some (pe_compress E (raw_json b))
    \<and> (if vk_type (pub_of (pe_crypto E) k) = EcKey
        then ec_verify_prehashed (pe_crypto E) (pub_of (pe_crypto E) k) (tx_signature t)
          (sha256 (pe_compress E (raw_json b)))
        else mldsa_verify (pe_crypto E) (pub_of (pe_crypto E) k) (tx_signature t)
          (sha256 (pe_compress E (raw_json b))))"
proof -
  from a obtain s b where s: "was_signed E s" "t = s\<lparr>tx_state := POLICY_APPROVED\<rparr>"
    "tx_bundle s = Some b" "fst (authorize (pe_pep E) (sb_tlp_marking b) (tx_recipient s))"
    by (auto simp: was_approved_def)
  from s(1) obtain t0 n where t0: "was_extracted E t0"
    "signer_turn (pe_crypto E) (pe_compress E) (pe_signer E) n t0 = Inr s"
    by (auto simp: was_signed_def)
  have r: "tx_recipient s = ''NIA''"
    using was_extracted_fields [OF t0(1)] signer_turn_recipient [OF t0(2)] by simp
  with s(4) p have "sb_tlp_marking b \<noteq> AMBER_STRICT" by (simp add: authorize_nia)
  with signer_turn_verifies [OF l k t0(2)] s r show ?thesis by auto
qed

lemma run_pipeline_env:
  assumes "run_pipeline libs L pb compress env fs = Inr (E, s)"
  shows "pe_pep E = OutboundPep_init main_policy \<and> pe_crypto E = L \<and> pe_compress E = compress
    \<and> pe_pb E = pb \<and> sent_ok E s
    \<and> (\<exists>k. signer_key (sw_signer (pe_signer E)) = Some k
        \<and> load_private_key L (ca_ml_dsa_private_key_path (pe_config E)) fs = Inr k)"
  using assms
  by (auto simp: run_pipeline_def Let_def MlDsaSigner_init_def SignerWorker_init_def sent_ok_def)

text \<open>An idle pipeline: nothing queued, nothing held.\<close>

definition pipe_idle :: "pipeline \<Rightarrow> bool" where
  "pipe_idle s = (q_items (pl_in s) = [] \<and> q_items (pl_extracted s) = [] \<and> q_items (pl_signed s) = []
     \<and> q_items (pl_tx s) = [] \<and> pl_hold_in s = None \<and> pl_hold_extracted s = None
     \<and> pl_hold_signed s = None \<and> pl_hold_tx s = None)"

lemma idle_put_get: "q_items q = [] \<Longrightarrow> q_put x q = Some (q\<lparr>q_items := [x]\<rparr>)"
  and single_get: "q_get (q\<lparr>q_items := [x]\<rparr>) = Some (x, q\<lparr>q_items := []\<rparr>)"
  by (auto simp: q_put_def q_get_def)

text \<open>The path of one event through an idle pipeline.\<close>

lemma pipe_carries:
  assumes i: "pipe_idle s" and m: "on_message (pe_listener E) n0 msg = Inr (Some e)"
    and x: "extractor_turn (pe_libs E) fr e = Inr (Some t)"
    and g: "signer_turn (pe_crypto E) (pe_compress E) (pe_signer E) n1 t = Inr t1"
    and d: "pep_turn (pe_pep E) t1 (pl_dead s) = (Inr (Some t2), dl)"
    and o: "process_outgoing (pe_config E) (pe_pb E) n2 net t2
      \<lparr>tw_dead = dl, tw_sleeps = [], tw_written = []\<rparr> = (r, t3, w)"
  shows "\<exists>s'. (pipe_step E)\<^sup>*\<^sup>* s s' \<and> pl_sent s' = pl_sent s @ [(t2, t3, tw_written w)] \<and> pl_dead s' = tw_dead w"
proof -
  define s1 where "s1 = s\<lparr>pl_hold_in := Some e\<rparr>"
  define s2 where "s2 = s1\<lparr>pl_hold_in := None, pl_in := (pl_in s)\<lparr>q_items := [e]\<rparr>\<rparr>"
  define s3 where "s3 = s2\<lparr>pl_in := (pl_in s)\<lparr>q_items := []\<rparr>, pl_hold_extracted := Some t\<rparr>"
  define s4 where "s4 = s3\<lparr>pl_hold_extracted := None, pl_extracted := (pl_extracted s)\<lparr>q_items := [t]\<rparr>\<rparr>"
  define s5 where "s5 = s4\<lparr>pl_extracted := (pl_extracted s)\<lparr>q_items := []\<rparr>, pl_hold_signed := Some t1\<rparr>"
  define s6 where "s6 = s5\<lparr>pl_hold_signed := None, pl_signed := (pl_signed s)\<lparr>q_items := [t1]\<rparr>\<rparr>"
  define s7 where "s7 = s6\<lparr>pl_signed := (pl_signed s)\<lparr>q_items := []\<rparr>, pl_dead := dl, pl_hold_tx := Some t2\<rparr>"
  define s8 where "s8 = s7\<lparr>pl_hold_tx := None, pl_tx := (pl_tx s)\<lparr>q_items := [t2]\<rparr>\<rparr>"
  define s9 where "s9 = s8\<lparr>pl_tx := (pl_tx s)\<lparr>q_items := []\<rparr>, pl_dead := tw_dead w,
    pl_sent := pl_sent s8 @ [(t2, t3, tw_written w)]\<rparr>"
  note ss = s1_def s2_def s3_def s4_def s5_def s6_def s7_def s8_def s9_def
  have q: "q_put e (pl_in s) = Some ((pl_in s)\<lparr>q_items := [e]\<rparr>)"
    "q_put t (pl_extracted s) = Some ((pl_extracted s)\<lparr>q_items := [t]\<rparr>)"
    "q_put t1 (pl_signed s) = Some ((pl_signed s)\<lparr>q_items := [t1]\<rparr>)"
    "q_put t2 (pl_tx s) = Some ((pl_tx s)\<lparr>q_items := [t2]\<rparr>)"
    using i by (simp_all add: pipe_idle_def idle_put_get)
  have "pipe_step E s s1" unfolding s1_def using i m by (intro receive) (auto simp: pipe_idle_def)
  moreover have "pipe_step E s1 s2" unfolding s2_def using q(1) by (intro put_in) (auto simp: ss)
  moreover have "pipe_step E s2 s3"
    using extract_event [of s2 e "(pl_in s)\<lparr>q_items := []\<rparr>" E fr, OF _ _ x] i
    by (simp add: ss single_get pipe_idle_def)
  moreover have "pipe_step E s3 s4" unfolding s4_def using q(2) by (intro put_extracted) (auto simp: ss)
  moreover have "pipe_step E s4 s5"
    using sign [of s4 t "(pl_extracted s)\<lparr>q_items := []\<rparr>" E n1, OF _ _ g] i
    by (simp add: ss single_get pipe_idle_def)
  moreover have "pipe_step E s5 s6" unfolding s6_def using q(3) by (intro put_signed) (auto simp: ss)
  moreover have "pipe_step E s6 s7"
    using decide [of s6 t1 "(pl_signed s)\<lparr>q_items := []\<rparr>" E "Inr (Some t2)" dl] i d
    by (simp add: ss single_get pipe_idle_def)
  moreover have "pipe_step E s7 s8" unfolding s8_def using q(4) by (intro put_tx) (auto simp: ss)
  moreover have "pipe_step E s8 s9"
    using transmit [of s8 t2 "(pl_tx s)\<lparr>q_items := []\<rparr>" E n2 net r t3 w] o
    by (simp add: ss single_get)
  ultimately have "(pipe_step E)\<^sup>*\<^sup>* s s9" by (meson converse_rtranclp_into_rtranclp rtranclp.rtrancl_refl)
  moreover have "pl_sent s9 = pl_sent s @ [(t2, t3, tw_written w)]" "pl_dead s9 = tw_dead w" by (simp_all add: ss)
  ultimately show ?thesis by blast
qed

lemma run_pipeline_idle:
  "run_pipeline libs L pb compress env fs = Inr (E, s) \<Longrightarrow> pipe_idle s \<and> pl_sent s = []"
  by (auto simp: run_pipeline_def Let_def pipe_idle_def q_new_def)

subsection \<open>A run for the witnesses\<close>

definition demo_key_fs :: fsys where
  "demo_key_fs = write_file ''/app/pki/gateway_raw/raw_ml_dsa65.pem''
     (pem_private demo_crypto (gen_mldsa demo_crypto 7)) fs_empty"

lemma demo_cfg_ints:
  "py_int ''4'' = Inr 4" "py_int ''100'' = Inr 100" "py_int ''50'' = Inr 50" "py_int ''20'' = Inr 20"
  "py_int ''3'' = Inr 3" "py_int ''200'' = Inr 200" "py_int ''2'' = Inr 2"
  by (simp_all add: py_int_def str_strip_def is_space_def is_digit_def digit_val_def)

lemma demo_start:
  obtains E s0 where "run_pipeline demo_stix_libs demo_crypto json_pb id Map.empty demo_key_fs = Inr (E, s0)"
    "pe_libs E = demo_stix_libs" "tags_filter (pe_listener E) = [''share:NIA'', ''tlp:amber'']"
    "tx_queue_maxsize (pe_config E) = 20"
proof -
  have "load_private_key demo_crypto ''/app/pki/gateway_raw/raw_ml_dsa65.pem'' demo_key_fs
      = Inr (gen_mldsa demo_crypto 7)"
    by (simp add: load_private_key_def read_file_def demo_key_fs_def pem_lawsD [OF demo_crypto_laws(1)])
  then have "\<exists>E s0. run_pipeline demo_stix_libs demo_crypto json_pb id Map.empty demo_key_fs = Inr (E, s0)
      \<and> pe_libs E = demo_stix_libs \<and> tags_filter (pe_listener E) = [''share:NIA'', ''tlp:amber'']
      \<and> tx_queue_maxsize (pe_config E) = 20"
    by (simp add: run_pipeline_def GatewayAConfig_load_def getenv_def demo_cfg_ints Let_def MlDsaSigner_init_def)
  then show thesis using that by blast
qed

lemma demo_sent:
  obtains E s0 s t t' frames where
    "run_pipeline demo_stix_libs demo_crypto json_pb id Map.empty demo_key_fs = Inr (E, s0)"
    "(pipe_step E)\<^sup>*\<^sup>* s0 s" "(t, t', frames) \<in> set (pl_sent s)" "tx_queue_maxsize (pe_config E) = 20"
proof -
  obtain E s0 where r: "run_pipeline demo_stix_libs demo_crypto json_pb id Map.empty demo_key_fs = Inr (E, s0)"
    and l: "pe_libs E = demo_stix_libs" "tags_filter (pe_listener E) = [''share:NIA'', ''tlp:amber'']"
    and q: "tx_queue_maxsize (pe_config E) = 20"
    by (rule demo_start)
  note env = run_pipeline_env [OF r]
  let ?e = "VDict (AList.update ''_t_received'' (VInt 5) [(''Event'', VDict [(''uuid'', VStr ''u-1''),
     (''Tag'', VList [tagged ''share:NIA'', tagged ''tlp:green''])])])"
  have p: "str_partition (CHR '' '') (''misp_json '' @ json_dumps demo_event)
      = (''misp_json'', '' '', json_dumps demo_event)" by simp
  have "is_relevant (pe_listener E) demo_event = Inr True"
    by (simp add: is_relevant_def l demo_event_def tag_name_of_def tagged_def)
  then have m: "on_message (pe_listener E) 5 (''misp_json '' @ json_dumps demo_event) = Inr (Some ?e)"
    unfolding on_message_def p prod.case json_loads_dumps [OF demo_event_ok]
    by simp (simp add: demo_event_def)
  have "valid_text ''{}''" by (simp add: ascii_valid ascii_def)
  then have "\<exists>t b. extractor_turn (pe_libs E) demo_fresh ?e = Inr (Some t) \<and> tx_bundle t = Some b
      \<and> sb_tlp_marking b = GREEN \<and> tx_recipient t = ''NIA''"
    by (simp add: l extractor_turn_def convert_and_validate_def convert_event_def event_uuid_def
        demo_stix_libs_def tlp_of_tags_def lower_tag_name_def tagged_def encode_utf8_def tlp_step_def
        lower_lits new_transaction_def str_lower_def lower_char_def less_eq_char_def char_of_eq_iff)
  then obtain t b where x: "extractor_turn (pe_libs E) demo_fresh ?e = Inr (Some t)"
    and t: "tx_bundle t = Some b" "sb_tlp_marking b = GREEN" "tx_recipient t = ''NIA''" by blast
  from env obtain k where k: "signer_key (sw_signer (pe_signer E)) = Some k" and c: "pe_crypto E = demo_crypto"
    by blast
  have "\<exists>t1. signer_turn (pe_crypto E) (pe_compress E) (pe_signer E) 6 t = Inr t1"
    by (simp add: signer_turn_def t c signer_sign_def k Let_def) (simp add: demo_crypto_def)
  then obtain t1 where g: "signer_turn (pe_crypto E) (pe_compress E) (pe_signer E) 6 t = Inr t1" ..
  from signer_turn_verifies [OF _ k g] c demo_crypto_laws(4) t
  have t1: "tx_bundle t1 = Some b" "tx_recipient t1 = ''NIA''" by auto
  have d: "pep_turn (pe_pep E) t1 (pl_dead s0) = (Inr (Some (t1\<lparr>tx_state := POLICY_APPROVED\<rparr>)), pl_dead s0)"
    using env t1 t(2) by (simp add: pep_turn_def authorize_def OutboundPep_init_def main_policy_def)
  obtain res t3 w where o: "process_outgoing (pe_config E) (pe_pb E) 7 (\<lambda>_. ConnectError)
      (t1\<lparr>tx_state := POLICY_APPROVED\<rparr>) \<lparr>tw_dead = pl_dead s0, tw_sleeps = [], tw_written = []\<rparr> = (res, t3, w)"
    by (metis prod.exhaust)
  from pipe_carries [OF conjunct1 [OF run_pipeline_idle [OF r]] m x g d o] obtain s where
    "(pipe_step E)\<^sup>*\<^sup>* s0 s" "(t1\<lparr>tx_state := POLICY_APPROVED\<rparr>, t3, tw_written w) \<in> set (pl_sent s)" by auto
  with r q that show thesis by blast
qed

section \<open>Properties\<close>

text \<open>
  C13: only what was validated, signed and approved leaves Gateway A. However the workers
  interleave, every transaction handed to the transmitter has a bundle not marked
  \<open>tlp:amber+strict\<close>, is addressed to NIA, carries the compression of that bundle with a signature
  that verifies under the configured signing key, and every frame written for it is its own
  request frame.
\<close>

theorem only_approved_leaves:
  assumes "run_pipeline libs L pb compress env fs = Inr (E, s0)" and "(pipe_step E)\<^sup>*\<^sup>* s0 s"
    and "signature_law L" and "(t, t', frames) \<in> set (pl_sent s)"
  shows "\<exists>b k. tx_bundle t = Some b \<and> tx_state t = POLICY_APPROVED \<and> tx_recipient t = ''NIA''
    \<and> sb_tlp_marking b \<noteq> AMBER_STRICT \<and> tx_compressed t = Some (compress (raw_json b))
    \<and> load_private_key L (ca_ml_dsa_private_key_path (pe_config E)) fs = Inr k
    \<and> (if vk_type (pub_of L k) = EcKey
        then ec_verify_prehashed L (pub_of L k) (tx_signature t) (sha256 (compress (raw_json b)))
        else mldsa_verify L (pub_of L k) (tx_signature t) (sha256 (compress (raw_json b))))
    \<and> (\<forall>f \<in> set frames. request_frame pb t = Inr f)"
proof -
  note e = run_pipeline_env [OF assms(1)]
  then obtain k where k: "signer_key (sw_signer (pe_signer E)) = Some k"
    "load_private_key L (ca_ml_dsa_private_key_path (pe_config E)) fs = Inr k" by blast
  from pipe.reach_inv [OF assms(2) run_pipeline_inv [OF assms(1)]] assms(4)
  have "was_approved E t" by (auto simp: pipe_inv_def list_all_iff)
  from was_approved_facts [OF this _ _ k(1)] e assms(3) obtain b where
    "tx_bundle t = Some b" "tx_state t = POLICY_APPROVED" "tx_recipient t = ''NIA''"
    "sb_tlp_marking b \<noteq> AMBER_STRICT" "tx_compressed t = Some (compress (raw_json b))"
    "if vk_type (pub_of L k) = EcKey
      then ec_verify_prehashed L (pub_of L k) (tx_signature t) (sha256 (compress (raw_json b)))
      else mldsa_verify L (pub_of L k) (tx_signature t) (sha256 (compress (raw_json b)))" by auto
  moreover from sent.reach_inv [OF assms(2)] e assms(4) have "\<forall>f \<in> set frames. request_frame pb t = Inr f"
    by (fastforce simp: sent_ok_def)
  ultimately show ?thesis using k(2) by blast
qed

theorem only_approved_leaves_witness:
  "\<exists>E s0 s t t' frames b. run_pipeline demo_stix_libs demo_crypto json_pb id Map.empty demo_key_fs = Inr (E, s0)
    \<and> (pipe_step E)\<^sup>*\<^sup>* s0 s \<and> (t, t', frames) \<in> set (pl_sent s)
    \<and> tx_bundle t = Some b \<and> sb_tlp_marking b \<noteq> AMBER_STRICT \<and> tx_compressed t = Some (raw_json b)"
proof -
  obtain E s0 s t t' frames where
    r: "run_pipeline demo_stix_libs demo_crypto json_pb id Map.empty demo_key_fs = Inr (E, s0)"
      "(pipe_step E)\<^sup>*\<^sup>* s0 s" "(t, t', frames) \<in> set (pl_sent s)" by (rule demo_sent)
  from only_approved_leaves [OF r(1,2) demo_crypto_laws(4) r(3)] obtain b where
    "tx_bundle t = Some b" "sb_tlp_marking b \<noteq> AMBER_STRICT" "tx_compressed t = Some (raw_json b)" by auto
  with r show ?thesis by blast
qed

text \<open>
  C14: the queues between the workers stay within their configured sizes (zero or less being no
  bound), so a slow stage holds up the ones before it instead of filling memory.
\<close>

theorem pipeline_queues_bounded:
  assumes "run_pipeline libs L pb compress env fs = Inr (E, s0)" and "(pipe_step E)\<^sup>*\<^sup>* s0 s"
  shows "(0 < ingestion_queue_maxsize (pe_config E) \<longrightarrow>
      int (length (q_items (pl_in s))) \<le> ingestion_queue_maxsize (pe_config E))
    \<and> (0 < extracted_queue_maxsize (pe_config E) \<longrightarrow>
      int (length (q_items (pl_extracted s))) \<le> extracted_queue_maxsize (pe_config E))
    \<and> (0 < signed_queue_maxsize (pe_config E) \<longrightarrow>
      int (length (q_items (pl_signed s))) \<le> signed_queue_maxsize (pe_config E))
    \<and> (0 < tx_queue_maxsize (pe_config E) \<longrightarrow>
      int (length (q_items (pl_tx s))) \<le> tx_queue_maxsize (pe_config E))"
  using pipe.reach_inv [OF assms(2) run_pipeline_inv [OF assms(1)]]
  by (auto simp: pipe_inv_def aq.within_def nat_le_iff)

theorem pipeline_queues_bounded_witness:
  "\<exists>E s0 s. run_pipeline demo_stix_libs demo_crypto json_pb id Map.empty demo_key_fs = Inr (E, s0)
    \<and> (pipe_step E)\<^sup>*\<^sup>* s0 s \<and> int (length (q_items (pl_tx s))) \<le> 20"
proof -
  obtain E s0 s t t' frames where
    r: "run_pipeline demo_stix_libs demo_crypto json_pb id Map.empty demo_key_fs = Inr (E, s0)"
      "(pipe_step E)\<^sup>*\<^sup>* s0 s" "(t, t', frames) \<in> set (pl_sent s)"
    and q: "tx_queue_maxsize (pe_config E) = 20" by (rule demo_sent)
  have "int (length (q_items (pl_tx s))) \<le> 20"
    using pipeline_queues_bounded [OF r(1,2)] unfolding q by simp
  with r(1,2) show ?thesis by blast
qed

text \<open>
  C30: a stricter marking is lost. If an event is tagged \<open>tlp:amber+strict\<close> and a later tag names a
  weaker marking \<open>m\<close> (and no tag after that one names a marking), then the transaction that is
  extracted from the event carries \<open>m\<close>, it keeps it when it is signed, and the outbound policy of
  \<open>run_pipeline\<close> passes it on to NIA, although the policy allows no recipient whatever for
  \<open>tlp:amber+strict\<close>.
\<close>

theorem stricter_tag_is_lost:
  assumes "extractor_turn libs fr ev = Inr (Some t)" and "signer_turn L compress sw tnow t = Inr t1"
    and "event_tag_names ev = Inr (xs @ ''tlp:amber+strict'' # ys @ n # zs)"
    and "tlp_of_name n = Some m" and "m \<noteq> AMBER_STRICT" and "\<forall>z \<in> set zs. tlp_of_name z = None"
  shows "(\<exists>b. tx_bundle t1 = Some b \<and> sb_tlp_marking b = m)
    \<and> pep_turn (OutboundPep_init main_policy) t1 dl = (Inr (Some (t1\<lparr>tx_state := POLICY_APPROVED\<rparr>)), dl)
    \<and> \<not> fst (authorize (OutboundPep_init main_policy) AMBER_STRICT rcp)"
proof -
  have "List.map_filter tlp_of_name zs = []" using assms(6) by (induction zs) (simp_all add: map_filter_simps)
  then have "last (AMBER # List.map_filter tlp_of_name (xs @ ''tlp:amber+strict'' # ys @ n # zs)) = m"
    using assms(4) by (simp add: map_filter_def)
  with extracted_marking [OF assms(1)] assms(3) obtain b where
    b: "tx_bundle t = Some b" "sb_tlp_marking b = m" "tx_recipient t = ''NIA''" by auto
  with assms(2) have t1: "tx_bundle t1 = Some b" "tx_recipient t1 = ''NIA''"
    by (auto simp: signer_turn_def Let_def)
  have "fst (authorize (OutboundPep_init main_policy) m ''NIA'')"
    using assms(5) by (cases m) (simp_all add: authorize_def OutboundPep_init_def main_policy_def)
  then have "pep_turn (OutboundPep_init main_policy) t1 dl = (Inr (Some (t1\<lparr>tx_state := POLICY_APPROVED\<rparr>)), dl)"
    using b t1 by (auto simp: pep_turn_def split: prod.split bool.split)
  moreover have "\<not> fst (authorize (OutboundPep_init main_policy) AMBER_STRICT rcp)"
    by (simp add: authorize_def OutboundPep_init_def main_policy_def)
  ultimately show ?thesis using b t1 by simp
qed

theorem stricter_tag_is_lost_witness:
  "\<exists>t t1 b. extractor_turn demo_stix_libs demo_fresh demo_strict_event = Inr (Some t)
    \<and> signer_turn demo_crypto id \<lparr>sw_signer = \<lparr>private_key_path = ''k'', signer_key = Some (gen_mldsa demo_crypto 7)\<rparr>,
         cert_fingerprint = ''ab''\<rparr> 5 t = Inr t1
    \<and> tx_bundle t1 = Some b \<and> sb_tlp_marking b = GREEN
    \<and> fst (pep_turn (OutboundPep_init main_policy) t1 (DeadLetterStore_init 500 ''d'', fs_empty))
        = Inr (Some (t1\<lparr>tx_state := POLICY_APPROVED\<rparr>))"
proof -
  let ?sw = "\<lparr>sw_signer = \<lparr>private_key_path = ''k'', signer_key = Some (gen_mldsa demo_crypto 7)\<rparr>, cert_fingerprint = ''ab''\<rparr>"
  from demo_strict(2) obtain t where t: "extractor_turn demo_stix_libs demo_fresh demo_strict_event = Inr (Some t)" ..
  from extracted_marking [OF t] obtain b where "tx_bundle t = Some b" by blast
  then have "\<exists>t1. signer_turn demo_crypto id ?sw 5 t = Inr t1"
    by (simp add: signer_turn_def signer_sign_def Let_def) (simp add: demo_crypto_def)
  then obtain t1 where t1: "signer_turn demo_crypto id ?sw 5 t = Inr t1" ..
  have n: "event_tag_names demo_strict_event = Inr ([] @ ''tlp:amber+strict'' # [] @ ''tlp:green'' # [''tlp:red''])"
    by (simp add: demo_strict(1))
  have m: "tlp_of_name ''tlp:green'' = Some GREEN" "GREEN \<noteq> AMBER_STRICT" "\<forall>z \<in> set [''tlp:red'']. tlp_of_name z = None"
    by (simp_all add: tlp_of_name_def)
  from stricter_tag_is_lost [OF t t1 n m] t t1 show ?thesis by auto
qed

end
