(* ===== verification/Gateway_B_Trust.thy ===== *)
theory Gateway_B_Trust
  imports Qstie_Trust
begin

text \<open>
  What Gateway B trusts: the trust store (\<open>gateway_b/trust/cert_store.py\<close>), loaded from the trust
  bundle and the revocation list, and the signature verifier with its cache of public keys
  (\<open>gateway_b/crypto/verifier.py\<close>).

  Keys of the dictionaries and members of the revocation set are whatever the YAML documents
  hold; two of them are equal when they are the same value of the model (numbers of different
  types are not identified).
\<close>

section \<open>The trust store\<close>

record TrustStore =
  trust_store_path :: string
  revocation_list_path :: string
  ts_pki_base_dir :: string
  agencies :: "pyval \<rightharpoonup> pyval"
  revoked_fingerprints :: "pyval set"

text \<open>One turn of each loop of \<open>load\<close>.\<close>

definition add_agency :: "pyval \<Rightarrow> (pyval \<rightharpoonup> pyval) \<Rightarrow> (pyval \<rightharpoonup> pyval) result" where
  "add_agency agency m =
     rbind (py_getitem agency ''agency_id'') (\<lambda>k.
       if hashable k then Inr (m(k \<mapsto> agency)) else Inl TypeError)"

definition add_revoked :: "pyval \<Rightarrow> pyval set \<Rightarrow> pyval set result" where
  "add_revoked cert s =
     rbind (py_getitem cert ''fingerprint'') (\<lambda>f.
       if hashable f then Inr (insert f s) else Inl TypeError)"

definition load_agencies :: "yaml_lib \<Rightarrow> string \<Rightarrow> fsys \<Rightarrow> (pyval \<rightharpoonup> pyval) result" where
  "load_agencies y path fs =
     rbind (rbind (read_file path fs) (load_yaml y)) (\<lambda>data.
       if \<not> is_dict data then Inl ValueError
       else rbind (py_in ''trusted_agencies'' data) (\<lambda>has.
         if \<not> has then Inl ValueError
         else rbind (py_get data ''trusted_agencies'' (VList [])) (\<lambda>v.
              rbind (py_iter v) (\<lambda>items. rfold add_agency items Map.empty))))"

definition load_revoked :: "yaml_lib \<Rightarrow> string \<Rightarrow> fsys \<Rightarrow> pyval set result" where
  "load_revoked y path fs =
     rbind (rbind (read_file path fs) (load_yaml y)) (\<lambda>rev_data.
       if \<not> truthy rev_data then Inr {}
       else rbind (py_in ''revoked_certificates'' rev_data) (\<lambda>has.
         if \<not> has then Inr {}
         else rbind (py_getitem rev_data ''revoked_certificates'') (\<lambda>v.
              rbind (py_iter v) (\<lambda>items. rfold add_revoked items {}))))"

text \<open>
  The constructor. A missing revocation list raises \<open>FileNotFoundError\<close> again, so the handler
  changes only its message.
\<close>

definition TrustStore_init :: "yaml_lib \<Rightarrow> string \<Rightarrow> string \<Rightarrow> fsys \<Rightarrow> TrustStore result" where
  "TrustStore_init y tpath rpath fs =
     rbind (load_agencies y tpath fs) (\<lambda>ags.
     rbind (load_revoked y rpath fs) (\<lambda>revs.
       Inr \<lparr>trust_store_path = tpath, revocation_list_path = rpath,
            ts_pki_base_dir = path_dirname tpath, agencies = ags, revoked_fingerprints = revs\<rparr>))"

definition get_agency :: "TrustStore \<Rightarrow> string \<Rightarrow> pyval" where
  "get_agency ts a = (case agencies ts (VStr a) of None \<Rightarrow> VNone | Some v \<Rightarrow> v)"

definition is_revoked :: "TrustStore \<Rightarrow> pyval \<Rightarrow> bool result" where
  "is_revoked ts f = (if hashable f then Inr (f \<in> revoked_fingerprints ts) else Inl TypeError)"

section \<open>The verifier\<close>

record MLDSAVerifier =
  pki_base_dir :: string
  public_keys :: "pyval \<rightharpoonup> public_key"

definition MLDSAVerifier_init :: "string \<Rightarrow> MLDSAVerifier" where
  "MLDSAVerifier_init base = \<lparr>pki_base_dir = base, public_keys = Map.empty\<rparr>"

definition load_public_key ::
    "crypto_lib \<Rightarrow> fsys \<Rightarrow> pyval \<Rightarrow> MLDSAVerifier \<Rightarrow> public_key result \<times> MLDSAVerifier" where
  "load_public_key L fs pubkey_path v =
     (if \<not> hashable pubkey_path then (Inl TypeError, v)
      else case public_keys v pubkey_path of
        Some k \<Rightarrow> (Inr k, v)
      | None \<Rightarrow>
          (let full_path = pki_base_dir v @ ''/'' @ py_str pubkey_path
           in case load_public_key_file L full_path fs of
                Inl e \<Rightarrow> (Inl e, v)
              | Inr pubkey \<Rightarrow>
                  (Inr pubkey, v\<lparr>public_keys := (public_keys v)(pubkey_path \<mapsto> pubkey)\<rparr>)))"

definition key_verify :: "crypto_lib \<Rightarrow> public_key \<Rightarrow> bytes \<Rightarrow> bytes \<Rightarrow> bool" where
  "key_verify L pubkey sig digest =
     (if vk_type pubkey = EcKey then ec_verify_prehashed L pubkey sig digest
      else mldsa_verify L pubkey sig digest)"

definition verify_signature ::
    "crypto_lib \<Rightarrow> fsys \<Rightarrow> bytes \<Rightarrow> bytes \<Rightarrow> pyval \<Rightarrow> MLDSAVerifier \<Rightarrow> bool \<times> MLDSAVerifier" where
  "verify_signature L fs compressed_payload sig pubkey_path v =
     (let digest = sha256 compressed_payload
      in case load_public_key L fs pubkey_path v of
           (Inl _, v') \<Rightarrow> (False, v')
         | (Inr pubkey, v') \<Rightarrow> (key_verify L pubkey sig digest, v'))"

section \<open>Lemmas\<close>

subsection \<open>The cache\<close>

text \<open>Every cached key is the one its file holds.\<close>

definition cache_ok :: "crypto_lib \<Rightarrow> fsys \<Rightarrow> MLDSAVerifier \<Rightarrow> bool" where
  "cache_ok L fs v = (\<forall>p k. public_keys v p = Some k \<longrightarrow>
     hashable p \<and> load_public_key_file L (pki_base_dir v @ ''/'' @ py_str p) fs = Inr k)"

text \<open>Verification that reads the key file each time.\<close>

definition verify_uncached ::
    "crypto_lib \<Rightarrow> fsys \<Rightarrow> string \<Rightarrow> bytes \<Rightarrow> bytes \<Rightarrow> pyval \<Rightarrow> bool" where
  "verify_uncached L fs base payload sig p =
     (hashable p \<and> (case load_public_key_file L (base @ ''/'' @ py_str p) fs of
        Inl _ \<Rightarrow> False | Inr k \<Rightarrow> key_verify L k sig (sha256 payload)))"

lemma cache_ok_init [simp]: "cache_ok L fs (MLDSAVerifier_init base)"
  by (simp add: cache_ok_def MLDSAVerifier_init_def)

lemma base_verify [simp]:
  "verify_signature L fs payload sig p v = (b, v') \<Longrightarrow> pki_base_dir v' = pki_base_dir v"
  by (auto simp: verify_signature_def load_public_key_def Let_def split: if_splits option.splits sum.splits)

lemma load_public_key_cached:
  assumes "cache_ok L fs v"
  shows "fst (load_public_key L fs p v) = (if hashable p
      then load_public_key_file L (pki_base_dir v @ ''/'' @ py_str p) fs else Inl TypeError)"
    and "cache_ok L fs (snd (load_public_key L fs p v))"
proof -
  show "fst (load_public_key L fs p v) = (if hashable p
      then load_public_key_file L (pki_base_dir v @ ''/'' @ py_str p) fs else Inl TypeError)"
    using assms by (auto simp: load_public_key_def cache_ok_def Let_def split: option.splits sum.split)
  show "cache_ok L fs (snd (load_public_key L fs p v))"
    using assms by (simp add: load_public_key_def Let_def split: option.splits sum.split)
      (simp add: cache_ok_def)
qed

lemma verify_signature_fst_snd:
  "verify_signature L fs payload sig p v =
     (case fst (load_public_key L fs p v) of Inl _ \<Rightarrow> False | Inr k \<Rightarrow> key_verify L k sig (sha256 payload),
      snd (load_public_key L fs p v))"
  by (simp add: verify_signature_def Let_def split: prod.split sum.split)

lemma verify_signature_cached:
  assumes "cache_ok L fs v"
  shows "fst (verify_signature L fs payload sig p v)
      = verify_uncached L fs (pki_base_dir v) payload sig p
    \<and> cache_ok L fs (snd (verify_signature L fs payload sig p v))"
  unfolding verify_signature_fst_snd fst_conv snd_conv load_public_key_cached(1) [OF assms]
    verify_uncached_def
  using load_public_key_cached(2) [OF assms] by (cases "hashable p") simp_all

subsection \<open>Loading an exported bundle\<close>

lemma tb_val_plain:
  "list_all valid_text [agency_id e, payload_signing_public_key_path e,
     payload_signing_public_key_fingerprint e, tls_certificate_fingerprint e, issue_timestamp e,
     expiry_timestamp e] \<Longrightarrow> yaml_plain (tb_val e)"
  by (simp add: tb_val_def)

lemma tb_val_get:
  "py_getitem (sort_keys (tb_val e)) ''agency_id'' = Inr (VStr (agency_id e))"
  "py_getitem (sort_keys (tb_val e)) ''payload_signing_public_key_path''
     = Inr (VStr (payload_signing_public_key_path e))"
  "py_getitem (sort_keys (tb_val e)) ''payload_signing_public_key_fingerprint''
     = Inr (VStr (payload_signing_public_key_fingerprint e))"
  "py_getitem (sort_keys (tb_val e)) ''tls_certificate_fingerprint''
     = Inr (VStr (tls_certificate_fingerprint e))"
  by (simp_all add: tb_val_def map_of_sort_key del: sort_key_simps)

lemma truthy_sort_keys [simp]: "truthy (sort_keys v) = truthy v"
proof (cases v)
  case (VDict d)
  have "length (sort_key fst (map (map_prod id sort_keys) d)) = length d" by simp
  then show ?thesis using VDict by (metis sort_keys.simps(7) truthy.simps(7) length_0_conv)
qed auto

lemma truthy_tb_val [simp]: "truthy (tb_val e)"
  by (simp add: tb_val_def)

text \<open>The entries in order, a later one replacing an earlier one of the same agency.\<close>

fun agency_map :: "TrustBundleEntry list \<Rightarrow> (pyval \<rightharpoonup> pyval) \<Rightarrow> (pyval \<rightharpoonup> pyval)" where
  "agency_map [] m = m"
| "agency_map (e # es) m = agency_map es (m(VStr (agency_id e) \<mapsto> sort_keys (tb_val e)))"

lemma add_agencies:
  "rfold add_agency (map (sort_keys \<circ> tb_val) es) m = Inr (agency_map es m)"
  by (induction es arbitrary: m) (auto simp: add_agency_def tb_val_get)

lemma agency_map_lookup:
  "distinct (map agency_id es) \<Longrightarrow> e \<in> set es \<Longrightarrow>
     agency_map es m (VStr (agency_id e)) = Some (sort_keys (tb_val e))"
proof (induction es arbitrary: m)
  case (Cons a es)
  have other: "agency_map es m' (VStr x) = m' (VStr x)" if "x \<notin> agency_id ` set es" for m' x
    using that by (induction es arbitrary: m') auto
  from Cons show ?case by (auto simp: other)
qed simp

definition entry_plain :: "TrustBundleEntry \<Rightarrow> bool" where
  "entry_plain e = list_all valid_text [agency_id e, payload_signing_public_key_path e,
     payload_signing_public_key_fingerprint e, tls_certificate_fingerprint e, issue_timestamp e,
     expiry_timestamp e]"

lemma load_agencies_saved:
  assumes "yaml_roundtrip y" "list_all entry_plain (tb_entries tb)"
    and "files fs' p = files (tb_save y p tb fs) p"
  shows "load_agencies y p fs' = Inr (agency_map (tb_entries tb) Map.empty)"
proof -
  let ?d = "VDict [(''trusted_agencies'', VList (map tb_val (tb_entries tb)))]"
  have "yaml_plain ?d"
    using assms(2) by (auto simp: list_all_iff entry_plain_def intro!: tb_val_plain)
  with assms(1) have "yaml_safe_load y (yaml_dump y ?d) = Some (sort_keys ?d)"
    by (simp add: yaml_roundtrip_def)
  then show ?thesis
    using assms(3)
    by (simp add: load_agencies_def tb_save_def read_file_def load_yaml_def add_agencies [simplified])
qed

text \<open>A document without the key \<open>revoked_certificates\<close> revokes nothing.\<close>

lemma load_revoked_saved:
  assumes "yaml_roundtrip y" "list_all rev_plain (rl_entries rl)"
    and "files fs' p = files (rl_save y p rl fs) p"
  shows "load_revoked y p fs' = Inr {}"
proof -
  let ?d = "VDict [(''revoked'', VList (map rev_val (rl_entries rl)))]"
  have "yaml_plain ?d" using assms(2) by (auto simp: list_all_iff rev_val_plain)
  with assms(1) have "yaml_safe_load y (yaml_dump y ?d) = Some (sort_keys ?d)"
    by (simp add: yaml_roundtrip_def)
  then show ?thesis
    using assms(3) by (simp add: load_revoked_def rl_save_def read_file_def load_yaml_def)
qed

subsection \<open>Paths and names in the tree\<close>

lemma lower_char_ascii: "of_char c < (128::nat) \<Longrightarrow> of_char (lower_char c) < (128::nat)"
  by (auto simp: lower_char_def less_eq_char_def of_char_of)

lemma ascii_lower: "ascii s \<Longrightarrow> ascii (str_lower s)"
  by (auto simp: ascii_def str_lower_def octets_def list_all_iff lower_char_ascii)

lemma lower_char_slash: "lower_char c = CHR ''/'' \<Longrightarrow> c = CHR ''/''"
proof -
  assume l: "lower_char c = CHR ''/''"
  show ?thesis
  proof (cases "CHR ''A'' \<le> c \<and> c \<le> CHR ''Z''")
    case True
    then have "of_char (lower_char c) = (of_char c + 32 :: nat)"
      by (auto simp: lower_char_def less_eq_char_def of_char_of)
    with l True show ?thesis by (simp add: less_eq_char_def)
  qed (use l in \<open>auto simp: lower_char_def split: if_splits\<close>)
qed

lemma slash_lower: "CHR ''/'' \<notin> set s \<Longrightarrow> CHR ''/'' \<notin> set (str_lower s)"
  using lower_char_slash by (fastforce simp: str_lower_def)

lemma ascii_append [simp]: "ascii (s @ t) \<longleftrightarrow> ascii s \<and> ascii t"
  by (simp add: ascii_def)

lemma hex_char_ascii: "is_lower_hex c \<Longrightarrow> of_char c < (128 :: nat)"
  by (auto simp: is_lower_hex_def)

lemma ascii_hex: "ascii (hex_bytes b)"
  by (auto simp: ascii_def octets_def list_all_iff intro: hex_char_ascii hex_bytes_lower)

text \<open>The path the bundle holds, below the root of the tree, is the path the tool wrote.\<close>

lemma pub_path_below_root:
  assumes "root \<noteq> []" "last root \<noteq> CHR ''/''" "CHR ''/'' \<notin> set al" "t \<noteq> []" "hd t \<noteq> CHR ''/''"
  shows "path_join (path_join root (''gateway_'' @ al)) (al @ t)
    = root @ ''/'' @ ''gateway_'' @ al @ ''/'' @ al @ t"
proof -
  have r: "\<not> suffix ''/'' root" using assms(1,2) by (auto simp: suffix_def)
  have "last (''gateway_'' @ al) \<noteq> CHR ''/''" using assms(3) by (cases al rule: rev_cases) auto
  then have g: "\<not> suffix ''/'' (root @ ''/'' @ ''gateway_'' @ al)" by (auto simp: suffix_def dest!: arg_cong [of _ _ last])
  have "\<not> prefix ''/'' (al @ t)" using assms(3-5) by (cases al; cases t) auto
  then show ?thesis using r g assms(1) by (simp add: path_join_def)
qed

section \<open>Properties\<close>

text \<open>
  C22: the key cache is transparent. While the key files do not change, every verdict of the
  verifier is the one obtained by reading the key file anew, for every payload, signature and
  path, and the cache stays consistent with the files.
\<close>

theorem verifier_cache_transparent:
  assumes "cache_ok L fs v"
  shows "fst (verify_signature L fs payload sig p v)
      = verify_uncached L fs (pki_base_dir v) payload sig p
    \<and> cache_ok L fs (snd (verify_signature L fs payload sig p v))"
  using assms by (rule verify_signature_cached)

theorem verifier_cache_transparent_witness:
  "cache_ok demo_crypto fs_empty (MLDSAVerifier_init ''pki'')
   \<and> \<not> fst (verify_signature demo_crypto fs_empty [1] [2] (VStr ''k.pub'') (MLDSAVerifier_init ''pki''))"
  using verifier_cache_transparent [OF cache_ok_init [of demo_crypto fs_empty "''pki''"],
      of "[1]" "[2]" "VStr ''k.pub''"]
  by (simp add: verify_uncached_def load_public_key_file_def read_file_def fs_empty_def)

text \<open>
  C23: a revocation list written by \<open>qstie-ca revoke\<close> (any list the tool saves) revokes nothing at
  Gateway B: the tool writes the entries under \<open>revoked\<close>, the trust store reads
  \<open>revoked_certificates\<close>, so no fingerprint is ever reported revoked.
\<close>

theorem saved_revocations_ignored:
  assumes "yaml_roundtrip y" and "list_all rev_plain (rl_entries rl)"
    and "TrustStore_init y tpath rpath (rl_save y rpath rl fs) = Inr ts"
  shows "is_revoked ts (VStr fp) = Inr False"
  using load_revoked_saved [OF assms(1,2) refl] assms(3)
  by (auto simp: TrustStore_init_def is_revoked_def)

definition demo_entry :: TrustBundleEntry where
  "demo_entry = \<lparr>agency_id = ''RAW'', payload_signing_public_key_path = ''k.pub'',
     payload_signing_public_key_fingerprint = ''cd'', tls_certificate_fingerprint = ''ab'',
     issue_timestamp = ''n'', expiry_timestamp = ''e''\<rparr>"

definition demo_revocation :: RevocationEntry where
  "demo_revocation = \<lparr>rev_fingerprint = VStr ''ab'', rev_key_type = VStr ''tls'',
     rev_agency_id = VStr ''RAW'', rev_reason = VStr ''lost'', rev_revoked_at = VStr ''t''\<rparr>"

lemma demo_plain: "entry_plain demo_entry" "rev_plain demo_revocation"
  by (simp_all add: entry_plain_def demo_entry_def rev_plain_def demo_revocation_def ascii_valid ascii_def)

theorem saved_revocations_ignored_witness:
  "\<exists>ts. TrustStore_init json_yaml ''t'' ''r'' (rl_save json_yaml ''r'' \<lparr>rl_entries = [demo_revocation]\<rparr>
      (tb_save json_yaml ''t'' \<lparr>tb_entries = [demo_entry]\<rparr> fs_empty)) = Inr ts
    \<and> is_revoked ts (VStr ''ab'') = Inr False"
proof -
  let ?fs1 = "tb_save json_yaml ''t'' \<lparr>tb_entries = [demo_entry]\<rparr> fs_empty"
  let ?fs = "rl_save json_yaml ''r'' \<lparr>rl_entries = [demo_revocation]\<rparr> ?fs1"
  have r: "list_all rev_plain (rl_entries \<lparr>rl_entries = [demo_revocation]\<rparr>)" by (simp add: demo_plain)
  have "files ?fs ''t'' = files ?fs1 ''t''" by (simp add: rl_save_def)
  from load_agencies_saved [OF json_yaml_roundtrip _ this]
  have "\<exists>ts. TrustStore_init json_yaml ''t'' ''r'' ?fs = Inr ts"
    using load_revoked_saved [OF json_yaml_roundtrip r refl, of "''r''" ?fs1]
    by (simp add: TrustStore_init_def demo_plain)
  then obtain ts where ts: "TrustStore_init json_yaml ''t'' ''r'' ?fs = Inr ts" ..
  from saved_revocations_ignored [OF json_yaml_roundtrip r ts] ts show ?thesis by blast
qed

lemma entry_plain_exported:
  assumes "ascii ag" "ascii n" "ascii e"
  shows "entry_plain \<lparr>agency_id = ag,
     payload_signing_public_key_path = ''gateway_'' @ str_lower ag @ ''/'' @ str_lower ag
       @ (if kt = ''ecdsa'' then ''_ecdsa256.pub'' else ''_ml_dsa65.pub''),
     payload_signing_public_key_fingerprint = hex_bytes (sha256 b),
     tls_certificate_fingerprint = hex_bytes (sha256 c), issue_timestamp = n, expiry_timestamp = e\<rparr>"
proof -
  have l: "ascii ''gateway_''" "ascii ''/''" "ascii ''_ecdsa256.pub''" "ascii ''_ml_dsa65.pub''"
    by (simp_all add: ascii_def)
  have "ascii (''gateway_'' @ str_lower ag @ ''/'' @ str_lower ag
       @ (if kt = ''ecdsa'' then ''_ecdsa256.pub'' else ''_ml_dsa65.pub''))"
    unfolding ascii_append using assms(1) l by (simp add: ascii_lower)
  then show ?thesis using assms
    by (simp add: entry_plain_def ascii_valid ascii_hex)
qed

text \<open>
  C21: from the certificate authority to the gateway. After a certificate and a signing key were
  issued for an agency and its bundle exported to \<open>trust_store.yaml\<close> at the root of the tree,
  Gateway B's trust store loads: it expects exactly the certificate from that agency that the
  authority of the given directory issued, lists the fingerprint of exactly the issued signing key,
  and the verifier loads exactly this key through the path in the bundle.
\<close>

theorem exported_agency_is_trusted:
  assumes "pem_laws L" and "yaml_roundtrip y"
    and "cmd_issue_gateway_cert L r1 ag cad san vd (path_join root (''gateway_'' @ str_lower ag)) kt fs0
      = Inr fs1"
    and "cmd_issue_signing_key L r2 ag (path_join root (''gateway_'' @ str_lower ag)) kt fs1 = Inr fs2"
    and "cmd_export_trust_bundle L y ag root (root @ ''/trust_store.yaml'') kt n e fs2 = Inr fs3"
    and "ascii ag" "ascii n" "ascii e" "CHR '','' \<notin> set ag" "CHR ''/'' \<notin> set ag"
    and "root \<noteq> []" "last root \<noteq> CHR ''/''" and "load_revoked y rpath fs3 = Inr revs"
  shows "\<exists>cc ck cert sk ts p. load_cert L (path_join cad ''root_ca.crt'') fs0 = Inr cc
    \<and> load_private_key L (path_join cad ''root_ca.key'') fs0 = Inr ck
    \<and> issue_leaf_cert L r1 \<lparr>ca_cert = cc, ca_private_key = ck\<rparr> ag san vd kt = Inr (cert, sk)
    \<and> TrustStore_init y (root @ ''/trust_store.yaml'') rpath fs3 = Inr ts
    \<and> py_getitem (get_agency ts ag) ''tls_certificate_fingerprint''
        = Inr (VStr (hex_bytes (sha256 (cert_der L cert))))
    \<and> py_getitem (get_agency ts ag) ''payload_signing_public_key_fingerprint''
        = Inr (VStr (hex_bytes (sha256 (spki_der L (signing_pub L r2 kt)))))
    \<and> py_getitem (get_agency ts ag) ''payload_signing_public_key_path'' = Inr p
    \<and> fst (load_public_key L fs3 p (MLDSAVerifier_init root)) = Inr (signing_pub L r2 kt)"
proof -
  let ?al = "str_lower ag" and ?out = "root @ ''/trust_store.yaml''"
  let ?sfx = "if kt = ''ecdsa'' then ''_ecdsa256.pub'' else ''_ml_dsa65.pub''"
  from issued_files [OF assms(3,4)] obtain ca cert sk where
    i: "issue_leaf_cert L r1 ca ag san vd kt = Inr (cert, sk)"
      "load_cert L (path_join cad ''root_ca.crt'') fs0 = Inr (ca_cert ca)"
      "load_private_key L (path_join cad ''root_ca.key'') fs0 = Inr (ca_private_key ca)"
    and f: "files fs2 (path_join (path_join root (''gateway_'' @ ?al))
        (?al @ ''_gateway'' @ (if kt = ''ecdsa'' then ''_ecdsa'' else []) @ ''.crt''))
      = Some (pem_cert L cert)"
      "files fs2 (path_join (path_join root (''gateway_'' @ ?al))
        (?al @ ''_'' @ (if kt = ''ecdsa'' then ''ecdsa256'' else ''ml_dsa65'') @ ''.pub''))
      = Some (pem_public L (signing_pub L r2 kt))" by blast
  define en where "en = \<lparr>agency_id = ag,
     payload_signing_public_key_path = ''gateway_'' @ ?al @ ''/'' @ ?al @ ?sfx,
     payload_signing_public_key_fingerprint = hex_bytes (sha256 (spki_der L (signing_pub L r2 kt))),
     tls_certificate_fingerprint = hex_bytes (sha256 (cert_der L cert)),
     issue_timestamp = n, expiry_timestamp = e\<rparr>"
  from assms(5) have fs3: "fs3 = tb_save y ?out \<lparr>tb_entries = [en]\<rparr> fs2"
    by (simp add: cmd_export_trust_bundle_def str_split_single assms(9) tb_add_def
        export_agency_loaded [OF f assms(1)] en_def)
  have plain: "list_all entry_plain (tb_entries \<lparr>tb_entries = [en]\<rparr>)"
    using entry_plain_exported [OF assms(6-8)] by (simp add: en_def)
  from load_agencies_saved [OF assms(2) plain, of fs3 ?out fs2] fs3
  have "load_agencies y ?out fs3 = Inr [VStr ag \<mapsto> sort_keys (tb_val en)]" by (simp add: en_def)
  with assms(13) have ts: "TrustStore_init y ?out rpath fs3 =
      Inr \<lparr>trust_store_path = ?out, revocation_list_path = rpath,
        ts_pki_base_dir = path_dirname ?out, agencies = [VStr ag \<mapsto> sort_keys (tb_val en)],
        revoked_fingerprints = revs\<rparr>" by (simp add: TrustStore_init_def)
  have path: "path_join (path_join root (''gateway_'' @ ?al))
        (?al @ ''_'' @ (if kt = ''ecdsa'' then ''ecdsa256'' else ''ml_dsa65'') @ ''.pub'')
      = root @ ''/'' @ payload_signing_public_key_path en"
    using pub_path_below_root [OF assms(11,12) slash_lower [OF assms(10)], of "''_ecdsa256.pub''"]
      pub_path_below_root [OF assms(11,12) slash_lower [OF assms(10)], of "''_ml_dsa65.pub''"]
    by (simp add: en_def)
  have "files fs3 (root @ ''/'' @ payload_signing_public_key_path en)
      = Some (pem_public L (signing_pub L r2 kt))"
    using f(2) unfolding path fs3 by (simp add: tb_save_def en_def)
  then have "fst (load_public_key L fs3 (VStr (payload_signing_public_key_path en)) (MLDSAVerifier_init root))
      = Inr (signing_pub L r2 kt)"
    by (simp add: load_public_key_def MLDSAVerifier_init_def load_public_key_file_def read_file_def
        pem_lawsD [OF assms(1)])
  moreover obtain cc ck where "ca = \<lparr>ca_cert = cc, ca_private_key = ck\<rparr>" by (cases ca) simp
  moreover have "tls_certificate_fingerprint en = hex_bytes (sha256 (cert_der L cert))"
    "payload_signing_public_key_fingerprint en = hex_bytes (sha256 (spki_der L (signing_pub L r2 kt)))"
    by (simp_all add: en_def)
  ultimately show ?thesis using i ts tb_val_get(2-4) [of en]
    by (auto simp: get_agency_def simp del: py_getitem.simps)
qed

lemma demo_paths:
  "path_join ''pki'' ''gateway_raw'' = ''pki/gateway_raw''"
  "path_join ''pki/gateway_raw'' ''raw_gateway.crt'' = ''pki/gateway_raw/raw_gateway.crt''"
  "path_join ''pki/gateway_raw'' ''raw_gateway.key'' = ''pki/gateway_raw/raw_gateway.key''"
  "path_join ''pki/gateway_raw'' ''raw_ml_dsa65.pub'' = ''pki/gateway_raw/raw_ml_dsa65.pub''"
  "path_join ''pki/gateway_raw'' ''raw_ml_dsa65.pem'' = ''pki/gateway_raw/raw_ml_dsa65.pem''"
  "path_join ''ca'' ''root_ca.crt'' = ''ca/root_ca.crt''"
  "path_join ''ca'' ''root_ca.key'' = ''ca/root_ca.key''"
  by code_simp+

lemma demo_export:
  obtains fs0 fs1 fs2 fs3 where
    "cmd_issue_gateway_cert demo_crypto demo_entropy ''RAW'' ''ca'' ''raw.local'' 90
       (path_join ''pki'' (''gateway_'' @ str_lower ''RAW'')) ''mldsa'' fs0 = Inr fs1"
    "cmd_issue_signing_key demo_crypto demo_entropy ''RAW''
       (path_join ''pki'' (''gateway_'' @ str_lower ''RAW'')) ''mldsa'' fs1 = Inr fs2"
    "cmd_export_trust_bundle demo_crypto json_yaml ''RAW'' ''pki'' (''pki'' @ ''/trust_store.yaml'') ''mldsa''
       ''n'' ''e'' fs2 = Inr fs3"
    "load_revoked json_yaml ''pki/revocation_list.yaml'' fs3 = Inr {}"
proof -
  let ?gd = "path_join ''pki'' (''gateway_'' @ str_lower ''RAW'')"
  let ?r = "''pki/revocation_list.yaml''"
  let ?fs = "rl_save json_yaml ?r \<lparr>rl_entries = []\<rparr> fs_empty"
  obtain fs0 fs1 fs2 where
    c: "cmd_init_root demo_crypto demo_entropy ''ca'' 3650 ''mldsa'' ?fs = Inr fs0"
      "cmd_issue_gateway_cert demo_crypto demo_entropy ''RAW'' ''ca'' ''raw.local'' 90 ?gd ''mldsa'' fs0 = Inr fs1"
      "cmd_issue_signing_key demo_crypto demo_entropy ''RAW'' ?gd ''mldsa'' fs1 = Inr fs2"
    using demo_bootstrap [of demo_entropy "''ca''" 3650 "''mldsa''" ?fs demo_entropy "''RAW''"
        "''raw.local''" 90 ?gd "''mldsa''" demo_entropy "''mldsa''"] by blast
  from c(1) have 0: "files fs0 ?r = files ?fs ?r"
    by (auto simp: cmd_init_root_def Let_def demo_paths)
  from c(2) have 1: "files fs1 ?r = files fs0 ?r"
    by (rule issue_cert_files) (simp add: demo_paths)
  from issue_key_files [OF c(3)] have 2: "files fs2 ?r = files fs1 ?r"
    by (auto simp: demo_paths)
  from issued_files [OF c(2,3)] obtain cert where
    f: "files fs2 (path_join ?gd (str_lower ''RAW'' @ ''_gateway''
          @ (if ''mldsa'' = ''ecdsa'' then ''_ecdsa'' else []) @ ''.crt'')) = Some (pem_cert demo_crypto cert)"
       "files fs2 (path_join ?gd (str_lower ''RAW'' @ ''_''
          @ (if ''mldsa'' = ''ecdsa'' then ''ecdsa256'' else ''ml_dsa65'') @ ''.pub''))
        = Some (pem_public demo_crypto (signing_pub demo_crypto demo_entropy ''mldsa''))" by blast
  obtain fs3 tb where
    e: "cmd_export_trust_bundle demo_crypto json_yaml ''RAW'' ''pki'' (''pki'' @ ''/trust_store.yaml'') ''mldsa''
         ''n'' ''e'' fs2 = Inr fs3"
    and 3: "fs3 = tb_save json_yaml (''pki'' @ ''/trust_store.yaml'') tb fs2"
    using export_agency_loaded [OF f demo_crypto_laws(1)]
    by (simp add: cmd_export_trust_bundle_def str_split_single)
  have "files fs3 ?r = files ?fs ?r" using 0 1 2 by (simp add: 3 tb_save_def)
  with load_revoked_saved [OF json_yaml_roundtrip, of "\<lparr>rl_entries = []\<rparr>" fs3 ?r fs_empty]
  have "load_revoked json_yaml ?r fs3 = Inr {}" by simp
  with c e that show thesis by blast
qed

theorem exported_agency_is_trusted_witness:
  "\<exists>fs3 cert ts p k. TrustStore_init json_yaml ''pki/trust_store.yaml'' ''pki/revocation_list.yaml'' fs3 = Inr ts
    \<and> py_getitem (get_agency ts ''RAW'') ''tls_certificate_fingerprint''
        = Inr (VStr (hex_bytes (sha256 (cert_der demo_crypto cert))))
    \<and> py_getitem (get_agency ts ''RAW'') ''payload_signing_public_key_fingerprint''
        = Inr (VStr (hex_bytes (sha256 (spki_der demo_crypto k))))
    \<and> py_getitem (get_agency ts ''RAW'') ''payload_signing_public_key_path'' = Inr p
    \<and> fst (load_public_key demo_crypto fs3 p (MLDSAVerifier_init ''pki''))
        = Inr k"
proof -
  have a: "ascii ''RAW''" "ascii ''n''" "ascii ''e''" by (simp_all add: ascii_def)
  have c: "CHR '','' \<notin> set ''RAW''" "CHR ''/'' \<notin> set ''RAW''" "''pki'' \<noteq> []" "last ''pki'' \<noteq> CHR ''/''"
    by simp_all
  obtain fs0 fs1 fs2 fs3 where
    "cmd_issue_gateway_cert demo_crypto demo_entropy ''RAW'' ''ca'' ''raw.local'' 90
       (path_join ''pki'' (''gateway_'' @ str_lower ''RAW'')) ''mldsa'' fs0 = Inr fs1"
    "cmd_issue_signing_key demo_crypto demo_entropy ''RAW''
       (path_join ''pki'' (''gateway_'' @ str_lower ''RAW'')) ''mldsa'' fs1 = Inr fs2"
    "cmd_export_trust_bundle demo_crypto json_yaml ''RAW'' ''pki'' (''pki'' @ ''/trust_store.yaml'') ''mldsa''
       ''n'' ''e'' fs2 = Inr fs3"
    "load_revoked json_yaml ''pki/revocation_list.yaml'' fs3 = Inr {}" by (rule demo_export)
  from exported_agency_is_trusted [OF demo_crypto_laws(1) json_yaml_roundtrip this(1-3) a c this(4)]
  show ?thesis by (simp del: py_getitem.simps) blast
qed

end
