(* ===== verification/Gateway_B_Policy.thy ===== *)
theory Gateway_B_Policy
  imports Interfaces Py_Yaml Qstie_Common
begin

text \<open>
  The inbound policy enforcement point (\<open>gateway_b/policy/pep_inbound.py\<close>), the OpenCTI ingestor
  (\<open>gateway_b/ingestion/stix_ingestor.py\<close>) and the telemetry log
  (\<open>gateway_b/observability/telemetry_logger.py\<close>) of Gateway B.
\<close>

section \<open>The inbound policy enforcement point\<close>

text \<open>A rule is a dictionary of strings; \<open>rule.get(k)\<close> is \<open>map_of rule k\<close>.\<close>

type_synonym rule = "(string \<times> string) list"

record InboundPEP =
  rules :: "rule list"

definition field_match :: "rule \<Rightarrow> string \<Rightarrow> string \<Rightarrow> bool" where
  "field_match rule k v = (map_of rule k = Some ''*'' \<or> map_of rule k = Some v)"

fun evaluate_rules :: "rule list \<Rightarrow> string \<Rightarrow> string \<Rightarrow> string \<Rightarrow> bool \<times> string" where
  "evaluate_rules [] sender recipient tlp = (False, ''Policy rule not found'')"
| "evaluate_rules (rule # rest) sender recipient tlp =
     (let s_match = field_match rule ''sender'' sender;
          r_match = field_match rule ''recipient'' recipient;
          t_match = field_match rule ''tlp'' tlp
      in if s_match \<and> r_match \<and> t_match then
           if map_of rule ''action'' = Some ''DENY'' then (False, ''Explicit DENY rule matched'')
           else if map_of rule ''action'' = Some ''ALLOW'' then (True, ''Explicit ALLOW rule matched'')
           else evaluate_rules rest sender recipient tlp
         else evaluate_rules rest sender recipient tlp)"

definition evaluate :: "InboundPEP \<Rightarrow> string \<Rightarrow> string \<Rightarrow> string \<Rightarrow> bool \<times> string" where
  "evaluate pep sender recipient tlp = evaluate_rules (rules pep) sender recipient tlp"

text \<open>The table of \<open>main\<close>.\<close>

definition main_rules :: "rule list" where
  "main_rules =
     [[(''sender'', ''RAW''), (''recipient'', ''NIA''), (''tlp'', ''tlp:green''), (''action'', ''ALLOW'')],
      [(''sender'', ''RAW''), (''recipient'', ''NIA''), (''tlp'', ''tlp:amber''), (''action'', ''ALLOW'')],
      [(''sender'', ''RAW''), (''recipient'', ''NIA''), (''tlp'', ''tlp:amber+strict''), (''action'', ''DENY'')]]"

section \<open>The ingestor\<close>

text \<open>
  The client of \<open>pycti\<close> is a parameter: whether its constructor succeeds, and what
  \<open>import_bundle\<close> does with a bundle (\<open>False\<close> when it raises).
\<close>

record OpenCTIIngestor =
  ing_url :: string
  ing_token :: string
  is_mock :: bool
  invocation_count :: nat

record pycti_lib =
  pycti_installed :: bool
  client_connects :: "string \<Rightarrow> string \<Rightarrow> bool"
  import_bundle :: "pyval \<Rightarrow> bool"

text \<open>
  The executor needs a positive number of workers; \<open>pycti\<close> is imported outside the \<open>try\<close>, so
  without the package a real token is an error.
\<close>

definition OpenCTIIngestor_init :: "pycti_lib \<Rightarrow> string \<Rightarrow> string \<Rightarrow> int \<Rightarrow> OpenCTIIngestor result" where
  "OpenCTIIngestor_init c url token workers =
     (let ingestor = (\<lambda>mock. \<lparr>ing_url = url, ing_token = token, is_mock = mock, invocation_count = 0\<rparr>)
      in if workers \<le> 0 then Inl ValueError
         else if token \<noteq> [] \<and> token \<noteq> ''synthetic-token-for-testing'' \<and> token \<noteq> ''mock'' then
           (if \<not> pycti_installed c then Inl LibraryError
            else Inr (ingestor (\<not> client_connects c url token)))
         else Inr (ingestor True))"

definition ingest_sync :: "pycti_lib \<Rightarrow> OpenCTIIngestor \<Rightarrow> pyval \<Rightarrow> bool result" where
  "ingest_sync c ing stix_bundle =
     (if is_mock ing then
        rbind (py_get stix_bundle ''type'' VNone) (\<lambda>t.
          if t \<noteq> VStr ''bundle'' then Inr False
          else if str_contains ''REJECT_ME'' (json_dumps stix_bundle) then Inr False
          else if str_contains ''TIMEOUT_ME'' (json_dumps stix_bundle) then Inl (Exception ''Timeout'')
          else if str_contains ''UNAVAILABLE_ME'' (json_dumps stix_bundle) then Inl (Exception ''Unavailable'')
          else Inr True)
      else if import_bundle c stix_bundle then Inr True else Inl LibraryError)"

definition ingest_bundle :: "pycti_lib \<Rightarrow> pyval \<Rightarrow> OpenCTIIngestor \<Rightarrow> bool \<times> OpenCTIIngestor" where
  "ingest_bundle c stix_bundle ing =
     (let ing' = ing\<lparr>invocation_count := invocation_count ing + 1\<rparr>
      in (case ingest_sync c ing' stix_bundle of Inl _ \<Rightarrow> False | Inr b \<Rightarrow> b, ing'))"

section \<open>The telemetry log\<close>

definition TELEMETRY_FILE_B :: string where
  "TELEMETRY_FILE_B = ''results/phase5/evidence/telemetry_b.jsonl''"

text \<open>Readings of \<open>time.time_ns()\<close> are integers; a transaction that is not verified has 0.\<close>

definition telemetry_val_b :: "string \<Rightarrow> int \<Rightarrow> int \<Rightarrow> int \<Rightarrow> string \<Rightarrow> pyval" where
  "telemetry_val_b tx_id t_received t_verified t_ingested state =
     VDict [(''transaction_id'', VStr tx_id), (''state'', VStr state),
            (''telemetry'', VDict [(''t_received_b'', VInt t_received),
               (''t_verified_b'', VInt t_verified), (''t_ingested_b'', VInt t_ingested)])]"

definition log_telemetry_b :: "string \<Rightarrow> int \<Rightarrow> int \<Rightarrow> int \<Rightarrow> string \<Rightarrow> fsys \<Rightarrow> fsys" where
  "log_telemetry_b tx_id t_received t_verified t_ingested state fs =
     append_file TELEMETRY_FILE_B
       (json_dumps (telemetry_val_b tx_id t_received t_verified t_ingested state) @ [CHR 0x0A]) fs"

section \<open>Lemmas\<close>

text \<open>What a rule says of a request: the action it decides, if it matches and decides at all.\<close>

definition rule_matches :: "rule \<Rightarrow> string \<times> string \<times> string \<Rightarrow> bool" where
  "rule_matches rule q = (case q of (s, r, t) \<Rightarrow>
     field_match rule ''sender'' s \<and> field_match rule ''recipient'' r \<and> field_match rule ''tlp'' t)"

definition rule_verdict :: "rule \<Rightarrow> string \<times> string \<times> string \<Rightarrow> bool option" where
  "rule_verdict rule q =
     (if \<not> rule_matches rule q then None
      else if map_of rule ''action'' = Some ''DENY'' then Some False
      else if map_of rule ''action'' = Some ''ALLOW'' then Some True else None)"

lemma evaluate_rules_first:
  "fst (evaluate_rules rs s r t) =
     (case List.find (\<lambda>rule. rule_verdict rule (s, r, t) \<noteq> None) rs of
        None \<Rightarrow> False | Some rule \<Rightarrow> the (rule_verdict rule (s, r, t)))"
  by (induction rs) (auto simp: rule_verdict_def rule_matches_def Let_def)

lemma evaluate_rules_grant:
  "fst (evaluate_rules rs s r t) \<Longrightarrow> \<exists>rule \<in> set rs. rule_verdict rule (s, r, t) = Some True"
  by (induction rs) (auto simp: rule_verdict_def rule_matches_def Let_def split: if_splits)

interpretation inbound: fail_closed
  "\<lambda>rs (s, r, t). fst (evaluate_rules rs s r t)" "\<lambda>rule q. rule_verdict rule q = Some True"
  by unfold_locales (auto dest: evaluate_rules_grant)

lemma ingest_count: "invocation_count (snd (ingest_bundle c v ing)) = invocation_count ing + 1"
  by (simp add: ingest_bundle_def Let_def)

lemma ingest_is_mock [simp]: "is_mock (snd (ingest_bundle c v ing)) = is_mock ing"
  by (simp add: ingest_bundle_def Let_def)

section \<open>Properties\<close>

text \<open>
  C20: the inbound policy is a first-match firewall. The verdict is that of the first rule that
  matches sender, recipient and marking and has an action (a matching rule with another action
  is passed over); without such a rule the request is denied, so nothing is permitted unless
  some rule allows it.
\<close>

theorem inbound_first_match:
  "fst (evaluate pep s r t) =
     (case List.find (\<lambda>rule. rule_verdict rule (s, r, t) \<noteq> None) (rules pep) of
        None \<Rightarrow> False | Some rule \<Rightarrow> the (rule_verdict rule (s, r, t)))
   \<and> fst (evaluate pep s r t) =
       (fst (evaluate pep s r t) \<and> (\<exists>rule. rule \<in> set (rules pep) \<and> rule_verdict rule (s, r, t) = Some True))"
  using inbound.permit_granted [of "rules pep" "(s, r, t)"]
  by (auto simp: evaluate_def evaluate_rules_first)

text \<open>
  With the table of \<open>main\<close>, Gateway B accepts exactly what RAW sends to NIA marked
  \<open>tlp:green\<close> or \<open>tlp:amber\<close>.
\<close>

theorem main_table_inbound:
  "fst (evaluate \<lparr>rules = main_rules\<rparr> s r (TlpMarking_value t)) \<longleftrightarrow>
     s = ''RAW'' \<and> r = ''NIA'' \<and> t \<noteq> AMBER_STRICT"
  by (cases t) (auto simp: evaluate_def main_rules_def field_match_def Let_def)

end
