(* ===== verification/Gateway_B_Protocol.thy ===== *)
theory Gateway_B_Protocol
  imports Qstie_Envelope Gateway_B_Trust Gateway_B_Policy
begin

text \<open>
  The connection handler of Gateway B (\<open>gateway_b/transport/protocol.py\<close>): reading one frame,
  the nine steps of \<open>process_transaction\<close> with every early return and every handler, and the
  responses.

  What a connection changes is the record \<open>world\<close>: the file system (telemetry), the verifier's
  cache, the ingestor, the frames given to \<open>writer.write\<close> in order, and whether the writer was
  closed; \<open>w_drains\<close> says for each coming \<open>writer.drain()\<close> whether it raises, and
  \<open>w_wait_closed\<close> what \<open>writer.wait_closed()\<close> will raise, if anything. The record
  \<open>gateway\<close> holds what a connection only reads: the libraries, the trust store, the policy, the
  codec and the three readings of \<open>time.time_ns()\<close> in the order in which they are made.
\<close>

section \<open>State\<close>

record world =
  w_fs :: fsys
  w_verifier :: MLDSAVerifier
  w_ingestor :: OpenCTIIngestor
  w_written :: "bytes list"
  w_drains :: "bool list"
  w_closed :: bool
  w_wait_closed :: "exn option"

record gateway =
  g_crypto :: crypto_lib
  g_pb :: pb_lib
  g_zlib_decompress :: "bytes \<Rightarrow> bytes option"
  g_pycti :: pycti_lib
  g_trust_store :: TrustStore
  g_pep :: InboundPEP
  g_frame_codec :: FrameCodec
  g_now :: "int \<times> int \<times> int"

type_synonym outcome = "unit result \<times> world"

text \<open>\<open>try: m except Exception: h\<close>, for a body that returns nothing.\<close>

definition except_all :: "outcome \<Rightarrow> (world \<Rightarrow> outcome) \<Rightarrow> outcome" where
  "except_all m h = (case m of (Inl _, w) \<Rightarrow> h w | (Inr u, w) \<Rightarrow> (Inr u, w))"

section \<open>Responses\<close>

definition write_drain :: "bytes \<Rightarrow> world \<Rightarrow> outcome" where
  "write_drain frame w =
     (let w1 = w\<lparr>w_written := w_written w @ [frame]\<rparr>
      in case w_drains w of
           [] \<Rightarrow> (Inr (), w1)
         | raises # ds \<Rightarrow>
             (if raises then Inl ConnectionError else Inr (), w1\<lparr>w_drains := ds\<rparr>))"

definition nack_frame :: "gateway \<Rightarrow> string \<Rightarrow> NackReason \<Rightarrow> bytes result" where
  "nack_frame g tx_id reason =
     rbind (encode_utf8 (json_dumps (VDict
       [(''transaction_id'', VStr tx_id), (''reason'', VStr (NackReason_value reason))])))
       (encode_frame (g_frame_codec g) NACK)"

definition ack_frame :: "gateway \<Rightarrow> string \<Rightarrow> bytes result" where
  "ack_frame g tx_id =
     rbind (encode_utf8 (json_dumps (VDict [(''transaction_id'', VStr tx_id)])))
       (encode_frame (g_frame_codec g) ACK)"

definition send_nack :: "gateway \<Rightarrow> string \<Rightarrow> NackReason \<Rightarrow> world \<Rightarrow> outcome" where
  "send_nack g tx_id reason w =
     (case nack_frame g tx_id reason of Inl e \<Rightarrow> (Inl e, w) | Inr frame \<Rightarrow> write_drain frame w)"

definition send_ack :: "gateway \<Rightarrow> string \<Rightarrow> world \<Rightarrow> outcome" where
  "send_ack g tx_id w =
     (case ack_frame g tx_id of Inl e \<Rightarrow> (Inl e, w) | Inr frame \<Rightarrow> write_drain frame w)"

section \<open>The transaction\<close>

text \<open>Steps 8 and 9: ingestion, acknowledgement, telemetry.\<close>

definition ingest_and_ack :: "gateway \<Rightarrow> string \<Rightarrow> pyval \<Rightarrow> world \<Rightarrow> outcome" where
  "ingest_and_ack g tx_id stix_bundle w =
     (let (ingested, ing') = ingest_bundle (g_pycti g) stix_bundle (w_ingestor w);
          w1 = w\<lparr>w_ingestor := ing'\<rparr>
      in if \<not> ingested then send_nack g tx_id INGEST_FAILED w1
         else case send_ack g tx_id w1 of
           (Inl e, w2) \<Rightarrow> (Inl e, w2)
         | (Inr u, w2) \<Rightarrow>
             (let (t_received, t_verified, t_ingested) = g_now g
              in (Inr (), w2\<lparr>w_fs := log_telemetry_b tx_id t_received t_verified t_ingested ''ACKED''
                              (w_fs w2)\<rparr>)))"

text \<open>The test of step 7: an exception, a bundle to reject, or a bundle to ingest.\<close>

definition parse_stix :: "bytes \<Rightarrow> pyval option result" where
  "parse_stix stix_bytes =
     rbind (rbind (decode_utf8 stix_bytes) json_loads) (\<lambda>stix_bundle.
     rbind (py_get stix_bundle ''type'' VNone) (\<lambda>t.
       if t \<noteq> VStr ''bundle'' then Inr None
       else rbind (py_in ''objects'' stix_bundle) (\<lambda>has.
         if \<not> has then Inr None else Inr (Some stix_bundle))))"

text \<open>Steps 6 and 7: decompression, STIX validation.\<close>

definition decompress_and_validate :: "gateway \<Rightarrow> TransactionEnvelope \<Rightarrow> world \<Rightarrow> outcome" where
  "decompress_and_validate g envelope w =
     (let tx_id = transaction_id envelope
      in case g_zlib_decompress g (stix_bundle_compressed envelope) of
           None \<Rightarrow> send_nack g tx_id MALFORMED w
         | Some stix_bytes \<Rightarrow>
             (case parse_stix stix_bytes of
                Inl _ \<Rightarrow> send_nack g tx_id MALFORMED w
              | Inr None \<Rightarrow>
                  except_all (send_nack g tx_id MALFORMED w) (send_nack g tx_id MALFORMED)
              | Inr (Some stix_bundle) \<Rightarrow> ingest_and_ack g tx_id stix_bundle w))"

text \<open>The condition of the revocation test, evaluated from left to right.\<close>

definition revocation_check :: "TrustStore \<Rightarrow> pyval \<Rightarrow> string \<Rightarrow> bool result" where
  "revocation_check ts agency peer_fingerprint =
     rbind (is_revoked ts (VStr peer_fingerprint)) (\<lambda>r.
       if r then Inr True
       else rbind (py_getitem agency ''payload_signing_public_key_fingerprint'') (is_revoked ts))"

text \<open>Steps 3 to 5: identity, revocation, signature, policy.\<close>

definition authenticate :: "gateway \<Rightarrow> TransactionEnvelope \<Rightarrow> string \<Rightarrow> world \<Rightarrow> outcome" where
  "authenticate g envelope peer_fingerprint w =
     (let tx_id = transaction_id envelope;
          agency = get_agency (g_trust_store g) (sender_id envelope)
      in if \<not> truthy agency then send_nack g tx_id UNKNOWN_SENDER w
         else case py_getitem agency ''tls_certificate_fingerprint'' of
           Inl e \<Rightarrow> (Inl e, w)
         | Inr expected_tls_fp \<Rightarrow>
           if expected_tls_fp \<noteq> VStr peer_fingerprint then send_nack g tx_id IDENTITY_MISMATCH w
           else case revocation_check (g_trust_store g) agency peer_fingerprint of
             Inl e \<Rightarrow> (Inl e, w)
           | Inr True \<Rightarrow> send_nack g tx_id REVOKED_CERT w
           | Inr False \<Rightarrow>
             (case py_getitem agency ''payload_signing_public_key_path'' of
                Inl e \<Rightarrow> (Inl e, w)
              | Inr pubkey_path \<Rightarrow>
                (let (is_valid, v') = verify_signature (g_crypto g) (w_fs w)
                       (stix_bundle_compressed envelope) (signature envelope) pubkey_path
                       (w_verifier w);
                     w1 = w\<lparr>w_verifier := v'\<rparr>
                 in if \<not> is_valid then send_nack g tx_id SIG_INVALID w1
                    else if \<not> fst (evaluate (g_pep g) (sender_id envelope) (recipient_id envelope)
                                     (TlpMarking_value (tlp_marking envelope)))
                    then send_nack g tx_id POLICY_DENIED w1
                    else decompress_and_validate g envelope w1)))"

definition missing_fields :: "TransactionEnvelope \<Rightarrow> bool" where
  "missing_fields e = (transaction_id e = [] \<or> sender_id e = [] \<or> signature e = []
     \<or> stix_bundle_compressed e = [])"

text \<open>
  The handler. \<open>tx_id\<close> is \<open>"0"\<close> until the envelope is decoded; the last \<open>except\<close> answers with
  whatever it is by then.
\<close>

definition process_transaction :: "gateway \<Rightarrow> bytes \<Rightarrow> string \<Rightarrow> world \<Rightarrow> outcome" where
  "process_transaction g payload peer_fingerprint w =
     (case from_bytes (g_pb g) payload of
        Inl _ \<Rightarrow> except_all (send_nack g ''0'' MALFORMED w) (send_nack g ''0'' MALFORMED)
      | Inr envelope \<Rightarrow>
          (let tx_id = transaction_id envelope
           in except_all
                (if missing_fields envelope
                 then except_all (send_nack g tx_id MALFORMED w) (send_nack g tx_id MALFORMED)
                 else authenticate g envelope peer_fingerprint w)
                (send_nack g tx_id MALFORMED)))"

section \<open>The connection\<close>

text \<open>The peer's certificate as the TLS layer reports it.\<close>

datatype peer = NoSsl | SslNoCert | SslCert bytes

fun peer_fingerprint :: "peer \<Rightarrow> string result" where
  "peer_fingerprint NoSsl = Inr ''UNKNOWN''"
| "peer_fingerprint SslNoCert = Inl TypeError"
| "peer_fingerprint (SslCert der_cert) = Inr (hex_bytes (sha256 der_cert))"

text \<open>The handler of frame errors around one turn of the reading loop.\<close>

definition frame_guard :: "gateway \<Rightarrow> outcome \<Rightarrow> outcome" where
  "frame_guard g m =
     (case m of
        (Inl e, w) \<Rightarrow>
          if e = OversizedFrameError \<or> e = MalformedFrameError \<or> e = InvalidMessageTypeError
          then send_nack g ''0'' MALFORMED w else (Inl e, w)
      | (Inr u, w) \<Rightarrow> (Inr u, w))"

text \<open>
  The reading loop. The stream is the list of what the calls of \<open>reader.read\<close> return; after the
  last one the peer has closed (\<open>None\<close>) or \<open>read\<close> raises.
\<close>

fun read_loop ::
    "gateway \<Rightarrow> string \<Rightarrow> exn option \<Rightarrow> bytes \<Rightarrow> bytes list \<Rightarrow> world \<Rightarrow> outcome" where
  "read_loop g fp fin buffer [] w =
     (case fin of None \<Rightarrow> (Inr (), w) | Some e \<Rightarrow> (Inl e, w))"
| "read_loop g fp fin buffer (data # chunks) w =
     (if data = [] then (Inr (), w)
      else
        (let buffer' = buffer @ data
         in case decode_frame_stream (g_frame_codec g) buffer' of
              Inl e \<Rightarrow> frame_guard g (Inl e, w)
            | Inr (None, _, _) \<Rightarrow> read_loop g fp fin buffer' chunks w
            | Inr (Some msg_type, payload, remaining) \<Rightarrow>
                frame_guard g
                  (if remaining \<noteq> [] then send_nack g ''0'' MALFORMED w
                   else if msg_type \<noteq> SIGNED_BUNDLE then send_nack g ''0'' MALFORMED w
                   else process_transaction g (case payload of None \<Rightarrow> [] | Some p \<Rightarrow> p) fp w)))"

text \<open>
  A peer without a certificate makes the digest raise before the \<open>try\<close>, so that the writer is not
  closed. Afterwards the \<open>finally\<close> block closes it; an error of the last wait escapes.
\<close>

definition handle_connection ::
    "gateway \<Rightarrow> peer \<Rightarrow> exn option \<Rightarrow> bytes list \<Rightarrow> world \<Rightarrow> outcome" where
  "handle_connection g p fin chunks w =
     (case peer_fingerprint p of
        Inl e \<Rightarrow> (Inl e, w)
      | Inr fp \<Rightarrow>
          (let (_, w') = read_loop g fp fin [] chunks w
           in (case w_wait_closed w of None \<Rightarrow> Inr () | Some e \<Rightarrow> Inl e, w'\<lparr>w_closed := True\<rparr>)))"

section \<open>The verdict, as a list of checks\<close>

text \<open>
  The specification of a transaction: the checks in their order, each with the reason for which
  its failure is reported. The first that fails decides; if none fails, the transaction is
  acknowledged.
\<close>

definition the_agency :: "gateway \<Rightarrow> TransactionEnvelope \<Rightarrow> pyval" where
  "the_agency g env = get_agency (g_trust_store g) (sender_id env)"

definition the_key_path :: "gateway \<Rightarrow> TransactionEnvelope \<Rightarrow> pyval" where
  "the_key_path g env =
     (case py_getitem (the_agency g env) ''payload_signing_public_key_path'' of
        Inl _ \<Rightarrow> VNone | Inr p \<Rightarrow> p)"

definition auth_checks ::
    "gateway \<Rightarrow> fsys \<Rightarrow> string \<Rightarrow> TransactionEnvelope \<Rightarrow> string \<Rightarrow> (bool \<times> NackReason) list" where
  "auth_checks g fs base env fp =
     [(\<not> missing_fields env, MALFORMED),
      (truthy (the_agency g env), UNKNOWN_SENDER),
      (ok (py_getitem (the_agency g env) ''tls_certificate_fingerprint''), MALFORMED),
      (py_getitem (the_agency g env) ''tls_certificate_fingerprint'' = Inr (VStr fp), IDENTITY_MISMATCH),
      (ok (revocation_check (g_trust_store g) (the_agency g env) fp), MALFORMED),
      (revocation_check (g_trust_store g) (the_agency g env) fp = Inr False, REVOKED_CERT),
      (ok (py_getitem (the_agency g env) ''payload_signing_public_key_path''), MALFORMED),
      (verify_uncached (g_crypto g) fs base (stix_bundle_compressed env) (signature env)
         (the_key_path g env), SIG_INVALID),
      (fst (evaluate (g_pep g) (sender_id env) (recipient_id env)
         (TlpMarking_value (tlp_marking env))), POLICY_DENIED)]"

definition stix_of :: "gateway \<Rightarrow> TransactionEnvelope \<Rightarrow> pyval option" where
  "stix_of g env =
     (case g_zlib_decompress g (stix_bundle_compressed env) of
        None \<Rightarrow> None
      | Some b \<Rightarrow> (case parse_stix b of Inr (Some v) \<Rightarrow> Some v | _ \<Rightarrow> None))"

definition content_checks ::
    "gateway \<Rightarrow> OpenCTIIngestor \<Rightarrow> TransactionEnvelope \<Rightarrow> (bool \<times> NackReason) list" where
  "content_checks g ing env =
     [(stix_of g env \<noteq> None, MALFORMED),
      (case stix_of g env of None \<Rightarrow> False | Some v \<Rightarrow> fst (ingest_bundle (g_pycti g) v ing),
       INGEST_FAILED)]"

definition first_failure :: "(bool \<times> NackReason) list \<Rightarrow> NackReason option" where
  "first_failure cs = map_option snd (List.find (\<lambda>c. \<not> fst c) cs)"

definition verdict ::
    "gateway \<Rightarrow> world \<Rightarrow> TransactionEnvelope \<Rightarrow> string \<Rightarrow> NackReason option" where
  "verdict g w env fp =
     first_failure (auth_checks g (w_fs w) (pki_base_dir (w_verifier w)) env fp
       @ content_checks g (w_ingestor w) env)"

definition response :: "gateway \<Rightarrow> string \<Rightarrow> NackReason option \<Rightarrow> bytes result" where
  "response g tx v = (case v of None \<Rightarrow> ack_frame g tx | Some r \<Rightarrow> nack_frame g tx r)"

text \<open>No coming \<open>drain\<close> raises.\<close>

definition quiet :: "world \<Rightarrow> bool" where
  "quiet w = (True \<notin> set (w_drains w))"

section \<open>Lemmas\<close>

subsection \<open>Checks\<close>

lemma first_failure_simps [simp]:
  "first_failure [] = None"
  "first_failure ((b, r) # cs) = (if b then first_failure cs else Some r)"
  by (simp_all add: first_failure_def)

lemma first_failure_append:
  "first_failure (cs @ ds) = (case first_failure cs of None \<Rightarrow> first_failure ds | Some r \<Rightarrow> Some r)"
  by (induction cs) auto

lemma first_failure_None: "first_failure cs = None \<longleftrightarrow> (\<forall>c \<in> set cs. fst c)"
  by (induction cs) (auto split: if_splits)

text \<open>When every check up to the policy passes, the handler goes on to the content.\<close>

lemma authenticate_pass:
  assumes c: "cache_ok (g_crypto g) (w_fs w) (w_verifier w)"
    and a: "first_failure (auth_checks g (w_fs w) (pki_base_dir (w_verifier w)) env fp) = None"
  shows "authenticate g env fp w = decompress_and_validate g env
     (w\<lparr>w_verifier := snd (verify_signature (g_crypto g) (w_fs w) (stix_bundle_compressed env)
        (signature env) (the_key_path g env) (w_verifier w))\<rparr>)"
proof -
  from a obtain k where k: "py_getitem (the_agency g env) ''payload_signing_public_key_path'' = Inr k"
    by (auto simp: auth_checks_def split: if_splits)
  have v: "fst (verify_signature (g_crypto g) (w_fs w) (stix_bundle_compressed env) (signature env) k
      (w_verifier w))"
    using verify_signature_cached [OF c, of "stix_bundle_compressed env" "signature env" k] a k
    by (auto simp: auth_checks_def the_key_path_def split: if_splits)
  show ?thesis
    using a k v
    by (auto simp: authenticate_def auth_checks_def the_agency_def [symmetric] Let_def
        the_key_path_def split: if_splits prod.split)
qed

text \<open>Otherwise it answers with the reason of the first check that fails, or raises.\<close>

lemma authenticate_fail:
  assumes c: "cache_ok (g_crypto g) (w_fs w) (w_verifier w)" and m: "\<not> missing_fields env"
    and a: "first_failure (auth_checks g (w_fs w) (pki_base_dir (w_verifier w)) env fp) = Some r"
  obtains v where "authenticate g env fp w = send_nack g (transaction_id env) r (w\<lparr>w_verifier := v\<rparr>)"
  | e where "authenticate g env fp w = (Inl e, w)" "r = MALFORMED"
proof -
  let ?A = "the_agency g env"
  have w: "w\<lparr>w_verifier := w_verifier w\<rparr> = w" by simp
  show thesis
  proof (cases "truthy ?A \<and> py_getitem ?A ''tls_certificate_fingerprint'' = Inr (VStr fp)
      \<and> revocation_check (g_trust_store g) ?A fp = Inr False
      \<and> ok (py_getitem ?A ''payload_signing_public_key_path'')")
    case True
    then obtain k where k: "py_getitem ?A ''payload_signing_public_key_path'' = Inr k" by auto
    obtain b v where bv: "verify_signature (g_crypto g) (w_fs w) (stix_bundle_compressed env)
        (signature env) k (w_verifier w) = (b, v)" by force
    have "b = verify_uncached (g_crypto g) (w_fs w) (pki_base_dir (w_verifier w))
        (stix_bundle_compressed env) (signature env) k"
      using verify_signature_cached [OF c, of "stix_bundle_compressed env" "signature env" k] bv by simp
    then have "authenticate g env fp w = send_nack g (transaction_id env) r (w\<lparr>w_verifier := v\<rparr>)"
      using True a m k bv
      by (auto simp: authenticate_def auth_checks_def the_agency_def [symmetric] Let_def
        the_key_path_def split: if_splits)
    then show thesis by (rule that)
  next
    case False
    then have "authenticate g env fp w = send_nack g (transaction_id env) r w
        \<or> (\<exists>e. authenticate g env fp w = (Inl e, w)) \<and> r = MALFORMED"
      using a m
      by (auto simp: authenticate_def auth_checks_def the_agency_def [symmetric] Let_def
        the_key_path_def split: if_splits sum.splits bool.splits)
    then show thesis using that w by metis
  qed
qed

subsection \<open>Answers\<close>

text \<open>
  \<open>answers w f m\<close>: the computation \<open>m\<close>, started in \<open>w\<close>, returns and has written exactly the
  frame \<open>f\<close>; \<open>only_nacks w m\<close>: whatever \<open>m\<close> wrote are frames of type \<open>NACK\<close>.
\<close>

definition answers :: "world \<Rightarrow> bytes \<Rightarrow> outcome \<Rightarrow> bool" where
  "answers w f m = (fst m = Inr () \<and> w_written (snd m) = w_written w @ [f] \<and> quiet (snd m))"

definition only_nacks :: "world \<Rightarrow> outcome \<Rightarrow> bool" where
  "only_nacks w m = (\<exists>fs. w_written (snd m) = w_written w @ fs \<and> (\<forall>f \<in> set fs. hd f = 3))"

lemma quiet_update [simp]:
  "quiet (w\<lparr>w_verifier := v\<rparr>) = quiet w" "quiet (w\<lparr>w_ingestor := i\<rparr>) = quiet w"
  "quiet (w\<lparr>w_fs := fs\<rparr>) = quiet w" "quiet (w\<lparr>w_closed := b\<rparr>) = quiet w"
  by (simp_all add: quiet_def)

lemma answers_update [simp]:
  "answers (w\<lparr>w_verifier := v\<rparr>) f m = answers w f m"
  "answers (w\<lparr>w_ingestor := i\<rparr>) f m = answers w f m"
  by (simp_all add: answers_def)

lemma only_nacks_update [simp]:
  "only_nacks (w\<lparr>w_verifier := v\<rparr>) m = only_nacks w m"
  "only_nacks (w\<lparr>w_ingestor := i\<rparr>) m = only_nacks w m"
  by (simp_all add: only_nacks_def)

lemma answers_except: "answers w f m \<Longrightarrow> answers w f (except_all m h)"
  by (auto simp: answers_def except_all_def split: prod.split sum.split)

lemma answers_guard: "answers w f m \<Longrightarrow> answers w f (frame_guard g m)"
  by (auto simp: answers_def frame_guard_def split: prod.split sum.split)

lemma write_drain_answers: "quiet w \<Longrightarrow> answers w f (write_drain f w)"
  by (auto simp: answers_def quiet_def write_drain_def Let_def split: list.split)

lemma send_nack_answers: "quiet w \<Longrightarrow> nack_frame g tx r = Inr f \<Longrightarrow> answers w f (send_nack g tx r w)"
  by (simp add: send_nack_def write_drain_answers)

lemma send_ack_answers: "quiet w \<Longrightarrow> ack_frame g tx = Inr f \<Longrightarrow> answers w f (send_ack g tx w)"
  by (simp add: send_ack_def write_drain_answers)

lemma frame_types:
  "nack_frame g tx r = Inr f \<Longrightarrow> hd f = 3" "ack_frame g tx = Inr f \<Longrightarrow> hd f = 2"
  by (auto simp: nack_frame_def ack_frame_def encode_frame_Inr)

lemma send_nack_only: "only_nacks w (send_nack g tx r w)"
  by (auto simp: only_nacks_def send_nack_def write_drain_def Let_def dest: frame_types
      split: sum.split list.split)

lemma only_nacks_except:
  assumes "only_nacks w m" "\<And>w1. only_nacks w1 (h w1)"
  shows "only_nacks w (except_all m h)"
proof (cases m)
  case (Pair r w1)
  show ?thesis
  proof (cases r)
    case (Inl e)
    from assms(2) [of w1] assms(1) show ?thesis
      by (fastforce simp: only_nacks_def except_all_def Pair Inl)
  next
    case (Inr u)
    with assms(1) show ?thesis by (simp add: except_all_def Pair)
  qed
qed

lemma ingest_and_ack_answers:
  assumes "quiet w"
    and "response g tx (if fst (ingest_bundle (g_pycti g) b (w_ingestor w)) then None else Some INGEST_FAILED)
      = Inr f"
  shows "answers w f (ingest_and_ack g tx b w)"
proof -
  obtain i ing where i: "ingest_bundle (g_pycti g) b (w_ingestor w) = (i, ing)" by force
  show ?thesis
  proof (cases i)
    case True
    with assms i have "answers w f (send_ack g tx (w\<lparr>w_ingestor := ing\<rparr>))"
      using send_ack_answers [of "w\<lparr>w_ingestor := ing\<rparr>" g tx f] by (simp add: response_def)
    with True i show ?thesis
      by (auto simp: answers_def ingest_and_ack_def Let_def split: prod.split sum.split)
  next
    case False
    with assms i show ?thesis
      using send_nack_answers [of "w\<lparr>w_ingestor := ing\<rparr>" g tx INGEST_FAILED f]
      by (simp add: ingest_and_ack_def response_def)
  qed
qed

lemma decompress_answers:
  assumes "quiet w"
    and "response g (transaction_id env) (first_failure (content_checks g (w_ingestor w) env)) = Inr f"
  shows "answers w f (decompress_and_validate g env w)"
  using assms
  by (auto simp: decompress_and_validate_def content_checks_def stix_of_def Let_def response_def
      intro!: send_nack_answers answers_except ingest_and_ack_answers
      split: option.splits sum.splits if_splits)

lemma process_answers:
  assumes c: "cache_ok (g_crypto g) (w_fs w) (w_verifier w)" and q: "quiet w"
    and e: "from_bytes (g_pb g) payload = Inr env"
    and r: "response g (transaction_id env) (verdict g w env fp) = Inr f"
  shows "answers w f (process_transaction g payload fp w)"
proof -
  let ?a = "first_failure (auth_checks g (w_fs w) (pki_base_dir (w_verifier w)) env fp)"
  let ?tx = "transaction_id env"
  show ?thesis
  proof (cases "missing_fields env")
    case True
    then have "nack_frame g ?tx MALFORMED = Inr f"
      using r by (simp add: verdict_def auth_checks_def response_def)
    with True e q show ?thesis
      by (simp add: process_transaction_def Let_def answers_except send_nack_answers)
  next
    case m: False
    show ?thesis
    proof (cases ?a)
      case None
      with r have "response g ?tx (first_failure (content_checks g (w_ingestor w) env)) = Inr f"
        by (simp add: verdict_def first_failure_append)
      with q have "answers w f (authenticate g env fp w)"
        unfolding authenticate_pass [OF c None]
        using decompress_answers [of "w\<lparr>w_verifier := v\<rparr>" g env f for v] by simp
      with m e show ?thesis by (simp add: process_transaction_def Let_def answers_except)
    next
      case (Some reason)
      with r have n: "nack_frame g ?tx reason = Inr f"
        by (simp add: verdict_def first_failure_append response_def)
      from c m Some show ?thesis
      proof (cases rule: authenticate_fail)
        case (1 v)
        with m e q n show ?thesis
          using send_nack_answers [of "w\<lparr>w_verifier := v\<rparr>" g ?tx reason f]
          by (simp add: process_transaction_def Let_def answers_except)
      next
        case (2 x)
        with m e q n show ?thesis
          by (simp add: process_transaction_def Let_def except_all_def send_nack_answers)
      qed
    qed
  qed
qed

lemma decompress_only_nacks:
  assumes "first_failure (content_checks g (w_ingestor w) env) \<noteq> None"
  shows "only_nacks w (decompress_and_validate g env w)"
proof -
  have i: "only_nacks w (ingest_and_ack g tx b w)"
    if n: "\<not> fst (ingest_bundle (g_pycti g) b (w_ingestor w))" for b tx
  proof -
    obtain ing where "ingest_bundle (g_pycti g) b (w_ingestor w) = (False, ing)"
      using n by (auto simp: prod_eq_iff)
    then show ?thesis using send_nack_only [of "w\<lparr>w_ingestor := ing\<rparr>"] by (simp add: ingest_and_ack_def)
  qed
  have x: "only_nacks w (except_all (send_nack g tx r w) (send_nack g tx r))" for tx r
    by (simp add: only_nacks_except send_nack_only)
  show ?thesis
    using assms i
    by (simp add: decompress_and_validate_def content_checks_def stix_of_def Let_def
        send_nack_only x split: option.splits sum.splits if_splits)
qed

text \<open>Without a passing verdict no acknowledgement is written, however the writer behaves.\<close>

lemma process_only_nacks:
  assumes c: "cache_ok (g_crypto g) (w_fs w) (w_verifier w)"
    and v: "\<And>env. from_bytes (g_pb g) payload = Inr env \<Longrightarrow> verdict g w env fp \<noteq> None"
  shows "only_nacks w (process_transaction g payload fp w)"
proof (cases "from_bytes (g_pb g) payload")
  case (Inl e)
  then show ?thesis by (simp add: process_transaction_def only_nacks_except send_nack_only)
next
  case (Inr env)
  let ?a = "first_failure (auth_checks g (w_fs w) (pki_base_dir (w_verifier w)) env fp)"
  have "only_nacks w (authenticate g env fp w)" if m: "\<not> missing_fields env"
  proof (cases ?a)
    case None
    with v [OF Inr] have "first_failure (content_checks g (w_ingestor w) env) \<noteq> None"
      by (simp add: verdict_def first_failure_append)
    then show ?thesis
      unfolding authenticate_pass [OF c None]
      using decompress_only_nacks [of g "w\<lparr>w_verifier := v\<rparr>" env for v] by simp
  next
    case (Some r)
    from c m Some show ?thesis
    proof (cases rule: authenticate_fail)
      case (1 v)
      then show ?thesis using send_nack_only [of "w\<lparr>w_verifier := v\<rparr>"] by simp
    next
      case (2 e)
      then show ?thesis by (simp add: only_nacks_def)
    qed
  qed
  then show ?thesis
    by (simp add: process_transaction_def Inr Let_def only_nacks_except send_nack_only)
qed

subsection \<open>Failed authentication\<close>

lemma send_nack_libs [simp]:
  "send_nack (g\<lparr>g_zlib_decompress := z\<rparr>) = send_nack g" "send_nack (g\<lparr>g_pycti := p\<rparr>) = send_nack g"
  by (simp_all add: fun_eq_iff send_nack_def nack_frame_def)

lemma fst_verify_cached:
  "cache_ok L fs v \<Longrightarrow> fst (verify_signature L fs d sig p v) = verify_uncached L fs (pki_base_dir v) d sig p"
  by (simp add: verify_signature_cached)

lemma authenticate_fail_libs:
  assumes c: "cache_ok (g_crypto g) (w_fs w) (w_verifier w)" and m: "\<not> missing_fields env"
    and a: "first_failure (auth_checks g (w_fs w) (pki_base_dir (w_verifier w)) env fp) \<noteq> None"
  shows "authenticate (g\<lparr>g_zlib_decompress := z, g_pycti := p\<rparr>) env fp w = authenticate g env fp w"
  using a m fst_verify_cached [OF c]
  by (auto simp: authenticate_def auth_checks_def the_agency_def [symmetric] Let_def the_key_path_def
      split: sum.splits bool.splits prod.splits if_splits) (metis fst_conv)

lemma send_nack_keeps:
  "w_ingestor (snd (send_nack g tx r w)) = w_ingestor w" "w_fs (snd (send_nack g tx r w)) = w_fs w"
  by (auto simp: send_nack_def write_drain_def Let_def split: sum.split list.split)

lemma except_nack_keeps:
  assumes "w_ingestor (snd m) = w_ingestor w" "w_fs (snd m) = w_fs w"
  shows "w_ingestor (snd (except_all m (send_nack g tx r))) = w_ingestor w"
    and "w_fs (snd (except_all m (send_nack g tx r))) = w_fs w"
  using assms by (auto simp: except_all_def send_nack_keeps split: prod.split sum.split)

lemma unauthenticated_keeps:
  assumes c: "cache_ok (g_crypto g) (w_fs w) (w_verifier w)"
    and e: "from_bytes (g_pb g) payload = Inr env"
    and a: "first_failure (auth_checks g (w_fs w) (pki_base_dir (w_verifier w)) env fp) = Some r"
  shows "w_ingestor (snd (process_transaction g payload fp w)) = w_ingestor w
    \<and> w_fs (snd (process_transaction g payload fp w)) = w_fs w"
proof (cases "missing_fields env")
  case True
  then show ?thesis
    by (simp add: process_transaction_def e Let_def except_nack_keeps send_nack_keeps)
next
  case m: False
  from c m a have "w_ingestor (snd (authenticate g env fp w)) = w_ingestor w
      \<and> w_fs (snd (authenticate g env fp w)) = w_fs w"
    by (cases rule: authenticate_fail) (simp_all add: send_nack_keeps)
  then show ?thesis using m by (simp add: process_transaction_def e Let_def except_nack_keeps)
qed

section \<open>Reading one frame\<close>

text \<open>
  What a reader that accumulates chunks sees first: the first result that is not a request for
  more input.
\<close>

fun first_result ::
    "('b list \<Rightarrow> ('m option \<times> 'b list option \<times> 'b list) result) \<Rightarrow> 'b list \<Rightarrow> 'b list list
       \<Rightarrow> ('m option \<times> 'b list option \<times> 'b list) result option" where
  "first_result dec buf [] = None"
| "first_result dec buf (c # cs) =
     (if c = [] then None
      else case dec (buf @ c) of
        Inr (None, _, _) \<Rightarrow> first_result dec (buf @ c) cs
      | r \<Rightarrow> Some r)"

context stream_codec
begin

text \<open>However a frame is cut into chunks, and whatever follows them, the reader sees the frame.\<close>

lemma first_result_chunks:
  assumes "enc t p = Inr f" "buf @ concat cs = f" "buf \<noteq> f" "[] \<notin> set cs"
  shows "first_result dec buf (cs @ later) = Some (Inr (Some t, Some p, []))"
  using assms(2-4)
proof (induction cs arbitrary: buf)
  case (Cons c cs)
  show ?case
  proof (cases "buf @ c = f")
    case True
    with Cons.prems dec_exact [OF assms(1)] show ?thesis by auto
  next
    case False
    with Cons.prems have "strict_prefix (buf @ c) f" by (auto simp: strict_prefix_def)
    from dec_prefix [OF assms(1) this] Cons.IH [of "buf @ c"] False Cons.prems show ?thesis by auto
  qed
qed simp

text \<open>
  On a stream that starts with a frame, the reader sees that frame; nothing is left over exactly
  when some read ended with the frame.
\<close>

lemma first_result_stream:
  assumes "enc t p = Inr f" "strict_prefix buf f" "prefix f (buf @ concat cs)" "[] \<notin> set cs"
  shows "\<exists>r. first_result dec buf cs = Some (Inr (Some t, Some p, r)) \<and> (r = [] \<longleftrightarrow> (\<exists>k. buf @ concat (take k cs) = f))"
  using assms(2-4)
proof (induction cs arbitrary: buf)
  case (Cons c cs)
  from Cons.prems(2) have "prefix f (buf @ c) \<or> strict_prefix (buf @ c) f"
    by (metis append_assoc concat.simps(2) prefix_order.dual_order.not_eq_order_implies_strict prefix_same_cases prefixI)
  then show ?case
  proof
    assume "prefix f (buf @ c)"
    then obtain r where r: "buf @ c = f @ r" by (auto simp: prefix_def)
    have "(\<exists>k. buf @ concat (take k (c # cs)) = f) \<longleftrightarrow> r = []"
    proof
      assume "\<exists>k. buf @ concat (take k (c # cs)) = f"
      then obtain k where k: "buf @ concat (take k (c # cs)) = f" by blast
      with Cons.prems(1) obtain j where "k = Suc j" by (cases k) auto
      with k r show "r = []" by (metis append_assoc append_eq_append_conv2 append_is_Nil_conv append_self_conv concat.simps(2) take_Suc_Cons)
    next
      assume "r = []"
      with r show "\<exists>k. buf @ concat (take k (c # cs)) = f" by (intro exI [of _ 1]) simp
    qed
    with dec_enc [OF assms(1), of r] r Cons.prems(3) show ?thesis by auto
  next
    assume s: "strict_prefix (buf @ c) f"
    from Cons.IH [OF s] Cons.prems obtain r where
      r: "first_result dec (buf @ c) cs = Some (Inr (Some t, Some p, r))" "r = [] \<longleftrightarrow> (\<exists>k. (buf @ c) @ concat (take k cs) = f)"
      by auto
    have "(\<exists>k. buf @ concat (take k (c # cs)) = f) \<longleftrightarrow> (\<exists>k. (buf @ c) @ concat (take k cs) = f)"
    proof
      assume "\<exists>k. buf @ concat (take k (c # cs)) = f"
      then obtain k where k: "buf @ concat (take k (c # cs)) = f" by blast
      with Cons.prems(1) obtain j where "k = Suc j" by (cases k) auto
      with k show "\<exists>k. (buf @ c) @ concat (take k cs) = f" by auto
    next
      assume "\<exists>k. (buf @ c) @ concat (take k cs) = f"
      then obtain k where "(buf @ c) @ concat (take k cs) = f" by blast
      then show "\<exists>k. buf @ concat (take k (c # cs)) = f" by (intro exI [of _ "Suc k"]) simp
    qed
    with r dec_prefix [OF assms(1) s] Cons.prems(3) show ?thesis by auto
  qed
qed simp

lemma first_result_incomplete:
  assumes "enc t p = Inr f" "strict_prefix (buf @ concat cs) f"
  shows "first_result dec buf cs = None"
  using assms(2)
proof (induction cs arbitrary: buf)
  case (Cons c cs)
  then have "strict_prefix (buf @ c) f"
    by (metis append_assoc concat.simps(2) prefixI prefix_order.le_less_trans)
  from dec_prefix [OF assms(1) this] Cons.IH [of "buf @ c"] Cons.prems show ?case by simp
qed simp

text \<open>A reader that still waits has been given no complete frame.\<close>

lemma first_result_waiting:
  assumes "first_result dec buf cs = None" "[] \<notin> set cs" "dec buf = Inr (None, None, buf)"
  shows "dec (buf @ concat cs) = Inr (None, None, buf @ concat cs)"
  using assms
proof (induction cs arbitrary: buf)
  case (Cons c cs)
  from Cons.prems obtain q r where d: "dec (buf @ c) = Inr (None, q, r)"
    and n: "first_result dec (buf @ c) cs = None"
    by (auto split: sum.splits prod.splits option.splits)
  with dec_none [OF d] Cons.IH [of "buf @ c"] Cons.prems show ?case by auto
qed simp

end

text \<open>The reading loop acts on the first result.\<close>

definition on_result ::
    "gateway \<Rightarrow> string \<Rightarrow> (MessageType option \<times> bytes option \<times> bytes) result \<Rightarrow> world \<Rightarrow> outcome" where
  "on_result g fp r w = frame_guard g
     (case r of
        Inl e \<Rightarrow> (Inl e, w)
      | Inr (t, p, remaining) \<Rightarrow>
          if remaining \<noteq> [] \<or> t \<noteq> Some SIGNED_BUNDLE then send_nack g ''0'' MALFORMED w
          else process_transaction g (case p of None \<Rightarrow> [] | Some d \<Rightarrow> d) fp w)"

lemma read_loop_first:
  "first_result (decode_frame_stream (g_frame_codec g)) buf cs = Some r \<Longrightarrow>
     read_loop g fp fin buf cs w = on_result g fp r w"
  by (induction cs arbitrary: buf)
    (auto simp: on_result_def Let_def split: if_splits sum.splits prod.splits option.splits)

lemma read_loop_none:
  "first_result (decode_frame_stream (g_frame_codec g)) buf cs = None \<Longrightarrow>
     snd (read_loop g fp fin buf cs w) = w"
  by (induction cs arbitrary: buf)
    (auto simp: Let_def split: if_splits sum.splits prod.splits option.splits)

section \<open>Every complete frame is answered once\<close>

definition codec_ok :: "FrameCodec \<Rightarrow> bool" where
  "codec_ok c = (1000 \<le> max_payload_size c \<and> max_payload_size c < 2 ^ 32)"

definition reply_frame :: "gateway \<Rightarrow> bytes \<Rightarrow> bool" where
  "reply_frame g f = (\<exists>t p. t \<noteq> SIGNED_BUNDLE \<and> encode_frame (g_frame_codec g) t p = Inr f)"

text \<open>One reply, or an exception with nothing written.\<close>

definition clean :: "gateway \<Rightarrow> world \<Rightarrow> outcome \<Rightarrow> bool" where
  "clean g w m = ((\<exists>f. reply_frame g f \<and> answers w f m)
     \<or> (\<exists>e. fst m = Inl e \<and> w_written (snd m) = w_written w \<and> quiet (snd m)))"

lemma length_concat_ge: "(\<And>x. x \<in> set xs \<Longrightarrow> 1 \<le> length (f x)) \<Longrightarrow> length xs \<le> length (concat (map f xs))"
proof (induction xs)
  case (Cons x xs)
  from Cons.prems [of x] Cons.IH Cons.prems show ?case by force
qed simp

lemma length_cps_of: "length (cps_of s) \<le> length s"
proof (cases "utf8_cps (octets s)")
  case None
  then show ?thesis by (simp add: cps_of_def octets_def)
next
  case (Some cs)
  have "length cs \<le> length (concat (map cp_octets cs))" by (rule length_concat_ge) auto
  with Some utf8_cps_inv [OF Some] show ?thesis by (simp add: cps_of_def octets_def)
qed

lemma length_json_esc: "length (json_esc c) \<le> 12"
  by (simp add: json_esc_def u_esc_def hex4_def)

lemma length_json_str: "length (json_str s) \<le> 12 * length s + 2"
proof -
  have "length (concat (map json_esc cs)) \<le> 12 * length cs" for cs
  proof (induction cs)
    case (Cons c cs)
    with length_json_esc [of c] show ?case by simp
  qed simp
  from this [of "cps_of s"] length_cps_of [of s] show ?thesis by (simp add: json_str_def)
qed

lemma ascii_json_str [simp]: "ascii (json_str s)"
  using printable_json_str by (fastforce simp: ascii_def list_all_iff printable_def)

definition nack_json :: "string \<Rightarrow> NackReason \<Rightarrow> string" where
  "nack_json tx r = json_dumps (VDict
     [(''transaction_id'', VStr tx), (''reason'', VStr (NackReason_value r))])"

definition ack_json :: "string \<Rightarrow> string" where
  "ack_json tx = json_dumps (VDict [(''transaction_id'', VStr tx)])"

lemma nack_json_facts: "valid_text (nack_json tx r)" "length (nack_json tx r) \<le> 12 * length tx + 500"
proof -
  have p: "ascii ''{''" "ascii ''}''" "ascii '': ''" "ascii '', ''" by (simp_all add: ascii_def)
  have e: "nack_json tx r = ''{'' @ json_str ''transaction_id'' @ '': '' @ json_str tx @ '', ''
      @ json_str ''reason'' @ '': '' @ json_str (NackReason_value r) @ ''}''"
    by (simp add: nack_json_def)
  show "valid_text (nack_json tx r)"
    by (rule ascii_valid) (simp only: e ascii_append p ascii_json_str simp_thms)
  have "length (NackReason_value r) \<le> 17" by (cases r) simp_all
  then have "length (json_str (NackReason_value r)) \<le> 206"
    using length_json_str [of "NackReason_value r"] by linarith
  moreover have "length (json_str ''transaction_id'') \<le> 170" "length (json_str ''reason'') \<le> 74"
    using length_json_str [of "''transaction_id''"] length_json_str [of "''reason''"] by simp_all
  ultimately show "length (nack_json tx r) \<le> 12 * length tx + 500"
    using length_json_str [of tx] unfolding e length_append by simp
qed

lemma ack_json_facts: "valid_text (ack_json tx)" "length (ack_json tx) \<le> 12 * length tx + 500"
proof -
  have p: "ascii ''{''" "ascii ''}''" "ascii '': ''" by (simp_all add: ascii_def)
  have e: "ack_json tx = ''{'' @ json_str ''transaction_id'' @ '': '' @ json_str tx @ ''}''"
    by (simp add: ack_json_def)
  show "valid_text (ack_json tx)"
    by (rule ascii_valid) (simp only: e ascii_append p ascii_json_str simp_thms)
  have "length (json_str ''transaction_id'') \<le> 170"
    using length_json_str [of "''transaction_id''"] by simp
  then show "length (ack_json tx) \<le> 12 * length tx + 500"
    using length_json_str [of tx] unfolding e length_append by simp
qed

lemma frame_cases:
  assumes "codec_ok c" "valid_text s"
  shows "(\<exists>f. rbind (encode_utf8 s) (encode_frame c t) = Inr f) \<or>
    (rbind (encode_utf8 s) (encode_frame c t) = Inl OversizedFrameError \<and> max_payload_size c < int (length s))"
  using assms by (auto simp: encode_utf8_def encode_frame_def pack_BI_def codec_ok_def)

lemma nack_frame_json: "nack_frame g tx r = rbind (encode_utf8 (nack_json tx r)) (encode_frame (g_frame_codec g) NACK)"
  by (simp add: nack_frame_def nack_json_def)

lemma ack_frame_json: "ack_frame g tx = rbind (encode_utf8 (ack_json tx)) (encode_frame (g_frame_codec g) ACK)"
  by (simp add: ack_frame_def ack_json_def)

lemma response_cases:
  assumes "codec_ok (g_frame_codec g)"
  shows "(\<exists>f. response g tx v = Inr f) \<or> response g tx v = Inl OversizedFrameError"
    and "12 * int (length tx) + 500 \<le> max_payload_size (g_frame_codec g) \<Longrightarrow> \<exists>f. response g tx v = Inr f"
proof -
  have "(\<exists>f. response g tx v = Inr f) \<or> (response g tx v = Inl OversizedFrameError
      \<and> max_payload_size (g_frame_codec g) < 12 * int (length tx) + 500)"
  proof (cases v)
    case None
    with frame_cases [OF assms ack_json_facts(1), of tx ACK] ack_json_facts(2) [of tx]
    show ?thesis by (auto simp: response_def ack_frame_json)
  next
    case (Some r)
    with frame_cases [OF assms nack_json_facts(1), of tx r NACK] nack_json_facts(2) [of tx r]
    show ?thesis by (auto simp: response_def nack_frame_json)
  qed
  then show "(\<exists>f. response g tx v = Inr f) \<or> response g tx v = Inl OversizedFrameError"
    and "12 * int (length tx) + 500 \<le> max_payload_size (g_frame_codec g) \<Longrightarrow> \<exists>f. response g tx v = Inr f"
    by auto
qed

lemma reply_frames: "response g tx v = Inr f \<Longrightarrow> reply_frame g f"
  by (auto simp: response_def reply_frame_def ack_frame_def nack_frame_def split: option.splits)

lemmas nack_cases = response_cases(1) [where v = "Some r" for r, simplified response_def option.case]

text \<open>As \<open>clean\<close>, and the one exception left is that the reply does not fit in a frame.\<close>

definition tidy :: "gateway \<Rightarrow> world \<Rightarrow> outcome \<Rightarrow> bool" where
  "tidy g w m = (clean g w m \<and> (\<forall>e. fst m = Inl e \<longrightarrow> e = OversizedFrameError))"

lemma clean_update [simp]:
  "clean g (w\<lparr>w_verifier := v\<rparr>) m = clean g w m" "clean g (w\<lparr>w_ingestor := i\<rparr>) m = clean g w m"
  by (simp_all add: clean_def)

lemma send_nack_tidy:
  assumes "codec_ok (g_frame_codec g)" "quiet w"
  shows "tidy g w (send_nack g tx r w)"
proof (cases "nack_frame g tx r")
  case (Inl e)
  with nack_cases [OF assms(1), of tx r] assms(2) show ?thesis
    by (auto simp: tidy_def clean_def send_nack_def)
next
  case (Inr f)
  with send_nack_answers [OF assms(2)] reply_frames [of g tx "Some r" f] show ?thesis
    by (auto simp: tidy_def clean_def response_def answers_def)
qed

lemma tidy_clean: "tidy g w m \<Longrightarrow> clean g w m"
  by (simp add: tidy_def)

lemma tidy_except:
  assumes "codec_ok (g_frame_codec g)" "clean g w m"
  shows "tidy g w (except_all m (send_nack g tx r))"
proof -
  obtain res w1 where m: "m = (res, w1)" by force
  show ?thesis
  proof (cases res)
    case (Inl e)
    with assms(2) m have "quiet w1" "w_written w1 = w_written w" by (auto simp: clean_def answers_def)
    with send_nack_tidy [OF assms(1), of w1 tx r] Inl m show ?thesis
      by (simp add: except_all_def tidy_def clean_def answers_def)
  next
    case (Inr u)
    with assms(2) m show ?thesis by (simp add: except_all_def tidy_def)
  qed
qed

lemma ingest_and_ack_clean:
  assumes "codec_ok (g_frame_codec g)" "quiet w"
  shows "clean g w (ingest_and_ack g tx b w)"
proof -
  obtain i ing where i: "ingest_bundle (g_pycti g) b (w_ingestor w) = (i, ing)" by force
  let ?v = "if i then None else Some INGEST_FAILED"
  show ?thesis
  proof (cases "response g tx ?v")
    case (Inl e)
    then show ?thesis
      using i assms(2)
      by (auto simp: ingest_and_ack_def response_def send_ack_def send_nack_def clean_def split: if_splits)
  next
    case (Inr f)
    with ingest_and_ack_answers [OF assms(2), of g tx b f] i reply_frames [OF Inr] show ?thesis
      by (auto simp: clean_def)
  qed
qed

lemma decompress_clean:
  assumes "codec_ok (g_frame_codec g)" "quiet w"
  shows "clean g w (decompress_and_validate g env w)"
  using assms
  by (simp add: decompress_and_validate_def Let_def tidy_clean send_nack_tidy tidy_except
      ingest_and_ack_clean split: option.split sum.split)

lemma authenticate_clean:
  assumes "codec_ok (g_frame_codec g)" "quiet w"
  shows "clean g w (authenticate g env fp w)"
proof -
  have n: "clean g w (send_nack g tx r (w\<lparr>w_verifier := v\<rparr>))"
      "clean g w (send_nack g tx r w)" "clean g w (Inl e, w)"
      "clean g w (decompress_and_validate g env (w\<lparr>w_verifier := v\<rparr>))" for tx r v e
    using send_nack_tidy [OF assms(1), of "w\<lparr>w_verifier := v\<rparr>" tx r]
      send_nack_tidy [OF assms, of tx r] decompress_clean [OF assms(1), of "w\<lparr>w_verifier := v\<rparr>" env]
      assms(2)
    by (simp_all add: tidy_def) (simp add: clean_def)
  then show ?thesis
    by (auto simp: authenticate_def Let_def split: sum.split bool.split prod.split)
qed

lemma process_tidy:
  assumes "codec_ok (g_frame_codec g)" "quiet w"
  shows "tidy g w (process_transaction g payload fp w)"
  using assms
  by (simp add: process_transaction_def Let_def tidy_except tidy_clean send_nack_tidy authenticate_clean
      split: sum.split)

lemma guard_tidy:
  assumes "codec_ok (g_frame_codec g)" "tidy g w m"
  shows "\<exists>f. reply_frame g f \<and> answers w f (frame_guard g m)"
proof (cases "fst m")
  case (Inl e)
  with assms(2) have e: "e = OversizedFrameError" and q: "quiet (snd m)"
    and s: "w_written (snd m) = w_written w" by (auto simp: tidy_def clean_def answers_def)
  have "12 * int (length ''0'') + 500 \<le> max_payload_size (g_frame_codec g)"
    using assms(1) by (simp add: codec_ok_def)
  from response_cases(2) [OF assms(1) this, of "Some MALFORMED"]
  obtain f where f: "response g ''0'' (Some MALFORMED) = Inr f" by blast
  with q have "answers w f (send_nack g ''0'' MALFORMED (snd m))"
    using send_nack_answers [OF q, of g "''0''" MALFORMED f] s by (simp add: response_def answers_def)
  with reply_frames [OF f] Inl e show ?thesis
    by (cases m) (auto simp: frame_guard_def)
next
  case (Inr u)
  with assms(2) show ?thesis by (auto simp: tidy_def clean_def intro: answers_guard)
qed

lemma decode_error_kinds:
  "decode_frame_stream c b = Inl e \<Longrightarrow> e = OversizedFrameError \<or> e = InvalidMessageTypeError"
  using decode_errors [of b c e] decode_short [of b c] by (cases "length b < HEADER_SIZE") auto

lemma first_result_error:
  "first_result dec buf cs = Some (Inl e) \<Longrightarrow> \<exists>b. dec b = Inl e"
  by (induction cs arbitrary: buf) (auto split: if_splits sum.splits prod.splits option.splits)

lemma on_result_answers:
  assumes "codec_ok (g_frame_codec g)" "quiet w"
    and "first_result (decode_frame_stream (g_frame_codec g)) buf cs = Some r"
  shows "\<exists>f. reply_frame g f \<and> answers w f (on_result g fp r w)"
proof (cases r)
  case (Inl e)
  from first_result_error [OF assms(3) [unfolded Inl]] decode_error_kinds
  have e: "e = OversizedFrameError \<or> e = InvalidMessageTypeError" by blast
  have "tidy g w (Inl OversizedFrameError, w)" using assms(2) by (simp add: tidy_def clean_def)
  from guard_tidy [OF assms(1) this] e show ?thesis by (auto simp: on_result_def frame_guard_def Inl)
next
  case (Inr x)
  then show ?thesis
    unfolding on_result_def
    by (intro guard_tidy [OF assms(1)])
      (auto simp: send_nack_tidy process_tidy assms split: prod.split)
qed

section \<open>When the writer fails\<close>

text \<open>
  At most \<open>n\<close> frames are written, and fewer if an exception other than that of the writer is left:
  whatever raises otherwise has written nothing.
\<close>

definition emits :: "gateway \<Rightarrow> nat \<Rightarrow> world \<Rightarrow> outcome \<Rightarrow> bool" where
  "emits g n w m = (\<exists>fs. w_written (snd m) = w_written w @ fs \<and> (\<forall>f \<in> set fs. reply_frame g f)
     \<and> length fs \<le> n \<and> (\<forall>e. fst m = Inl e \<longrightarrow> e \<noteq> ConnectionError \<longrightarrow> length fs < n))"

lemma emits_mono: "emits g n w m \<Longrightarrow> n \<le> k \<Longrightarrow> emits g k w m"
  unfolding emits_def by (meson le_trans less_le_trans)

lemma emits_update [simp]:
  "emits g n (w\<lparr>w_verifier := v\<rparr>) m = emits g n w m" "emits g n (w\<lparr>w_ingestor := i\<rparr>) m = emits g n w m"
  by (simp_all add: emits_def)

lemma emits_raise: "0 < n \<Longrightarrow> emits g n w (Inl e, w)"
  by (simp add: emits_def)

lemma write_drain_emits: "reply_frame g f \<Longrightarrow> emits g (Suc 0) w (write_drain f w)"
  by (auto simp: emits_def write_drain_def Let_def split: list.split)

lemma send_nack_emits: "emits g 1 w (send_nack g tx r w)"
  using reply_frames [of g tx "Some r"]
  by (auto simp: send_nack_def response_def emits_raise write_drain_emits split: sum.split)

lemma emits_except:
  assumes "emits g a w m" "\<And>w1. emits g b w1 (h w1)"
  shows "emits g (a + b) w (except_all m h)"
proof (cases m)
  case (Pair res w1)
  from assms(1) obtain fs where fs: "w_written w1 = w_written w @ fs" "\<forall>f \<in> set fs. reply_frame g f" "length fs \<le> a"
    by (auto simp: emits_def Pair)
  show ?thesis
  proof (cases res)
    case (Inl e)
    from assms(2) [of w1] obtain gs where gs: "w_written (snd (h w1)) = w_written w1 @ gs"
        "\<forall>f \<in> set gs. reply_frame g f" "length gs \<le> b"
        "\<forall>e. fst (h w1) = Inl e \<longrightarrow> e \<noteq> ConnectionError \<longrightarrow> length gs < b"
      by (auto simp: emits_def)
    with fs show ?thesis
      unfolding emits_def Pair Inl except_all_def prod.case sum.case
      by (intro exI [of _ "fs @ gs"]) (auto intro: add_le_less_mono)
  next
    case (Inr u)
    with fs show ?thesis by (auto simp: emits_def Pair except_all_def)
  qed
qed

lemma ingest_and_ack_emits: "emits g 1 w (ingest_and_ack g tx b w)"
proof -
  obtain i ing where i: "ingest_bundle (g_pycti g) b (w_ingestor w) = (i, ing)" by force
  let ?w = "w\<lparr>w_ingestor := ing\<rparr>"
  have "emits g 1 ?w (send_ack g tx ?w)"
    using reply_frames [of g tx None]
    by (auto simp: send_ack_def response_def emits_raise write_drain_emits simp del: emits_update split: sum.split)
  moreover obtain res w2 where r: "send_ack g tx ?w = (res, w2)" by force
  ultimately have "emits g 1 w (res, w2)" by simp
  then have "emits g 1 w (case res of Inl e \<Rightarrow> (Inl e, w2) | Inr u \<Rightarrow> (Inr (), w2\<lparr>w_fs := fs\<rparr>))" for fs
    by (cases res) (auto simp: emits_def)
  moreover have "emits g 1 w (send_nack g tx INGEST_FAILED ?w)" using send_nack_emits [of g ?w tx INGEST_FAILED] by simp
  ultimately show ?thesis
    by (cases i; cases "g_now g"; cases res) (simp_all add: ingest_and_ack_def i r)
qed

lemma decompress_emits: "emits g 2 w (decompress_and_validate g env w)"
proof -
  have "emits g (1 + 1) w (except_all (send_nack g tx r w) (send_nack g tx r))" for tx r
    by (rule emits_except) (rule send_nack_emits)+
  moreover have "emits g 2 w (send_nack g tx r w)" "emits g 2 w (ingest_and_ack g tx b w)" for tx r b
    using emits_mono [OF send_nack_emits] emits_mono [OF ingest_and_ack_emits] by simp_all
  ultimately show ?thesis
    by (auto simp: decompress_and_validate_def Let_def numeral_2_eq_2 split: option.split sum.split)
qed

lemma authenticate_emits: "emits g 2 w (authenticate g env fp w)"
proof -
  have n: "emits g 2 w (send_nack g tx r (w\<lparr>w_verifier := v\<rparr>))" "emits g 2 w (send_nack g tx r w)"
      "emits g 2 w (decompress_and_validate g env (w\<lparr>w_verifier := v\<rparr>))" for tx r v
    using emits_mono [OF send_nack_emits [of g "w\<lparr>w_verifier := v\<rparr>" tx r], of 2] emits_mono [OF send_nack_emits, of 2]
      decompress_emits [of g "w\<lparr>w_verifier := v\<rparr>" env] by simp_all
  then show ?thesis
    by (auto simp: authenticate_def Let_def emits_raise split: sum.split bool.split prod.split)
qed

lemma process_emits: "emits g 3 w (process_transaction g payload fp w)"
proof -
  have two: "emits g (1 + 1) w1 (except_all (send_nack g tx r w1) (send_nack g tx r))" for w1 tx r
    by (rule emits_except) (rule send_nack_emits)+
  have three: "emits g (2 + 1) w (except_all m (send_nack g tx r))" if "emits g 2 w m" for m tx r
    using that by (rule emits_except) (rule send_nack_emits)
  show ?thesis
    using emits_mono [OF two, of 3] three [OF two [simplified one_add_one]] three [OF authenticate_emits]
    by (auto simp: process_transaction_def Let_def split: sum.split)
qed

lemma guard_emits:
  assumes "emits g 3 w m"
  shows "\<exists>fs. w_written (snd (frame_guard g m)) = w_written w @ fs \<and> (\<forall>f \<in> set fs. reply_frame g f) \<and> length fs \<le> 3"
proof (cases m)
  case (Pair res w1)
  from assms obtain fs where fs: "w_written w1 = w_written w @ fs" "\<forall>f \<in> set fs. reply_frame g f" "length fs \<le> 3"
      "\<forall>e. res = Inl e \<longrightarrow> e \<noteq> ConnectionError \<longrightarrow> length fs < 3"
    by (auto simp: emits_def Pair)
  from send_nack_emits [of g w1 "''0''" MALFORMED] obtain gs where
    gs: "w_written (snd (send_nack g ''0'' MALFORMED w1)) = w_written w1 @ gs" "\<forall>f \<in> set gs. reply_frame g f" "length gs \<le> 1"
    by (auto simp: emits_def)
  show ?thesis
  proof (cases "\<exists>e. res = Inl e \<and> (e = OversizedFrameError \<or> e = MalformedFrameError \<or> e = InvalidMessageTypeError)")
    case True
    with fs gs show ?thesis by (intro exI [of _ "fs @ gs"]) (auto simp: frame_guard_def Pair)
  next
    case False
    with fs show ?thesis by (intro exI [of _ fs]) (auto simp: frame_guard_def Pair split: sum.split)
  qed
qed

lemma on_result_emits:
  "\<exists>fs. w_written (snd (on_result g fp r w)) = w_written w @ fs \<and> (\<forall>f \<in> set fs. reply_frame g f) \<and> length fs \<le> 3"
  unfolding on_result_def
  by (rule guard_emits)
    (auto simp: emits_raise process_emits emits_mono [OF send_nack_emits] split: sum.split)

section \<open>A gateway for the witnesses\<close>

definition demo_stix :: pyval where
  "demo_stix = VDict [(''type'', VStr ''bundle''), (''objects'', VList [])]"

definition demo_payload :: bytes where
  "demo_payload = map byte_of_char (json_dumps demo_stix)"

definition demo_sk :: private_key where
  "demo_sk = gen_mldsa demo_crypto 7"

definition demo_fp :: string where
  "demo_fp = hex_bytes (sha256 [1, 2, 3])"

definition demo_agency :: pyval where
  "demo_agency = VDict [(''agency_id'', VStr ''RAW''),
     (''payload_signing_public_key_path'', VStr ''k.pub''),
     (''payload_signing_public_key_fingerprint'', VStr ''cd''),
     (''tls_certificate_fingerprint'', VStr demo_fp)]"

definition demo_gateway :: gateway where
  "demo_gateway =
     \<lparr>g_crypto = demo_crypto, g_pb = json_pb, g_zlib_decompress = Some,
      g_pycti = \<lparr>pycti_installed = True, client_connects = (\<lambda>_ _. False), import_bundle = (\<lambda>_. True)\<rparr>,
      g_trust_store = \<lparr>trust_store_path = ''t'', revocation_list_path = ''r'', ts_pki_base_dir = [],
        agencies = [VStr ''RAW'' \<mapsto> demo_agency], revoked_fingerprints = {}\<rparr>,
      g_pep = \<lparr>rules = main_rules\<rparr>, g_frame_codec = FrameCodec_default, g_now = (1, 2, 3)\<rparr>"

definition demo_world :: world where
  "demo_world =
     \<lparr>w_fs = write_file ''pki/k.pub'' (pem_public demo_crypto (pub_of demo_crypto demo_sk)) fs_empty,
      w_verifier = MLDSAVerifier_init ''pki'',
      w_ingestor = \<lparr>ing_url = ''u'', ing_token = ''mock'', is_mock = True, invocation_count = 0\<rparr>,
      w_written = [], w_drains = [], w_closed = False, w_wait_closed = None\<rparr>"

definition demo_env :: TransactionEnvelope where
  "demo_env = \<lparr>transaction_id = ''tx-1'', sender_id = ''RAW'', recipient_id = ''NIA'',
     tlp_marking = AMBER, stix_bundle_compressed = demo_payload,
     signature = sk_bits demo_sk @ sha256 demo_payload, signer_cert_fingerprint = ''ab'',
     created_at_unix_ms = 1700000000000\<rparr>"

definition demo_bytes :: bytes where
  "demo_bytes = (case to_bytes json_pb demo_env of Inl _ \<Rightarrow> [] | Inr b \<Rightarrow> b)"

lemma demo_from_bytes: "from_bytes (g_pb demo_gateway) demo_bytes = Inr demo_env"
proof -
  have "valid_text ''tx-1''" "valid_text ''RAW''" "valid_text ''NIA''" "valid_text ''ab''"
    by (simp_all add: ascii_valid ascii_def)
  then have "\<exists>b. to_bytes json_pb demo_env = Inr b"
    by (simp add: to_bytes_def to_proto_def int64_def demo_env_def)
  then have "to_bytes json_pb demo_env = Inr demo_bytes" by (auto simp: demo_bytes_def)
  from envelope_from_to [OF json_pb_roundtrip this] show ?thesis by (simp add: demo_gateway_def)
qed

lemma demo_simps [simp]:
  "transaction_id demo_env = ''tx-1''" "w_written demo_world = []"
  "g_crypto demo_gateway = demo_crypto" "w_verifier demo_world = MLDSAVerifier_init ''pki''"
  "pki_base_dir (MLDSAVerifier_init base) = base"
  by (simp_all add: demo_env_def demo_world_def demo_gateway_def MLDSAVerifier_init_def)

lemma demo_stix_ok: "json_ok demo_stix"
  by (simp add: demo_stix_def ascii_valid ascii_def)

lemma demo_parse: "parse_stix demo_payload = Inr (Some demo_stix)"
proof -
  have "decode_utf8 demo_payload = Inr (json_dumps demo_stix)"
    using dumps_valid_text [OF demo_stix_ok]
    by (intro decode_encode_utf8) (simp add: encode_utf8_def demo_payload_def)
  then show ?thesis
    unfolding parse_stix_def by (simp add: json_loads_dumps [OF demo_stix_ok]) (auto simp: demo_stix_def)
qed

lemma demo_dumps: "json_dumps demo_stix = ''{\"type\": \"bundle\", \"objects\": []}''"
  by (simp add: demo_stix_def json_str_plain plain_char_def)

lemma demo_ready: "cache_ok (g_crypto demo_gateway) (w_fs demo_world) (w_verifier demo_world)"
  "quiet demo_world" "codec_ok (g_frame_codec demo_gateway)"
  by (simp_all add: demo_world_def quiet_def demo_gateway_def codec_ok_def FrameCodec_default_def
      DEFAULT_MAX_PAYLOAD_SIZE_def)

lemma demo_verdict: "verdict demo_gateway demo_world demo_env demo_fp = None"
proof -
  have i: "fst (ingest_bundle (g_pycti demo_gateway) demo_stix (w_ingestor demo_world))"
    unfolding ingest_bundle_def Let_def ingest_sync_def demo_dumps
    by (simp add: demo_world_def str_contains_def)
      (simp add: demo_stix_def)
  have s: "stix_of demo_gateway demo_env = Some demo_stix"
    using demo_parse by (simp add: stix_of_def demo_gateway_def demo_env_def)
  have m: "\<not> missing_fields demo_env"
  proof -
    have "length (sha256 demo_payload) \<noteq> 0" by simp
    then have "sha256 demo_payload \<noteq> []" by (metis list.size(3))
    moreover have "demo_payload \<noteq> []" by (simp add: demo_payload_def demo_dumps)
    ultimately show ?thesis by (simp add: missing_fields_def demo_env_def)
  qed
  have a: "the_agency demo_gateway demo_env = demo_agency"
    by (simp add: the_agency_def demo_gateway_def demo_env_def get_agency_def)
  have p: "the_key_path demo_gateway demo_env = VStr ''k.pub''"
    by (simp add: the_key_path_def a) (simp add: demo_agency_def)
  have v: "verify_uncached (g_crypto demo_gateway) (w_fs demo_world) (pki_base_dir (w_verifier demo_world))
      (stix_bundle_compressed demo_env) (signature demo_env) (VStr ''k.pub'')"
    by (simp add: verify_uncached_def demo_gateway_def demo_world_def demo_env_def MLDSAVerifier_init_def
        load_public_key_file_def read_file_def key_verify_def demo_sk_def demo_crypto_def)
  show ?thesis
    unfolding verdict_def auth_checks_def content_checks_def a p s
    using i m v
    by (simp add: revocation_check_def is_revoked_def demo_agency_def)
      (auto simp: demo_gateway_def demo_env_def evaluate_def main_rules_def field_match_def)
qed

section \<open>Properties\<close>

text \<open>
  C4: Gateway B implements the list of checks. When the writer does not fail and the transaction
  id is short enough for its reply to fit, \<open>process_transaction\<close> returns and has written exactly
  one frame: the acknowledgement if every check passes, and otherwise the \<open>NACK\<close> whose reason is
  that of the first check that fails, whether the code reached it by a test or by an exception.
\<close>

theorem transaction_implements_checks:
  assumes "cache_ok (g_crypto g) (w_fs w) (w_verifier w)" and "quiet w"
    and "codec_ok (g_frame_codec g)" and "from_bytes (g_pb g) payload = Inr env"
    and "12 * int (length (transaction_id env)) + 500 \<le> max_payload_size (g_frame_codec g)"
  shows "\<exists>f. response g (transaction_id env) (verdict g w env fp) = Inr f
    \<and> fst (process_transaction g payload fp w) = Inr ()
    \<and> w_written (snd (process_transaction g payload fp w)) = w_written w @ [f]"
proof -
  from response_cases(2) [OF assms(3,5)] obtain f where
    f: "response g (transaction_id env) (verdict g w env fp) = Inr f" by blast
  from process_answers [OF assms(1,2,4) f] f show ?thesis by (auto simp: answers_def)
qed

theorem transaction_implements_checks_witness:
  "\<exists>f. ack_frame demo_gateway ''tx-1'' = Inr f
    \<and> w_written (snd (process_transaction demo_gateway demo_bytes demo_fp demo_world)) = [f]"
proof -
  have "12 * int (length (transaction_id demo_env)) + 500 \<le> max_payload_size (g_frame_codec demo_gateway)"
    by (simp add: demo_env_def demo_gateway_def FrameCodec_default_def DEFAULT_MAX_PAYLOAD_SIZE_def)
  from transaction_implements_checks [OF demo_ready demo_from_bytes this, of demo_fp]
  show ?thesis by (auto simp: demo_verdict response_def)
qed

text \<open>
  C3: an acknowledgement means that everything was checked. Whatever the writer does, if any
  frame written for a transaction is an \<open>ACK\<close>, then the envelope decoded, its sender is in the
  trust store, the peer presented that sender's certificate, neither certificate nor key is
  revoked, the signature verifies with the sender's registered key, the policy allows the
  transfer, the payload is a STIX bundle and the ingestor took it.
\<close>

theorem ack_means_checked:
  assumes "cache_ok (g_crypto g) (w_fs w) (w_verifier w)"
    and "process_transaction g payload fp w = (r, w')"
    and "w_written w' = w_written w @ fs" and "f \<in> set fs" and "hd f = 2"
  shows "\<exists>env bundle. from_bytes (g_pb g) payload = Inr env
    \<and> truthy (get_agency (g_trust_store g) (sender_id env))
    \<and> py_getitem (get_agency (g_trust_store g) (sender_id env)) ''tls_certificate_fingerprint''
        = Inr (VStr fp)
    \<and> revocation_check (g_trust_store g) (get_agency (g_trust_store g) (sender_id env)) fp = Inr False
    \<and> verify_uncached (g_crypto g) (w_fs w) (pki_base_dir (w_verifier w)) (stix_bundle_compressed env)
        (signature env) (the_key_path g env)
    \<and> fst (evaluate (g_pep g) (sender_id env) (recipient_id env) (TlpMarking_value (tlp_marking env)))
    \<and> stix_of g env = Some bundle \<and> fst (ingest_bundle (g_pycti g) bundle (w_ingestor w))"
proof -
  have "\<not> only_nacks w (process_transaction g payload fp w)"
    using assms(2-5) by (auto simp: only_nacks_def intro!: bexI [of _ f])
  with process_only_nacks [OF assms(1)] obtain env where
    e: "from_bytes (g_pb g) payload = Inr env" "verdict g w env fp = None" by blast
  from e(2) obtain b where "stix_of g env = Some b"
    "fst (ingest_bundle (g_pycti g) b (w_ingestor w))"
    by (auto simp: verdict_def first_failure_append content_checks_def split: option.splits if_splits)
  with e show ?thesis
    by (auto simp: verdict_def auth_checks_def the_agency_def split: if_splits)
qed

theorem ack_means_checked_witness:
  "\<exists>env bundle. from_bytes (g_pb demo_gateway) demo_bytes = Inr env
    \<and> stix_of demo_gateway env = Some bundle
    \<and> verify_uncached demo_crypto (w_fs demo_world) ''pki'' (stix_bundle_compressed env) (signature env)
        (the_key_path demo_gateway env)"
proof -
  have "12 * int (length ''tx-1'') + 500 \<le> max_payload_size (g_frame_codec demo_gateway)"
    by (simp add: demo_gateway_def FrameCodec_default_def DEFAULT_MAX_PAYLOAD_SIZE_def)
  from response_cases(2) [OF demo_ready(3) this, of None]
  obtain f where f: "ack_frame demo_gateway ''tx-1'' = Inr f" by (auto simp: response_def)
  then have "response demo_gateway (transaction_id demo_env) (verdict demo_gateway demo_world demo_env demo_fp)
      = Inr f"
    by (simp add: demo_verdict response_def)
  from process_answers [OF demo_ready(1,2) demo_from_bytes this]
  have w: "w_written (snd (process_transaction demo_gateway demo_bytes demo_fp demo_world))
      = w_written demo_world @ [f]" by (simp add: answers_def)
  have "hd f = 2" by (rule frame_types(2) [OF f])
  from ack_means_checked [OF demo_ready(1) prod.collapse [symmetric] w _ this]
  show ?thesis by auto
qed

text \<open>
  C5: verify before use. If the identity, revocation, signature or policy check fails, the
  outcome does not depend on the decompressor or on the ingestor at all (any other functions in
  their place give the same result), nothing is ingested and no telemetry is written.
\<close>

theorem unverified_payload_untouched:
  assumes "cache_ok (g_crypto g) (w_fs w) (w_verifier w)" and "from_bytes (g_pb g) payload = Inr env"
    and "first_failure (auth_checks g (w_fs w) (pki_base_dir (w_verifier w)) env fp) = Some r"
  shows "process_transaction (g\<lparr>g_zlib_decompress := z, g_pycti := p\<rparr>) payload fp w
      = process_transaction g payload fp w
    \<and> w_ingestor (snd (process_transaction g payload fp w)) = w_ingestor w
    \<and> w_fs (snd (process_transaction g payload fp w)) = w_fs w"
  using unauthenticated_keeps [OF assms] authenticate_fail_libs [OF assms(1), where z = z and p = p] assms(2,3)
  by (simp add: process_transaction_def Let_def)

theorem unverified_payload_untouched_witness:
  "process_transaction (demo_gateway\<lparr>g_zlib_decompress := (\<lambda>_. None), g_pycti := g_pycti demo_gateway\<rparr>)
      demo_bytes ''UNKNOWN'' demo_world
    = process_transaction demo_gateway demo_bytes ''UNKNOWN'' demo_world"
proof -
  have "length demo_fp \<noteq> length ''UNKNOWN''" by (simp add: demo_fp_def length_hex_bytes)
  then have n: "demo_fp \<noteq> ''UNKNOWN''" by metis
  have a: "the_agency demo_gateway demo_env = demo_agency"
    by (simp add: the_agency_def demo_gateway_def demo_env_def get_agency_def)
  have m: "\<not> missing_fields demo_env"
    using demo_verdict by (auto simp: verdict_def auth_checks_def split: if_splits)
  have "first_failure (auth_checks demo_gateway (w_fs demo_world) (pki_base_dir (w_verifier demo_world))
      demo_env ''UNKNOWN'') = Some IDENTITY_MISMATCH"
    unfolding auth_checks_def a using m n by (simp add: demo_agency_def)
  from unverified_payload_untouched [OF demo_ready(1) demo_from_bytes this] show ?thesis by blast
qed

text \<open>
  C6: the replies of a connection. A peer whose certificate the TLS layer does not report makes the
  handler raise: nothing is read or written, and the writer is left open. Otherwise the writer is
  closed, and only an error of the final wait escapes. If no complete frame and no invalid header
  arrives, nothing is written. If one does, and no \<open>drain\<close> raises, exactly one \<open>ACK\<close> or \<open>NACK\<close> frame
  is written, also when the reply to the transaction itself does not fit in a frame; if some
  \<open>drain\<close> raises, the handlers may reply again, but never more than three frames are written.
\<close>

theorem one_reply_per_connection:
  assumes "codec_ok (g_frame_codec g)"
  shows "case peer_fingerprint p of
      Inl e \<Rightarrow> handle_connection g p fin chunks w = (Inl e, w)
    | Inr fp \<Rightarrow>
        fst (handle_connection g p fin chunks w) = (case w_wait_closed w of None \<Rightarrow> Inr () | Some e \<Rightarrow> Inl e)
        \<and> w_closed (snd (handle_connection g p fin chunks w))
        \<and> (\<exists>fs. w_written (snd (handle_connection g p fin chunks w)) = w_written w @ fs
            \<and> (\<forall>f \<in> set fs. reply_frame g f)
            \<and> (if first_result (decode_frame_stream (g_frame_codec g)) [] chunks = None then fs = []
               else if quiet w then length fs = 1 else length fs \<le> 3))"
proof (cases "peer_fingerprint p")
  case (Inl e)
  then show ?thesis by (simp add: handle_connection_def)
next
  case fp: (Inr fp)
  show ?thesis
  proof (cases "first_result (decode_frame_stream (g_frame_codec g)) [] chunks")
    case None
    then show ?thesis
      using read_loop_none [OF None, of fp fin w] fp by (auto simp: handle_connection_def split: prod.split)
  next
    case (Some r)
    note rl = read_loop_first [OF Some, of fp fin w]
    have "\<exists>fs. w_written (snd (on_result g fp r w)) = w_written w @ fs \<and> (\<forall>f \<in> set fs. reply_frame g f)
        \<and> (if quiet w then length fs = 1 else length fs \<le> 3)"
    proof (cases "quiet w")
      case True
      from on_result_answers [OF assms True Some, of fp] obtain f where
        "reply_frame g f" "w_written (snd (on_result g fp r w)) = w_written w @ [f]" by (auto simp: answers_def)
      with True show ?thesis by (intro exI [of _ "[f]"]) simp
    next
      case False
      with on_result_emits [of g fp r w] show ?thesis by simp
    qed
    then show ?thesis using fp rl Some by (auto simp: handle_connection_def split: prod.split)
  qed
qed

theorem one_reply_per_connection_witness:
  "w_closed (snd (handle_connection demo_gateway NoSsl None [[1, 0], [0, 0, 0]] demo_world))
   \<and> (\<exists>f. w_written (snd (handle_connection demo_gateway NoSsl None [[1, 0], [0, 0, 0]] demo_world)) = [f])"
proof -
  have "first_result (decode_frame_stream (g_frame_codec demo_gateway)) [] [[1, 0], [0, 0, 0]]
      = Some (Inr (Some SIGNED_BUNDLE, Some [], []))"
    by (simp add: decode_frame_stream_def unpack_BI_def MessageType_of_def HEADER_SIZE_def
        demo_gateway_def FrameCodec_default_def DEFAULT_MAX_PAYLOAD_SIZE_def)
  with one_reply_per_connection [OF demo_ready(3), of NoSsl None "[[1, 0], [0, 0, 0]]" demo_world] demo_ready(2)
  show ?thesis by (auto simp: length_Suc_conv)
qed

text \<open>
  C7: how the network cuts the stream matters in one respect only. On a stream that starts with a
  frame, a reader sees the frame when it is complete, and then: if some read ended exactly with the
  frame and it carries a signed bundle, the payload is processed, for every way of cutting the frame
  and whatever arrives afterwards; if the read that completed the frame brought further octets, or
  for another type of frame, the answer is \<open>MALFORMED\<close>. While the frame is incomplete, nothing
  happens.
\<close>

theorem frame_end_decides:
  assumes "encode_frame (g_frame_codec g) t payload = Inr frame" and "[] \<notin> set chunks"
  shows "(strict_prefix (concat chunks) frame \<longrightarrow> snd (read_loop g fp fin [] chunks w) = w)
    \<and> (prefix frame (concat chunks) \<longrightarrow>
        read_loop g fp fin [] chunks w = frame_guard g
          (if t = SIGNED_BUNDLE \<and> (\<exists>k. concat (take k chunks) = frame) then process_transaction g payload fp w
           else send_nack g ''0'' MALFORMED w))"
proof (intro conjI impI)
  assume "strict_prefix (concat chunks) frame"
  from frames.first_result_incomplete [OF assms(1), of "[]"] this
  have "first_result (decode_frame_stream (g_frame_codec g)) [] chunks = None" by simp
  from read_loop_none [OF this] show "snd (read_loop g fp fin [] chunks w) = w" .
next
  assume p: "prefix frame (concat chunks)"
  have "strict_prefix [] frame" using assms(1) by (auto simp: encode_frame_Inr)
  from frames.first_result_stream [OF assms(1) this _ assms(2)] p obtain r where
    r: "first_result (decode_frame_stream (g_frame_codec g)) [] chunks = Some (Inr (Some t, Some payload, r))"
      "r = [] \<longleftrightarrow> (\<exists>k. concat (take k chunks) = frame)" by auto
  from read_loop_first [OF r(1)] r(2)
  show "read_loop g fp fin [] chunks w = frame_guard g
      (if t = SIGNED_BUNDLE \<and> (\<exists>k. concat (take k chunks) = frame) then process_transaction g payload fp w
       else send_nack g ''0'' MALFORMED w)"
    by (cases "t = SIGNED_BUNDLE \<and> r = []") (auto simp: on_result_def)
qed

theorem frame_end_decides_witness:
  "read_loop demo_gateway ''x'' None [] [[1, 0], [0, 0, 1], [7], [9]] demo_world
      = frame_guard demo_gateway (process_transaction demo_gateway [7] ''x'' demo_world)
   \<and> read_loop demo_gateway ''x'' None [] [[1, 0], [0, 0, 1], [7, 9]] demo_world
      = frame_guard demo_gateway (send_nack demo_gateway ''0'' MALFORMED demo_world)"
proof -
  have e: "encode_frame (g_frame_codec demo_gateway) SIGNED_BUNDLE [7] = Inr [1, 0, 0, 0, 1, 7]"
    by (simp add: encode_frame_Inr demo_gateway_def FrameCodec_default_def DEFAULT_MAX_PAYLOAD_SIZE_def
        be32_def)
  have "\<exists>k. concat (take k [[1, 0], [0, 0, 1], [7], [9]]) = [1, 0, 0, 0, 1, (7 :: 8 word)]"
    by (rule exI [of _ 3]) simp
  moreover have "concat (take k [[1, 0], [0, 0, 1], [7, 9]]) \<noteq> [1, 0, 0, 0, 1, (7 :: 8 word)]" for k
    by (cases k rule: nat.exhaust) (auto simp: take_Cons' split: if_splits)
  ultimately show ?thesis
    using frame_end_decides [OF e, of "[[1, 0], [0, 0, 1], [7], [9]]" "''x''" None demo_world]
      frame_end_decides [OF e, of "[[1, 0], [0, 0, 1], [7, 9]]" "''x''" None demo_world] by simp
qed

end
