(* ===== verification/Gateway_B_Server.thy ===== *)
theory Gateway_B_Server
  imports Interfaces Py_Env Gateway_B_Protocol
begin

text \<open>
  The process of Gateway B: its configuration (\<open>gateway_b/config.py\<close>), the TLS server with its
  bound on concurrent connections (\<open>gateway_b/transport/tls_server.py\<close>) and the start-up
  (\<open>gateway_b/main.py\<close>).

  The server's semaphore is a state machine: a connection waits for a slot in order of arrival,
  is handled, and gives its slot to the next one when its handler returns, with or without an
  exception. What a handler does is \<open>handle_connection\<close> of \<open>Gateway_B_Protocol\<close>.
\<close>

section \<open>Configuration\<close>

record GatewayConfig =
  listen_host :: string
  listen_port :: int
  max_concurrent_connections :: int
  hybrid_group :: string
  cfg_agency_id :: string
  cfg_cert_path :: string
  cfg_key_path :: string
  cfg_ca_trust_path :: string
  cfg_trust_store_path :: string
  cfg_revocation_list_path :: string
  opencti_url :: string
  opencti_token :: string
  executor_workers :: int

definition GatewayConfig_load :: "environ \<Rightarrow> GatewayConfig result" where
  "GatewayConfig_load env =
     rbind (py_int (getenv env ''LISTEN_PORT'' ''8443'')) (\<lambda>port.
     rbind (py_int (getenv env ''MAX_CONCURRENT_CONNECTIONS'' ''10'')) (\<lambda>conns.
     rbind (py_int (getenv env ''EXECUTOR_WORKERS'' ''4'')) (\<lambda>workers.
       Inr \<lparr>listen_host = getenv env ''LISTEN_HOST'' ''0.0.0.0'', listen_port = port,
            max_concurrent_connections = conns,
            hybrid_group = getenv env ''HYBRID_GROUP'' ''X25519MLKEM768'',
            cfg_agency_id = getenv env ''AGENCY_ID'' ''NIA'',
            cfg_cert_path = getenv env ''CERT_PATH'' ''/app/pki/gateway_nia/nia_gateway.crt'',
            cfg_key_path = getenv env ''KEY_PATH'' ''/app/pki/gateway_nia/nia_gateway.key'',
            cfg_ca_trust_path = getenv env ''CA_TRUST_PATH'' ''/app/pki/ca/root_ca.crt'',
            cfg_trust_store_path = getenv env ''TRUST_STORE_PATH'' ''/app/pki/trust_store.yaml'',
            cfg_revocation_list_path =
              getenv env ''REVOCATION_LIST_PATH'' ''/app/pki/revocation_list.yaml'',
            opencti_url = getenv env ''OPENCTI_URL'' ''http://opencti:8080'',
            opencti_token = getenv env ''OPENCTI_API_TOKEN'' [],
            executor_workers = workers\<rparr>)))"

section \<open>The TLS server\<close>

record TLSServer =
  srv_host :: string
  srv_port :: int
  srv_cert_path :: string
  srv_key_path :: string
  srv_ca_trust_path :: string
  srv_hybrid_group :: string
  srv_max_concurrent :: nat

text \<open>The constructor; \<open>asyncio.Semaphore\<close> refuses a negative value.\<close>

definition TLSServer_init ::
    "string \<Rightarrow> int \<Rightarrow> string \<Rightarrow> string \<Rightarrow> string \<Rightarrow> string \<Rightarrow> int \<Rightarrow> TLSServer result" where
  "TLSServer_init host port cert key ca grp max_concurrent =
     (if max_concurrent < 0 then Inl ValueError
      else Inr \<lparr>srv_host = host, srv_port = port, srv_cert_path = cert, srv_key_path = key,
                srv_ca_trust_path = ca, srv_hybrid_group = grp,
                srv_max_concurrent = nat max_concurrent\<rparr>)"

definition create_ssl_context_b :: "fsys \<Rightarrow> TLSServer \<Rightarrow> ssl_context result" where
  "create_ssl_context_b fs srv =
     (let c = (SSLContext PROTOCOL_TLS_SERVER)
                \<lparr>minimum_version := TLSv1_3, maximum_version := TLSv1_3,
                 ctx_verify_mode := CERT_REQUIRED\<rparr>
      in rbind (load_verify_locations fs (srv_ca_trust_path srv) c)
           (load_cert_chain fs (srv_cert_path srv) (srv_key_path srv)))"

text \<open>The semaphore: its value and the clients in each phase of \<open>handle_client\<close>.\<close>

record server_state =
  sem_value :: nat
  waiting :: "nat list"
  active :: "nat list"
  finished :: "nat list"

definition server_init :: "TLSServer \<Rightarrow> server_state" where
  "server_init srv =
     \<lparr>sem_value = srv_max_concurrent srv, waiting = [], active = [], finished = []\<rparr>"

text \<open>A client arrives at \<open>async with self.semaphore\<close>.\<close>

definition client_arrives :: "nat \<Rightarrow> server_state \<Rightarrow> server_state" where
  "client_arrives c s =
     (if sem_value s > 0 \<and> waiting s = []
      then s\<lparr>sem_value := sem_value s - 1, active := active s @ [c]\<rparr>
      else s\<lparr>waiting := waiting s @ [c]\<rparr>)"

text \<open>Its handler returns or raises: the semaphore is released and wakes the first waiter.\<close>

definition client_leaves :: "nat \<Rightarrow> server_state \<Rightarrow> server_state" where
  "client_leaves c s =
     (let s1 = s\<lparr>active := remove1 c (active s), finished := finished s @ [c]\<rparr>
      in case waiting s of
           [] \<Rightarrow> s1\<lparr>sem_value := sem_value s + 1\<rparr>
         | d # ds \<Rightarrow> s1\<lparr>waiting := ds, active := active s1 @ [d]\<rparr>)"

inductive server_step :: "server_state \<Rightarrow> server_state \<Rightarrow> bool" where
  arrive: "c \<notin> set (waiting s @ active s @ finished s) \<Longrightarrow> server_step s (client_arrives c s)"
| leave: "c \<in> set (active s) \<Longrightarrow> server_step s (client_leaves c s)"

inductive_cases server_stepE: "server_step s t"

section \<open>Start-up\<close>

text \<open>What the process finds: interpreter, TLS library, and whether ML-DSA keys can be made.\<close>

record platform =
  version_info :: "nat \<times> nat \<times> nat"
  OPENSSL_VERSION :: string
  mldsa_available :: bool

definition check_phase0_baseline :: "platform \<Rightarrow> unit result" where
  "check_phase0_baseline p =
     (if version_info p \<noteq> (3, 14, 6) then Inl (SystemExit ''1'')
      else if \<not> str_contains ''3.5.7'' (OPENSSL_VERSION p) then Inl (SystemExit ''1'')
      else if \<not> mldsa_available p then Inl (SystemExit ''1'')
      else Inr ())"

text \<open>What is running after \<open>main\<close> has reached \<open>serve_forever\<close>.\<close>

record running =
  run_gateway :: gateway
  run_verifier :: MLDSAVerifier
  run_ingestor :: OpenCTIIngestor
  run_server :: TLSServer
  run_context :: ssl_context

record libraries =
  lib_crypto :: crypto_lib
  lib_pb :: pb_lib
  lib_yaml :: yaml_lib
  lib_zlib_decompress :: "bytes \<Rightarrow> bytes option"
  lib_pycti :: pycti_lib

text \<open>\<open>try: ... except Exception: sys.exit(1)\<close>.\<close>

definition exit_on_error :: "'a result \<Rightarrow> 'a result" where
  "exit_on_error r = (case r of Inl _ \<Rightarrow> Inl (SystemExit ''1'') | Inr x \<Rightarrow> Inr x)"

lemma exit_on_error_Inr [simp]: "exit_on_error r = Inr x \<longleftrightarrow> r = Inr x"
  by (simp add: exit_on_error_def split: sum.split)

text \<open>
  The defaults of the configuration class are evaluated when its module is imported, so an
  integer that cannot be read is an error before anything else.
\<close>

definition main_b :: "libraries \<Rightarrow> platform \<Rightarrow> environ \<Rightarrow> fsys \<Rightarrow> running result" where
  "main_b lib p env fs =
     rbind (GatewayConfig_load env) (\<lambda>config.
     rbind (check_phase0_baseline p) (\<lambda>_.
     rbind (exit_on_error (TrustStore_init (lib_yaml lib) (cfg_trust_store_path config)
              (cfg_revocation_list_path config) fs)) (\<lambda>trust_store.
          let verifier = MLDSAVerifier_init ''/app/pki'';
              pep = \<lparr>rules = main_rules\<rparr>;
              handler = \<lparr>g_crypto = lib_crypto lib, g_pb = lib_pb lib,
                 g_zlib_decompress = lib_zlib_decompress lib, g_pycti = lib_pycti lib,
                 g_trust_store = trust_store, g_pep = pep, g_frame_codec = FrameCodec_default,
                 g_now = (0, 0, 0)\<rparr>
          in rbind (OpenCTIIngestor_init (lib_pycti lib) (opencti_url config) (opencti_token config)
                      (executor_workers config)) (\<lambda>ingestor.
             rbind (TLSServer_init (listen_host config) (listen_port config) (cfg_cert_path config)
                      (cfg_key_path config) (cfg_ca_trust_path config) (hybrid_group config)
                      (max_concurrent_connections config)) (\<lambda>server.
             rbind (create_ssl_context_b fs server) (\<lambda>context.
               Inr \<lparr>run_gateway = handler, run_verifier = verifier, run_ingestor = ingestor,
                    run_server = server, run_context = context\<rparr>))))))"

section \<open>The invariant of the semaphore\<close>

definition server_inv :: "nat \<Rightarrow> server_state \<Rightarrow> bool" where
  "server_inv n s =
     (sem_value s + length (active s) = n
      \<and> (waiting s \<noteq> [] \<longrightarrow> sem_value s = 0)
      \<and> distinct (waiting s @ active s @ finished s))"

lemma server_inv_init: "server_inv (srv_max_concurrent srv) (server_init srv)"
  by (simp add: server_inv_def server_init_def)

lemma arrives_inv:
  "server_inv n s \<Longrightarrow> c \<notin> set (waiting s @ active s @ finished s) \<Longrightarrow> server_inv n (client_arrives c s)"
  by (auto simp: server_inv_def client_arrives_def)

lemma leaves_inv:
  assumes "server_inv n s" "c \<in> set (active s)"
  shows "server_inv n (client_leaves c s)"
proof -
  from assms have d: "distinct (active s)" "length (active s) > 0" "sem_value s + length (active s) = n"
    by (auto simp: server_inv_def)
  then have l: "length (remove1 c (active s)) = length (active s) - 1"
    "set (remove1 c (active s)) = set (active s) - {c}"
    using assms(2) by (simp_all add: length_remove1)
  show ?thesis
    using assms d l
    by (auto simp: server_inv_def client_leaves_def Let_def distinct_remove1 split: list.split)
qed

lemma server_step_inv: "server_inv n s \<Longrightarrow> server_step s t \<Longrightarrow> server_inv n t"
  by (erule server_stepE) (auto intro: arrives_inv leaves_inv)

interpretation server: guarded_system server_step "server_inv n" for n
  by unfold_locales (rule server_step_inv)

text \<open>Slots are handed on in order of arrival.\<close>

lemma leaves_waiting: "waiting (client_leaves c s) = tl (waiting s)"
  by (simp add: client_leaves_def Let_def split: list.split)

lemma leaves_promotes: "waiting s = d # ds \<Longrightarrow> d \<in> set (active (client_leaves c s))"
  by (simp add: client_leaves_def)

lemma server_context:
  "create_ssl_context_b fs srv = Inr c \<Longrightarrow> minimum_version c = TLSv1_3
     \<and> maximum_version c = TLSv1_3 \<and> ctx_verify_mode c = CERT_REQUIRED"
  by (auto simp: create_ssl_context_b_def Let_def load_verify_locations_def load_cert_chain_def
      split: if_splits)

section \<open>Properties\<close>

text \<open>
  C26: however clients arrive and leave, no more than \<open>max_concurrent\<close> connections are handled at
  the same time, no slot is lost (the free slots and the busy ones always add up), and a client
  waits only while every slot is taken.
\<close>

theorem connections_bounded:
  assumes "server_step\<^sup>*\<^sup>* (server_init srv) s"
  shows "length (active s) \<le> srv_max_concurrent srv
    \<and> sem_value s + length (active s) = srv_max_concurrent srv
    \<and> (waiting s \<noteq> [] \<longrightarrow> length (active s) = srv_max_concurrent srv)"
  using server.reach_inv [OF assms server_inv_init] by (auto simp: server_inv_def)

theorem connections_bounded_witness:
  "\<exists>srv s. TLSServer_init ''h'' 1 ''c'' ''k'' ''a'' ''g'' 1 = Inr srv \<and> server_step\<^sup>*\<^sup>* (server_init srv) s
    \<and> waiting s = [8] \<and> length (active s) = 1 \<and> sem_value s = 0"
proof -
  obtain srv where srv: "TLSServer_init ''h'' 1 ''c'' ''k'' ''a'' ''g'' 1 = Inr srv"
    "srv_max_concurrent srv = 1" by (simp add: TLSServer_init_def)
  let ?s1 = "client_arrives 7 (server_init srv)"
  let ?s2 = "client_arrives 8 ?s1"
  have "server_step (server_init srv) ?s1" by (rule arrive) (simp add: server_init_def)
  moreover have "server_step ?s1 ?s2"
    by (rule arrive) (simp add: server_init_def client_arrives_def srv)
  ultimately have r: "server_step\<^sup>*\<^sup>* (server_init srv) ?s2" by (meson converse_rtranclp_into_rtranclp r_into_rtranclp)
  have "waiting ?s2 = [8]" by (simp add: server_init_def client_arrives_def srv)
  with connections_bounded [OF r] srv r show ?thesis by auto
qed

text \<open>
  C27: Gateway B starts only in the environment it was validated for and with its trust artefacts
  readable: with another interpreter version, another TLS library, no ML-DSA or an unreadable
  trust store or revocation list the process exits with status 1 and serves nothing. What it
  serves is TLS 1.3 only with client certificates required, and the policy of \<open>main\<close>.
\<close>

theorem start_up_fails_closed:
  assumes "main_b lib p env fs = Inr run"
  shows "version_info p = (3, 14, 6) \<and> str_contains ''3.5.7'' (OPENSSL_VERSION p) \<and> mldsa_available p
    \<and> (\<exists>config. GatewayConfig_load env = Inr config
        \<and> TrustStore_init (lib_yaml lib) (cfg_trust_store_path config) (cfg_revocation_list_path config) fs
            = Inr (g_trust_store (run_gateway run)))
    \<and> minimum_version (run_context run) = TLSv1_3 \<and> maximum_version (run_context run) = TLSv1_3
    \<and> ctx_verify_mode (run_context run) = CERT_REQUIRED
    \<and> rules (g_pep (run_gateway run)) = main_rules"
proof -
  from assms obtain config ts srv where
    c: "GatewayConfig_load env = Inr config" "check_phase0_baseline p = Inr ()"
    and ts: "TrustStore_init (lib_yaml lib) (cfg_trust_store_path config)
      (cfg_revocation_list_path config) fs = Inr ts"
    and srv: "create_ssl_context_b fs srv = Inr (run_context run)"
    and run: "g_trust_store (run_gateway run) = ts" "rules (g_pep (run_gateway run)) = main_rules"
    by (auto simp: main_b_def Let_def)
  from c(2) have "version_info p = (3, 14, 6) \<and> str_contains ''3.5.7'' (OPENSSL_VERSION p)
      \<and> mldsa_available p" by (auto simp: check_phase0_baseline_def split: if_splits)
  with c(1) ts run server_context [OF srv] show ?thesis by simp
qed

definition demo_libraries :: libraries where
  "demo_libraries = \<lparr>lib_crypto = demo_crypto, lib_pb = json_pb, lib_yaml = json_yaml,
     lib_zlib_decompress = Some, lib_pycti = g_pycti demo_gateway\<rparr>"

definition demo_platform :: platform where
  "demo_platform = \<lparr>version_info = (3, 14, 6), OPENSSL_VERSION = ''OpenSSL 3.5.7'', mldsa_available = True\<rparr>"

definition demo_pki :: fsys where
  "demo_pki = rl_save json_yaml ''/app/pki/revocation_list.yaml'' \<lparr>rl_entries = []\<rparr>
     (tb_save json_yaml ''/app/pki/trust_store.yaml'' \<lparr>tb_entries = [demo_entry]\<rparr>
       (write_file ''/app/pki/ca/root_ca.crt'' ''c''
         (write_file ''/app/pki/gateway_nia/nia_gateway.crt'' ''c''
           (write_file ''/app/pki/gateway_nia/nia_gateway.key'' ''k'' fs_empty))))"

lemma demo_ints: "py_int ''8443'' = Inr 8443" "py_int ''10'' = Inr 10" "py_int ''4'' = Inr 4"
  by (simp_all add: py_int_def str_strip_def is_space_def is_digit_def digit_val_def)

lemma demo_trust_store:
  "\<exists>ts. TrustStore_init json_yaml ''/app/pki/trust_store.yaml'' ''/app/pki/revocation_list.yaml'' demo_pki = Inr ts"
proof -
  have "load_agencies json_yaml ''/app/pki/trust_store.yaml'' demo_pki
      = Inr (agency_map (tb_entries \<lparr>tb_entries = [demo_entry]\<rparr>) Map.empty)"
    by (rule load_agencies_saved [OF json_yaml_roundtrip, where fs = fs_empty])
      (simp_all add: demo_plain demo_pki_def rl_save_def tb_save_def)
  moreover have "load_revoked json_yaml ''/app/pki/revocation_list.yaml'' demo_pki = Inr {}"
    by (rule load_revoked_saved [OF json_yaml_roundtrip, where fs = fs_empty and rl = "\<lparr>rl_entries = []\<rparr>"])
      (simp_all add: demo_pki_def rl_save_def)
  ultimately show ?thesis by (simp add: TrustStore_init_def)
qed

theorem start_up_fails_closed_witness:
  "\<exists>run. main_b demo_libraries demo_platform Map.empty demo_pki = Inr run
    \<and> ctx_verify_mode (run_context run) = CERT_REQUIRED \<and> rules (g_pep (run_gateway run)) = main_rules"
proof -
  from demo_trust_store obtain ts where
    ts: "TrustStore_init json_yaml ''/app/pki/trust_store.yaml'' ''/app/pki/revocation_list.yaml'' demo_pki = Inr ts" ..
  have f: "path_exists ''/app/pki/ca/root_ca.crt'' demo_pki"
    "path_exists ''/app/pki/gateway_nia/nia_gateway.crt'' demo_pki"
    "path_exists ''/app/pki/gateway_nia/nia_gateway.key'' demo_pki"
    by (simp_all add: path_exists_def demo_pki_def rl_save_def tb_save_def)
  have o: "str_contains ''3.5.7'' ''OpenSSL 3.5.7''" by (simp add: str_contains_def)
  have "\<exists>run. main_b demo_libraries demo_platform Map.empty demo_pki = Inr run"
    by (simp add: main_b_def check_phase0_baseline_def demo_platform_def o GatewayConfig_load_def getenv_def
        demo_ints ts exit_on_error_def demo_libraries_def TLSServer_init_def create_ssl_context_b_def load_verify_locations_def
        load_cert_chain_def f OpenCTIIngestor_init_def Let_def)
  then obtain run where r: "main_b demo_libraries demo_platform Map.empty demo_pki = Inr run" ..
  from start_up_fails_closed [OF r] r show ?thesis by blast
qed

end
