(* ===== verification/Exchange.thy ===== *)
theory Exchange
  imports Gateway_A_System Gateway_B_Server
begin

text \<open>
  The two gateways together: what Gateway A writes is what Gateway B reads, and what Gateway B
  answers is what Gateway A reports. The network between them may cut the request anywhere.
\<close>

section \<open>Lemmas\<close>

text \<open>The request, as the codec of the other side sees it.\<close>

lemma request_frame_framed:
  assumes "request_frame pb t = Inr f" "int (length f) \<le> max_payload_size c + 5"
  obtains env payload where "envelope_of t = Inr env" "to_bytes pb env = Inr payload"
    "encode_frame c SIGNED_BUNDLE payload = Inr f"
proof -
  from assms(1) obtain env payload h where e: "envelope_of t = Inr env" "to_bytes pb env = Inr payload"
    and h: "pack_BI (MessageType_value SIGNED_BUNDLE) (length payload) = Inr h" "f = h @ payload"
    by (auto simp: request_frame_def)
  have "length h = 5" using h(1) by (auto simp: pack_BI_def split: if_splits)
  with assms(2) h have "encode_frame c SIGNED_BUNDLE payload = Inr f"
    by (simp add: encode_frame_def)
  with e show thesis by (rule that)
qed

lemma reply_json_loads:
  assumes "valid_text tx"
  shows "json_loads (ack_json tx) = Inr (VDict [(''transaction_id'', VStr tx)])"
    and "json_loads (nack_json tx r) =
      Inr (VDict [(''transaction_id'', VStr tx), (''reason'', VStr (NackReason_value r))])"
proof -
  have "valid_text (NackReason_value r)"
    by (rule ascii_valid, cases r) (simp_all add: ascii_def)
  then have "json_ok (VDict [(''transaction_id'', VStr tx)])"
    "json_ok (VDict [(''transaction_id'', VStr tx), (''reason'', VStr (NackReason_value r))])"
    using assms by (simp_all add: ascii_valid ascii_def)
  then show "json_loads (ack_json tx) = Inr (VDict [(''transaction_id'', VStr tx)])"
    and "json_loads (nack_json tx r) =
      Inr (VDict [(''transaction_id'', VStr tx), (''reason'', VStr (NackReason_value r))])"
    by (simp_all add: ack_json_def nack_json_def json_loads_dumps del: json_dumps.simps)
qed

text \<open>What Gateway A makes of a reply of Gateway B.\<close>

definition reported :: "NackReason option \<Rightarrow> bool \<times> pyval" where
  "reported v = (case v of None \<Rightarrow> (True, VStr ''ACK'') | Some r \<Rightarrow> (False, VStr (NackReason_value r)))"

lemma response_read_back:
  assumes "response g (tx_id t) v = Inr f" "valid_text (tx_id t)" "ses_input s = f @ rest"
  shows "read_response t s = Inr (reported v)"
proof (cases v)
  case None
  with assms(1) obtain p where p: "encode_frame (g_frame_codec g) ACK p = Inr f"
    "decode_utf8 p = Inr (ack_json (tx_id t))"
    by (auto simp: response_def ack_frame_json dest: decode_encode_utf8)
  with read_response_framed [OF p(1) assms(3), of "[(''transaction_id'', VStr (tx_id t))]" t] None
  show ?thesis by (simp add: reply_json_loads(1) [OF assms(2)] reported_def)
next
  case (Some r)
  with assms(1) obtain p where p: "encode_frame (g_frame_codec g) NACK p = Inr f"
    "decode_utf8 p = Inr (nack_json (tx_id t) r)"
    by (auto simp: response_def nack_frame_json dest: decode_encode_utf8)
  with read_response_framed [OF p(1) assms(3),
      of "[(''transaction_id'', VStr (tx_id t)), (''reason'', VStr (NackReason_value r))]" t] Some
  show ?thesis by (simp add: reply_json_loads(2) [OF assms(2)] reported_def)
qed

lemma envelope_of_id: "envelope_of t = Inr env \<Longrightarrow> transaction_id env = tx_id t"
  by (auto simp: envelope_of_def split: option.splits)

lemma to_bytes_valid: "to_bytes pb env = Inr b \<Longrightarrow> valid_text (transaction_id env)"
  by (auto simp: to_bytes_def to_proto_def split: if_splits)

text \<open>The whole exchange: Gateway B's answer is its verdict, and Gateway A reports just that.\<close>

lemma exchange_agrees:
  assumes pb: "pb_roundtrip (g_pb g)" and req: "request_frame (g_pb g) t = Inr f" and env: "envelope_of t = Inr env"
    and cuts: "concat chunks = f" "[] \<notin> set chunks"
    and b: "cache_ok (g_crypto g) (w_fs w) (w_verifier w)" "quiet w" "codec_ok (g_frame_codec g)"
    and fits: "int (length f) \<le> max_payload_size (g_frame_codec g) + 5"
      "12 * int (length (tx_id t)) + 500 \<le> max_payload_size (g_frame_codec g)"
  shows "\<exists>reply. w_written (snd (handle_connection g (SslCert der) fin (chunks @ later) w)) = w_written w @ [reply]
    \<and> fst (send_envelope (g_pb g) t \<lparr>ses_input = reply @ rest, ses_end = e, ses_drain = None\<rparr>)
        = reported (verdict g w env (hex_bytes (sha256 der)))"
proof -
  let ?fp = "hex_bytes (sha256 der)"
  from request_frame_framed [OF req fits(1)] env obtain payload where
    p: "to_bytes (g_pb g) env = Inr payload" "encode_frame (g_frame_codec g) SIGNED_BUNDLE payload = Inr f"
    by (metis sum.inject(2))
  have "[] \<noteq> f" using p(2) by (auto simp: encode_frame_Inr)
  with frames.first_result_chunks [OF p(2), of "[]" chunks later] cuts
  have "first_result (decode_frame_stream (g_frame_codec g)) [] (chunks @ later)
      = Some (Inr (Some SIGNED_BUNDLE, Some payload, []))" by simp
  from read_loop_first [OF this] have loop: "read_loop g ?fp fin [] (chunks @ later) w
      = frame_guard g (process_transaction g payload ?fp w)" by (simp add: on_result_def)
  from response_cases(2) [OF b(3)] fits(2) envelope_of_id [OF env] obtain reply where
    reply: "response g (transaction_id env) (verdict g w env ?fp) = Inr reply" by metis
  from process_answers [OF b(1,2) envelope_from_to [OF pb p(1)] reply]
  have "answers w reply (read_loop g ?fp fin [] (chunks @ later) w)"
    unfolding loop by (rule answers_guard)
  then have "w_written (snd (handle_connection g (SslCert der) fin (chunks @ later) w)) = w_written w @ [reply]"
    by (auto simp: handle_connection_def answers_def split: prod.split)
  moreover have "read_response t \<lparr>ses_input = reply @ rest, ses_end = e, ses_drain = None\<rparr>
      = Inr (reported (verdict g w env ?fp))"
    using response_read_back [of g t _ reply] reply to_bytes_valid [OF p(1)] envelope_of_id [OF env] by simp
  ultimately show ?thesis using req by (auto simp: send_envelope_def Let_def)
qed

text \<open>What Gateway B has to know of the sender for its transactions to pass.\<close>

definition knows_sender :: "gateway \<Rightarrow> world \<Rightarrow> string \<Rightarrow> string \<Rightarrow> public_key \<Rightarrow> bool" where
  "knows_sender g w sender fp key =
     (\<exists>agency path kfp. get_agency (g_trust_store g) sender = agency \<and> truthy agency
      \<and> py_getitem agency ''tls_certificate_fingerprint'' = Inr (VStr fp)
      \<and> py_getitem agency ''payload_signing_public_key_fingerprint'' = Inr (VStr kfp)
      \<and> py_getitem agency ''payload_signing_public_key_path'' = Inr (VStr path)
      \<and> is_revoked (g_trust_store g) (VStr fp) = Inr False
      \<and> is_revoked (g_trust_store g) (VStr kfp) = Inr False
      \<and> load_public_key_file (g_crypto g) (pki_base_dir (w_verifier w) @ ''/'' @ path) (w_fs w) = Inr key)"

lemma knows_sender_checks:
  assumes "knows_sender g w (sender_id env) fp key" and "\<not> missing_fields env"
    and "key_verify (g_crypto g) key (signature env) (sha256 (stix_bundle_compressed env))"
    and "fst (evaluate (g_pep g) (sender_id env) (recipient_id env) (TlpMarking_value (tlp_marking env)))"
  shows "first_failure (auth_checks g (w_fs w) (pki_base_dir (w_verifier w)) env fp) = None"
  using assms
  by (auto simp: knows_sender_def auth_checks_def the_agency_def the_key_path_def revocation_check_def
      verify_uncached_def)

text \<open>A transaction that went through the signer, as an envelope.\<close>

lemma signed_envelope:
  assumes law: "signature_law L" and key: "signer_key (sw_signer sw) = Some k"
    and turn: "signer_turn L compress sw tnow t0 = Inr t1"
    and gate: "pep_turn pep t1 dl = (Inr (Some t), dl')"
  obtains b where "tx_bundle t0 = Some b"
    "fst (authorize pep (sb_tlp_marking b) (tx_recipient t0))"
    "envelope_of t = Inr \<lparr>transaction_id = tx_id t0, sender_id = tx_sender t0, recipient_id = tx_recipient t0,
       tlp_marking = sb_tlp_marking b, stix_bundle_compressed = compress (raw_json b),
       signature = tx_signature t, signer_cert_fingerprint = tx_signer_fp t,
       created_at_unix_ms = tx_created_ms t0\<rparr>"
    "key_verify L (pub_of L k) (tx_signature t) (sha256 (compress (raw_json b)))"
    "tx_id t = tx_id t0"
proof -
  from signer_turn_verifies [OF law key turn] obtain b where
    b: "tx_bundle t0 = Some b" "tx_bundle t1 = Some b" "tx_compressed t1 = Some (compress (raw_json b))"
    "key_verify L (pub_of L k) (tx_signature t1) (sha256 (compress (raw_json b)))"
    by (auto simp: key_verify_def)
  have same: "tx_id t1 = tx_id t0" "tx_sender t1 = tx_sender t0" "tx_recipient t1 = tx_recipient t0"
    "tx_created_ms t1 = tx_created_ms t0"
    using turn b(1) by (auto simp: signer_turn_def Let_def)
  from pep_turn_approved [OF gate] b(2) same(3) have
    t: "t = t1\<lparr>tx_state := POLICY_APPROVED\<rparr>" "fst (authorize pep (sb_tlp_marking b) (tx_recipient t0))"
    by auto
  show thesis
    by (rule that [of b]) (use b t same in \<open>simp_all add: envelope_of_def\<close>)
qed

lemma signed_verdict:
  assumes "knows_sender g w (sender_id env) fp key" and "\<not> missing_fields env"
    and "key_verify (g_crypto g) key (signature env) (sha256 (stix_bundle_compressed env))"
    and "fst (evaluate (g_pep g) (sender_id env) (recipient_id env) (TlpMarking_value (tlp_marking env)))"
    and "g_zlib_decompress g (stix_bundle_compressed env) = Some raw" and "parse_stix raw = Inr (Some stix)"
    and "fst (ingest_bundle (g_pycti g) stix (w_ingestor w))"
  shows "verdict g w env fp = None"
  using assms knows_sender_checks [OF assms(1-4)]
  by (simp add: verdict_def first_failure_append content_checks_def stix_of_def)

section \<open>An exchange for the witnesses\<close>

text \<open>The size of a message in the serialisation \<open>json_pb\<close>.\<close>

lemma length_show_int: "\<bar>i\<bar> < 10 ^ Suc k \<Longrightarrow> length (show_int i) \<le> k + 2"
proof -
  assume "\<bar>i\<bar> < 10 ^ Suc k"
  then have "nat \<bar>i\<bar> < 10 ^ Suc k" by (simp add: nat_less_iff)
  from length_show_nat [OF this] show ?thesis by (auto simp: show_int_def)
qed

lemma length_dumps_bytes: "length (json_dumps (bytes_val bs)) \<le> 6 * length bs + 2"
proof -
  have "length (show_int (int (unat b))) \<le> 4" for b :: byte
  proof -
    have "int (unat b) < 256" using unat_byte_less [of b] by linarith
    then have "\<bar>int (unat b)\<bar> < 10 ^ Suc 2" by (simp only: abs_of_nat) simp
    from length_show_int [OF this] show ?thesis by simp
  qed
  then have "length (dumps_elems (map (\<lambda>b. VInt (int (unat b))) bs)) \<le> 6 * length bs"
  proof (induction bs)
    case (Cons b bs)
    from Cons.prems [of b] Cons.IH [OF Cons.prems] show ?case by (simp add: dumps_elems_Cons)
  qed simp
  then show ?thesis by (simp add: bytes_val_def)
qed

lemma length_dumps_env:
  assumes "int64 (p_created_at_unix_ms e)"
  shows "length (json_dumps (env_val e)) \<le> 12 * (length (p_transaction_id e) + length (p_sender_id e)
    + length (p_recipient_id e) + length (p_tlp_marking e) + length (p_signer_cert_fingerprint e))
    + 6 * (length (p_stix_bundle_compressed e) + length (p_signature e)) + 300"
proof -
  have k: "length (json_str [c]) \<le> 14" for c using length_json_str [of "[c]"] by simp
  have i: "length (show_int (p_created_at_unix_ms e)) \<le> 21"
    by (rule length_show_int [of _ 19, simplified]) (use assms in \<open>auto simp: int64_def\<close>)
  show ?thesis
    using length_json_str [of "p_transaction_id e"] length_json_str [of "p_sender_id e"]
      length_json_str [of "p_recipient_id e"] length_json_str [of "p_tlp_marking e"]
      length_json_str [of "p_signer_cert_fingerprint e"] i
      length_dumps_bytes [of "p_stix_bundle_compressed e"] length_dumps_bytes [of "p_signature e"]
      k [of "CHR ''1''"] k [of "CHR ''2''"] k [of "CHR ''3''"] k [of "CHR ''4''"] k [of "CHR ''5''"]
      k [of "CHR ''6''"] k [of "CHR ''7''"] k [of "CHR ''8''"]
    by (simp add: env_val_def)
qed

definition demo_stix_bundle :: StixBundle where
  "demo_stix_bundle = \<lparr>bundle_id = VStr ''b'', raw_json = demo_payload, sb_tlp_marking = AMBER,
     misp_event_uuid = VStr ''u''\<rparr>"

definition demo_validated :: GatewayATransaction where
  "demo_validated = new_transaction ''tx-1'' ''2026-01-01T00:00:00'' 1767225600000 demo_stix_bundle VALIDATED []"

definition demo_signer :: SignerWorker where
  "demo_signer = \<lparr>sw_signer = \<lparr>private_key_path = ''k'', signer_key = Some demo_sk\<rparr>, cert_fingerprint = ''ab''\<rparr>"

definition demo_signed :: GatewayATransaction where
  "demo_signed = demo_validated\<lparr>tx_compressed := Some demo_payload,
     tx_signature := sk_bits demo_sk @ sha256 demo_payload, tx_signer_fp := ''ab'', tx_state := SIGNED,
     tx_telemetry := [(''t_signed'', VInt 5)]\<rparr>"

definition demo_approved :: GatewayATransaction where
  "demo_approved = demo_signed\<lparr>tx_state := POLICY_APPROVED\<rparr>"

lemmas demo_transactions = demo_approved_def demo_signed_def demo_validated_def new_transaction_def demo_stix_bundle_def

lemma demo_signing:
  "signer_key (sw_signer demo_signer) = Some demo_sk"
  "signer_turn demo_crypto id demo_signer 5 demo_validated = Inr demo_signed"
proof -
  show "signer_key (sw_signer demo_signer) = Some demo_sk" by (simp add: demo_signer_def)
  then have "signer_sign demo_crypto (sw_signer demo_signer) demo_payload = Inr (sk_bits demo_sk @ sha256 demo_payload)"
    by (simp add: signer_sign_def Let_def) (simp add: demo_sk_def demo_crypto_def)
  then show "signer_turn demo_crypto id demo_signer 5 demo_validated = Inr demo_signed"
    by (simp add: signer_turn_def demo_transactions demo_signer_def)
qed

lemma demo_gate: "pep_turn (OutboundPep_init main_policy) demo_signed dl = (Inr (Some demo_approved), dl)"
  by (simp add: pep_turn_def demo_transactions authorize_def OutboundPep_init_def main_policy_def)

lemma demo_request:
  "\<exists>f. request_frame json_pb demo_approved = Inr f \<and> length f \<le> 10000"
proof -
  let ?m = "\<lparr>p_transaction_id = ''tx-1'', p_sender_id = ''RAW'', p_recipient_id = ''NIA'',
     p_tlp_marking = ''tlp:amber'', p_stix_bundle_compressed = demo_payload,
     p_signature = sk_bits demo_sk @ sha256 demo_payload, p_signer_cert_fingerprint = ''ab'',
     p_created_at_unix_ms = 1767225600000\<rparr>"
  have "length demo_payload = 33" by (simp add: demo_payload_def demo_dumps)
  moreover have "length (sk_bits demo_sk) = 4" by (simp add: demo_sk_def demo_crypto_def)
  ultimately have l: "length (json_dumps (env_val ?m)) \<le> 2000"
    using length_dumps_env [of ?m] by (simp add: int64_def)
  have v: "valid_text ''tx-1''" "valid_text ''RAW''" "valid_text ''NIA''" "valid_text ''ab''"
    by (simp_all add: ascii_valid ascii_def)
  let ?p = "map byte_of_char (json_dumps (env_val ?m))"
  have "\<exists>e. envelope_of demo_approved = Inr e \<and> to_bytes json_pb e = Inr ?p"
    using v by (simp add: to_bytes_def to_proto_def envelope_of_def demo_transactions int64_def json_pb_def)
  then obtain e where e: "envelope_of demo_approved = Inr e" "to_bytes json_pb e = Inr ?p" by blast
  have "length ?p \<le> 2000" using l by simp
  with e show ?thesis by (simp add: request_frame_def pack_BI_def del: length_map json_dumps.simps)
qed

lemma demo_knows: "knows_sender demo_gateway demo_world ''RAW'' (hex_bytes (sha256 [1, 2, 3])) (pub_of demo_crypto demo_sk)"
  by (simp add: knows_sender_def demo_gateway_def get_agency_def demo_agency_def demo_fp_def is_revoked_def
      demo_world_def MLDSAVerifier_init_def load_public_key_file_def read_file_def pem_lawsD [OF demo_crypto_laws(1)])

lemma demo_payload_nonempty: "demo_payload \<noteq> []" "sha256 m \<noteq> []"
proof -
  show "demo_payload \<noteq> []" by (simp add: demo_payload_def demo_dumps)
  have "length (sha256 m) \<noteq> 0" by simp
  then show "sha256 m \<noteq> []" by (metis list.size(3))
qed

lemma demo_envelope: "\<exists>env. envelope_of demo_approved = Inr env \<and> \<not> missing_fields env"
  by (simp add: envelope_of_def demo_transactions missing_fields_def demo_payload_nonempty)

lemma demo_ingested: "fst (ingest_bundle (g_pycti demo_gateway) demo_stix (w_ingestor demo_world))"
  using demo_verdict demo_parse
  by (auto simp: verdict_def first_failure_append content_checks_def stix_of_def demo_gateway_def demo_env_def
      split: option.splits if_splits)

lemma demo_sizes:
  "length f \<le> 10000 \<Longrightarrow> int (length f) \<le> max_payload_size (g_frame_codec demo_gateway) + 5"
  "12 * int (length (tx_id demo_approved)) + 500 \<le> max_payload_size (g_frame_codec demo_gateway)"
  "12 * int (length (tx_id demo_validated)) + 500 \<le> max_payload_size (g_frame_codec demo_gateway)"
  by (simp_all add: demo_gateway_def FrameCodec_default_def DEFAULT_MAX_PAYLOAD_SIZE_def demo_transactions)

lemma demo_gateway_fields: "g_pb demo_gateway = json_pb" "g_zlib_decompress demo_gateway = Some"
  by (simp_all add: demo_gateway_def)

text \<open>The same gateway, with nobody in its trust store.\<close>

definition demo_stranger :: gateway where
  "demo_stranger = demo_gateway\<lparr>g_trust_store := (g_trust_store demo_gateway)\<lparr>agencies := Map.empty\<rparr>\<rparr>"

end
