(* ===== verification/Gateway_A_Shutdown.thy ===== *)
theory Gateway_A_Shutdown
  imports Gateway_A_System
begin

text \<open>
  Gateway A with the control of its tasks: the five loops with their \<open>running\<close> flags, the handler
  of the signals and the end of \<open>run_pipeline\<close> in \<open>gateway_a/main.py\<close>. What the tasks do to the
  queues are the steps of \<open>Gateway_A_System\<close>; here each step happens only where the loop of its
  worker allows it.

  Every loop tests its flag at its head, then waits for an item, works on it and puts the result
  into the next queue. The handler clears the flags, closes the listener's socket and lets
  \<open>run_pipeline\<close> wait for the tasks; nothing cancels them. A second signal changes nothing. The
  listener waits at its socket: a message without a relevant event, an error and the closing of the
  socket lead back to the head of the loop.
\<close>

section \<open>State\<close>

datatype role = Listener | Extractor | Signer | Policy | Transmitter

datatype phase = AtLoopHead | WaitingInGet | Working | Exited

datatype main_phase = Serving | Gathering | Finished

record gate =
  gt_pipe :: pipeline
  gt_running :: "role \<Rightarrow> bool"
  gt_phase :: "role \<Rightarrow> phase"
  gt_main :: main_phase

definition gate_init :: "pipeline \<Rightarrow> gate" where
  "gate_init p = \<lparr>gt_pipe = p, gt_running = (\<lambda>_. True), gt_phase = (\<lambda>_. AtLoopHead), gt_main = Serving\<rparr>"

definition handle_shutdown :: "gate \<Rightarrow> gate" where
  "handle_shutdown s = s\<lparr>gt_running := (\<lambda>_. False), gt_main := Gathering\<rparr>"

text \<open>The queue that a worker reads, and whether it holds a result that is not yet in the next queue.\<close>

fun backlog :: "role \<Rightarrow> pipeline \<Rightarrow> nat" where
  "backlog Listener p = 0"
| "backlog Extractor p = length (q_items (pl_in p))"
| "backlog Signer p = length (q_items (pl_extracted p))"
| "backlog Policy p = length (q_items (pl_signed p))"
| "backlog Transmitter p = length (q_items (pl_tx p))"

fun holding :: "role \<Rightarrow> pipeline \<Rightarrow> bool" where
  "holding Listener p = (pl_hold_in p \<noteq> None)"
| "holding Extractor p = (pl_hold_extracted p \<noteq> None)"
| "holding Signer p = (pl_hold_signed p \<noteq> None)"
| "holding Policy p = (pl_hold_tx p \<noteq> None)"
| "holding Transmitter p = False"

text \<open>Which worker a step of the pipeline belongs to shows in the queues that it changes.\<close>

definition takes :: "role \<Rightarrow> pipeline \<Rightarrow> pipeline \<Rightarrow> bool" where
  "takes r p p' =
     (if r = Listener then \<not> holding Listener p \<and> holding Listener p' else backlog r p' < backlog r p)"

definition puts :: "role \<Rightarrow> pipeline \<Rightarrow> pipeline \<Rightarrow> bool" where
  "puts r p p' = (holding r p \<and> \<not> holding r p')"

section \<open>Steps\<close>

inductive gate_step :: "pipe_env \<Rightarrow> gate \<Rightarrow> gate \<Rightarrow> bool" for E :: pipe_env where
  enter: "gt_phase s r = AtLoopHead \<Longrightarrow> gt_running s r \<Longrightarrow>
    gate_step E s (s\<lparr>gt_phase := (gt_phase s)(r := WaitingInGet)\<rparr>)"
| leave: "gt_phase s r = AtLoopHead \<Longrightarrow> \<not> gt_running s r \<Longrightarrow>
    gate_step E s (s\<lparr>gt_phase := (gt_phase s)(r := Exited)\<rparr>)"
| take_item: "gt_phase s r = WaitingInGet \<Longrightarrow> r = Listener \<longrightarrow> gt_running s r \<Longrightarrow>
    pipe_step E (gt_pipe s) p \<Longrightarrow> takes r (gt_pipe s) p \<Longrightarrow>
    gate_step E s (s\<lparr>gt_pipe := p, gt_phase := (gt_phase s)(r := Working)\<rparr>)"
| no_event: "gt_phase s Listener = WaitingInGet \<Longrightarrow>
    gate_step E s (s\<lparr>gt_phase := (gt_phase s)(Listener := AtLoopHead)\<rparr>)"
| put_item: "gt_phase s r = Working \<Longrightarrow> pipe_step E (gt_pipe s) p \<Longrightarrow> puts r (gt_pipe s) p \<Longrightarrow>
    gate_step E s (s\<lparr>gt_pipe := p, gt_phase := (gt_phase s)(r := AtLoopHead)\<rparr>)"
| no_result: "gt_phase s r = Working \<Longrightarrow> \<not> holding r (gt_pipe s) \<Longrightarrow>
    gate_step E s (s\<lparr>gt_phase := (gt_phase s)(r := AtLoopHead)\<rparr>)"
| signal: "gt_main s = Serving \<Longrightarrow> gate_step E s (handle_shutdown s)"
| gathered: "gt_main s = Gathering \<Longrightarrow> \<forall>r. gt_phase s r = Exited \<Longrightarrow>
    gate_step E s (s\<lparr>gt_main := Finished\<rparr>)"

inductive_cases gate_stepE: "gate_step E s s'"

text \<open>A step while neither a signal nor anything at the listener's socket arrives.\<close>

definition busy_step :: "pipe_env \<Rightarrow> gate \<Rightarrow> gate \<Rightarrow> bool" where
  "busy_step E s s' = (gate_step E s s' \<and> gt_main s' = gt_main s
     \<and> (gt_phase s Listener = WaitingInGet \<longrightarrow> gt_phase s' Listener = WaitingInGet))"

section \<open>Lemmas\<close>

subsection \<open>Steps of the pipeline by their worker\<close>

lemma put_items: "q_put x q = Some q' \<Longrightarrow> q_items q' = q_items q @ [x]"
  and get_items: "q_get q = Some (x, q') \<Longrightarrow> q_items q = x # q_items q'"
  by (auto dest: aqueue_put aqueue_get)

lemma takes_frame:
  assumes "pipe_step E p p'" "takes r p p'" "r' \<noteq> r"
  shows "holding r' p' = holding r' p"
  using assms
  by (cases rule: pipe_step.cases)
    (cases r; cases r'; auto simp: takes_def dest!: put_items get_items)+

lemma puts_frame:
  assumes "pipe_step E p p'" "puts r p p'" "r' \<noteq> r"
  shows "holding r' p' = holding r' p"
  using assms
  by (cases rule: pipe_step.cases)
    (cases r; cases r'; auto simp: puts_def dest!: put_items get_items)+

text \<open>Which steps each worker can take.\<close>

fun output_full :: "role \<Rightarrow> pipeline \<Rightarrow> bool" where
  "output_full Listener p = (0 < q_maxsize (pl_in p) \<and> q_maxsize (pl_in p) \<le> length (q_items (pl_in p)))"
| "output_full Extractor p = (0 < q_maxsize (pl_extracted p) \<and> q_maxsize (pl_extracted p) \<le> length (q_items (pl_extracted p)))"
| "output_full Signer p = (0 < q_maxsize (pl_signed p) \<and> q_maxsize (pl_signed p) \<le> length (q_items (pl_signed p)))"
| "output_full Policy p = (0 < q_maxsize (pl_tx p) \<and> q_maxsize (pl_tx p) \<le> length (q_items (pl_tx p)))"
| "output_full Transmitter p = False"

lemma get_ready: "0 < length (q_items q) \<Longrightarrow> \<exists>x q'. q_get q = Some (x, q') \<and> length (q_items q') < length (q_items q)"
  by (cases "q_items q") (auto simp: q_get_def)

lemma take_enabled:
  assumes "r \<noteq> Listener" "0 < backlog r p" "\<not> holding r p"
  shows "\<exists>p'. pipe_step E p p' \<and> takes r p p'"
proof (cases r)
  case Extractor
  with assms get_ready [of "pl_in p"] obtain ev q where
    g: "q_get (pl_in p) = Some (ev, q)" "length (q_items q) < length (q_items (pl_in p))" by auto
  from extract_event [OF _ g(1) refl, of E "\<lparr>fr_uuid = [], fr_created = [], fr_created_ms = 0, fr_now = 0\<rparr>"] g(2) assms(3) Extractor
  show ?thesis by (intro exI conjI) (auto simp: takes_def)
next
  case Signer
  with assms get_ready [of "pl_extracted p"] obtain t q where
    g: "q_get (pl_extracted p) = Some (t, q)" "length (q_items q) < length (q_items (pl_extracted p))" by auto
  from sign [OF _ g(1) refl, of E 0] g(2) assms(3) Signer show ?thesis by (intro exI conjI) (auto simp: takes_def)
next
  case Policy
  with assms get_ready [of "pl_signed p"] obtain t q where
    g: "q_get (pl_signed p) = Some (t, q)" "length (q_items q) < length (q_items (pl_signed p))" by auto
  obtain d dl where d: "pep_turn (pe_pep E) t (pl_dead p) = (d, dl)"
    by (cases "pep_turn (pe_pep E) t (pl_dead p)")
  from decide [OF _ g(1) d] g(2) assms(3) Policy show ?thesis by (intro exI conjI) (auto simp: takes_def)
next
  case Transmitter
  with assms get_ready [of "pl_tx p"] obtain t q where
    g: "q_get (pl_tx p) = Some (t, q)" "length (q_items q) < length (q_items (pl_tx p))" by auto
  obtain d t' w where d: "process_outgoing (pe_config E) (pe_pb E) 0 (\<lambda>_. ConnectError) t
      \<lparr>tw_dead = pl_dead p, tw_sleeps = [], tw_written = []\<rparr> = (d, t', w)" by (metis prod_cases3)
  from transmit [OF g(1) d] g(2) Transmitter show ?thesis by (intro exI conjI) (auto simp: takes_def)
qed (use assms(1) in simp)

lemma put_enabled:
  assumes "holding r p" "\<not> output_full r p"
  shows "\<exists>p'. pipe_step E p p' \<and> puts r p p'"
proof (cases r)
  case Listener
  with assms obtain e q where "pl_hold_in p = Some e" "q_put e (pl_in p) = Some q" by (auto simp: q_put_def)
  from put_in [OF this, of E] this Listener show ?thesis by (intro exI conjI) (auto simp: puts_def)
next
  case Extractor
  with assms obtain e q where "pl_hold_extracted p = Some e" "q_put e (pl_extracted p) = Some q" by (auto simp: q_put_def)
  from put_extracted [OF this, of E] this Extractor show ?thesis by (intro exI conjI) (auto simp: puts_def)
next
  case Signer
  with assms obtain e q where "pl_hold_signed p = Some e" "q_put e (pl_signed p) = Some q" by (auto simp: q_put_def)
  from put_signed [OF this, of E] this Signer show ?thesis by (intro exI conjI) (auto simp: puts_def)
next
  case Policy
  with assms obtain e q where "pl_hold_tx p = Some e" "q_put e (pl_tx p) = Some q" by (auto simp: q_put_def)
  from put_tx [OF this, of E] this Policy show ?thesis by (intro exI conjI) (auto simp: puts_def)
qed (use assms(1) in simp)

subsection \<open>The gateway refines the pipeline\<close>

lemma gate_step_pipe: "gate_step E s s' \<Longrightarrow> (pipe_step E)\<^sup>=\<^sup>= (gt_pipe s) (gt_pipe s')"
  by (erule gate_stepE) (auto simp: handle_shutdown_def)

lemma gate_reach_pipe: "(gate_step E)\<^sup>*\<^sup>* s s' \<Longrightarrow> (pipe_step E)\<^sup>*\<^sup>* (gt_pipe s) (gt_pipe s')"
  by (induction rule: rtranclp_induct) (auto dest!: gate_step_pipe intro: rtranclp.rtrancl_into_rtrancl)

subsection \<open>The invariant of the control\<close>

definition gate_inv :: "gate \<Rightarrow> bool" where
  "gate_inv s = ((\<forall>r. gt_running s r \<longleftrightarrow> gt_main s = Serving)
     \<and> (\<forall>r. holding r (gt_pipe s) \<longrightarrow> gt_phase s r = Working)
     \<and> (\<forall>r. gt_main s = Serving \<longrightarrow> gt_phase s r \<noteq> Exited)
     \<and> (gt_main s = Finished \<longrightarrow> (\<forall>r. gt_phase s r = Exited)))"

lemma gate_step_inv:
  assumes "gate_inv s" "gate_step E s s'"
  shows "gate_inv s'"
  using assms(2)
proof cases
  case (take_item r p)
  with takes_frame [OF take_item(4,5)] assms(1) show ?thesis by (auto simp: gate_inv_def)
next
  case (put_item r p)
  moreover have "\<not> holding r p" using put_item by (simp add: puts_def)
  ultimately show ?thesis using puts_frame [OF put_item(3,4)] assms(1) by (auto simp: gate_inv_def)
qed (use assms(1) in \<open>auto simp: gate_inv_def handle_shutdown_def simp del: holding.simps\<close>)

interpretation gate: guarded_system "gate_step E" gate_inv for E
  by unfold_locales (rule gate_step_inv)

lemma gate_init_inv:
  assumes "run_pipeline libs L pb compress env fs = Inr (E, p)"
  shows "gate_inv (gate_init p)"
proof -
  have "\<not> holding r p" for r
    using assms by (cases r) (auto simp: run_pipeline_def Let_def)
  then show ?thesis by (simp add: gate_inv_def gate_init_def)
qed

subsection \<open>After the signal\<close>

text \<open>How far a task still is from the end of its loop once its flag is cleared.\<close>

fun to_exit :: "phase \<Rightarrow> nat" where
  "to_exit WaitingInGet = 3"
| "to_exit Working = 2"
| "to_exit AtLoopHead = 1"
| "to_exit Exited = 0"

definition roles :: "role list" where
  "roles = [Listener, Extractor, Signer, Policy, Transmitter]"

definition rest_of_run :: "gate \<Rightarrow> nat" where
  "rest_of_run s = (if gt_main s = Finished then 0 else 1) + sum_list (map (\<lambda>r. to_exit (gt_phase s r)) roles)"

lemma sum_roles_update:
  fixes f :: "phase \<Rightarrow> nat"
  shows "sum_list (map (\<lambda>x. f ((h(r := v)) x)) roles) + f (h r) = sum_list (map (\<lambda>x. f (h x)) roles) + f v"
  by (cases r) (simp_all add: roles_def)

lemma roles_all: "r \<in> set roles"
  by (cases r) (simp_all add: roles_def)

lemma stopped_step:
  assumes "gate_inv s" "gt_main s \<noteq> Serving" "gate_step E s s'"
  shows "gt_main s' \<noteq> Serving \<and> rest_of_run s' < rest_of_run s"
proof -
  have run: "\<not> gt_running s r" for r using assms(1,2) by (simp add: gate_inv_def)
  note upd = sum_roles_update [of to_exit "gt_phase s"]
  from assms(3) show ?thesis
  proof cases
    case (enter r)
    with run show ?thesis by simp
  next
    case (leave r)
    with upd [of r Exited] assms(2) show ?thesis by (simp add: rest_of_run_def)
  next
    case (take_item r p)
    with upd [of r Working] assms(2) show ?thesis by (simp add: rest_of_run_def)
  next
    case no_event
    with upd [of Listener AtLoopHead] assms(2) show ?thesis by (simp add: rest_of_run_def)
  next
    case (put_item r p)
    with upd [of r AtLoopHead] assms(2) show ?thesis by (simp add: rest_of_run_def)
  next
    case (no_result r)
    with upd [of r AtLoopHead] assms(2) show ?thesis by (simp add: rest_of_run_def)
  qed (use assms(2) in \<open>simp_all add: rest_of_run_def\<close>)
qed

lemma stopped_reach:
  assumes "(gate_step E ^^ n) s s'" "gate_inv s" "gt_main s \<noteq> Serving"
  shows "gt_main s' \<noteq> Serving"
  using assms(1)
proof (induction n arbitrary: s')
  case (Suc n)
  then obtain u where u: "(gate_step E ^^ n) s u" "gate_step E u s'" by auto
  from gate.reach_inv [OF relpowp_imp_rtranclp [OF u(1)] assms(2)] Suc.IH [OF u(1)] u(2) show ?case
    using stopped_step by blast
qed (use assms(3) in simp)

lemma stopped_run:
  assumes "(gate_step E ^^ n) s s'" "gate_inv s" "gt_main s \<noteq> Serving"
  shows "n + rest_of_run s' \<le> rest_of_run s"
  using assms(1)
proof (induction n arbitrary: s')
  case (Suc n)
  then obtain u where u: "(gate_step E ^^ n) s u" "gate_step E u s'" by auto
  from Suc.IH [OF u(1)] have n: "n + rest_of_run u \<le> rest_of_run s" .
  have inv: "gate_inv u" using gate.reach_inv [OF relpowp_imp_rtranclp [OF u(1)] assms(2)] .
  from stopped_step [OF inv stopped_reach [OF u(1) assms(2,3)] u(2)] n show ?case by simp
qed simp

lemma sum_roles_le:
  fixes f :: "phase \<Rightarrow> nat"
  assumes "\<And>ph. f ph \<le> k"
  shows "sum_list (map (\<lambda>r. f (h r)) roles) \<le> 5 * k"
  using assms [of "h Listener"] assms [of "h Extractor"] assms [of "h Signer"] assms [of "h Policy"] assms [of "h Transmitter"]
  by (simp add: roles_def)

lemma rest_of_run_le: "rest_of_run s \<le> 16"
proof -
  have "to_exit ph \<le> 3" for ph by (cases ph) simp_all
  from sum_roles_le [of to_exit 3 "gt_phase s", OF this] show ?thesis by (simp add: rest_of_run_def roles_def)
qed

text \<open>A worker that cannot go on: it waits for an item or for room in the next queue.\<close>

definition stuck :: "role \<Rightarrow> gate \<Rightarrow> bool" where
  "stuck r s = ((r \<noteq> Listener \<and> gt_phase s r = WaitingInGet \<and> backlog r (gt_pipe s) = 0)
     \<or> (gt_phase s r = Working \<and> holding r (gt_pipe s) \<and> output_full r (gt_pipe s)))"

lemma worker_enabled:
  assumes "gate_inv s" "gt_phase s r \<noteq> Exited" "\<not> stuck r s" "r \<noteq> Listener \<or> gt_phase s r \<noteq> WaitingInGet"
  shows "\<exists>s'. gate_step E s s' \<and> gt_main s' = gt_main s
    \<and> (r \<noteq> Listener \<longrightarrow> gt_phase s' Listener = gt_phase s Listener)"
proof (cases "gt_phase s r")
  case AtLoopHead
  then show ?thesis
    using gate_step.enter [OF AtLoopHead, of E] gate_step.leave [OF AtLoopHead, of E] by (cases "gt_running s r") force+
next
  case WaitingInGet
  with assms have "r \<noteq> Listener" "0 < backlog r (gt_pipe s)" "\<not> holding r (gt_pipe s)"
    by (auto simp: stuck_def gate_inv_def)
  from take_enabled [OF this] obtain p where "pipe_step E (gt_pipe s) p" "takes r (gt_pipe s) p" by blast
  from gate_step.take_item [OF WaitingInGet _ this] \<open>r \<noteq> Listener\<close> show ?thesis by force
next
  case Working
  show ?thesis
  proof (cases "holding r (gt_pipe s)")
    case True
    with assms(3) Working have "\<not> output_full r (gt_pipe s)" by (simp add: stuck_def)
    from put_enabled [OF True this] obtain p where "pipe_step E (gt_pipe s) p" "puts r (gt_pipe s) p" by blast
    from gate_step.put_item [OF Working this] show ?thesis by force
  next
    case False
    from gate_step.no_result [OF Working this] show ?thesis by force
  qed
next
  case Exited
  with assms(2) show ?thesis by simp
qed

text \<open>When nothing can happen any more, the shutdown is complete or some worker cannot go on.\<close>

lemma rest_cases:
  assumes "gate_inv s" "gt_main s \<noteq> Serving" "\<nexists>s'. gate_step E s s'"
  shows "gt_main s \<noteq> Finished \<longleftrightarrow> (\<exists>r. stuck r s)"
proof (cases "\<forall>r. gt_phase s r = Exited")
  case True
  with assms(2,3) gathered [of s E] have "gt_main s = Finished" by (cases "gt_main s") blast+
  with True show ?thesis by (simp add: stuck_def)
next
  case False
  then obtain r where r: "gt_phase s r \<noteq> Exited" by blast
  have "gt_phase s Listener \<noteq> WaitingInGet" using assms(3) no_event by blast
  with worker_enabled [OF assms(1) r] assms(3) have "stuck r s" by blast
  moreover have "gt_main s \<noteq> Finished" using assms(1) r by (auto simp: gate_inv_def)
  ultimately show ?thesis by blast
qed

subsection \<open>Draining\<close>

definition hold_weight :: "'a option \<Rightarrow> nat" where
  "hold_weight h = (case h of None \<Rightarrow> 0 | Some _ \<Rightarrow> 1)"

text \<open>How far everything in the pipeline still has to go.\<close>

definition pipe_weight :: "pipeline \<Rightarrow> nat" where
  "pipe_weight s = 8 * hold_weight (pl_hold_in s) + 7 * length (q_items (pl_in s))
     + 6 * hold_weight (pl_hold_extracted s) + 5 * length (q_items (pl_extracted s))
     + 4 * hold_weight (pl_hold_signed s) + 3 * length (q_items (pl_signed s))
     + 2 * hold_weight (pl_hold_tx s) + length (q_items (pl_tx s))"

lemma hold_weight_simps [simp]: "hold_weight None = 0" "hold_weight (Some x) = 1"
  by (simp_all add: hold_weight_def)

lemma hold_weight_le: "hold_weight h \<le> 1"
  by (simp add: hold_weight_def split: option.split)

lemma pipe_weight_step:
  assumes "pipe_step E p p'" "\<not> takes Listener p p'"
  shows "pipe_weight p' < pipe_weight p"
  using assms(1)
proof cases
  case (receive tnow m e)
  with assms(2) show ?thesis by (simp add: takes_def)
next
  case (extract_event ev q fr r)
  with hold_weight_le [of "case r of Inr (Some t) \<Rightarrow> Some t | _ \<Rightarrow> None"] show ?thesis
    by (auto simp: pipe_weight_def dest!: get_items)
next
  case (sign t q tnow r)
  with hold_weight_le [of "case r of Inr t' \<Rightarrow> Some t' | _ \<Rightarrow> None"] show ?thesis
    by (auto simp: pipe_weight_def dest!: get_items)
next
  case (decide t q r dl)
  with hold_weight_le [of "case r of Inr (Some t') \<Rightarrow> Some t' | _ \<Rightarrow> None"] show ?thesis
    by (auto simp: pipe_weight_def dest!: get_items)
qed (auto simp: pipe_weight_def dest!: put_items get_items)

text \<open>The potential of a gateway that serves: what is in the pipeline, and where the loops are.\<close>

fun to_get :: "phase \<Rightarrow> nat" where
  "to_get Working = 2"
| "to_get AtLoopHead = 1"
| "to_get WaitingInGet = 0"
| "to_get Exited = 0"

definition potential :: "gate \<Rightarrow> nat" where
  "potential s = 3 * pipe_weight (gt_pipe s) + sum_list (map (\<lambda>r. to_get (gt_phase s r)) roles)"

lemma busy_step_potential:
  assumes "gate_inv s" "gt_main s = Serving" "busy_step E s s'"
  shows "potential s' < potential s"
proof -
  have run: "gt_running s r" for r using assms(1,2) by (simp add: gate_inv_def)
  note upd = sum_roles_update [of to_get "gt_phase s"]
  from assms(3) have g: "gate_step E s s'" and m: "gt_main s' = Serving"
    and l: "gt_phase s Listener = WaitingInGet \<longrightarrow> gt_phase s' Listener = WaitingInGet"
    using assms(2) by (auto simp: busy_step_def)
  from g show ?thesis
  proof cases
    case (enter r)
    with upd [of r WaitingInGet] show ?thesis by (simp add: potential_def)
  next
    case (leave r)
    with run show ?thesis by simp
  next
    case (take_item r p)
    with l have "r \<noteq> Listener" by auto
    then have "\<not> takes Listener (gt_pipe s) p"
      using takes_frame [OF take_item(4,5), of Listener] by (simp add: takes_def del: holding.simps)
    from pipe_weight_step [OF take_item(4) this] upd [of r Working] take_item show ?thesis by (simp add: potential_def)
  next
    case no_event
    with l show ?thesis by simp
  next
    case (put_item r p)
    have "\<not> takes Listener (gt_pipe s) p"
      using puts_frame [OF put_item(3,4), of Listener] put_item(4) by (cases "r = Listener") (auto simp: takes_def puts_def)
    from pipe_weight_step [OF put_item(3) this] upd [of r AtLoopHead] put_item show ?thesis by (simp add: potential_def)
  next
    case (no_result r)
    with upd [of r AtLoopHead] show ?thesis by (simp add: potential_def)
  next
    case signal
    with m show ?thesis by (simp add: handle_shutdown_def)
  next
    case gathered
    with assms(2) show ?thesis by simp
  qed
qed

lemma busy_run:
  assumes "(busy_step E ^^ n) s s'" "gate_inv s" "gt_main s = Serving"
  shows "n + potential s' \<le> potential s \<and> gate_inv s' \<and> gt_main s' = Serving"
  using assms(1)
proof (induction n arbitrary: s')
  case (Suc n)
  then obtain u where u: "(busy_step E ^^ n) s u" "busy_step E u s'" by auto
  note h = Suc.IH [OF u(1)]
  from u(2) h have "gate_inv s'" "gt_main s' = Serving" by (auto simp: busy_step_def intro: gate_step_inv)
  with busy_step_potential [of u E s'] u(2) h show ?case by simp
qed (use assms(2,3) in simp)

text \<open>A gateway that serves and has nothing left to do is empty: the workers cannot block each other.\<close>

lemma at_rest_empty:
  assumes "gate_inv s" "gt_main s = Serving" "\<nexists>s'. busy_step E s s'"
  shows "backlog r (gt_pipe s) = 0 \<and> \<not> holding r (gt_pipe s)"
proof -
  have e: "stuck r s \<or> r = Listener \<and> gt_phase s r = WaitingInGet" for r
  proof (rule ccontr)
    assume n: "\<not> (stuck r s \<or> r = Listener \<and> gt_phase s r = WaitingInGet)"
    have "gt_phase s r \<noteq> Exited" using assms(1,2) by (simp add: gate_inv_def)
    from worker_enabled [OF assms(1) this] n obtain s' where
      "gate_step E s s'" "gt_main s' = gt_main s" "r \<noteq> Listener \<longrightarrow> gt_phase s' Listener = gt_phase s Listener" by blast
    with assms(3) n show False by (auto simp: busy_step_def)
  qed
  have w: "gt_phase s r = WaitingInGet \<Longrightarrow> \<not> holding r (gt_pipe s)" for r
    using assms(1) by (auto simp: gate_inv_def simp del: holding.simps)
  have tx: "backlog Transmitter (gt_pipe s) = 0" using e [of Transmitter] by (auto simp: stuck_def)
  have po: "backlog Policy (gt_pipe s) = 0" "\<not> holding Policy (gt_pipe s)"
    using e [of Policy] tx w [of Policy] by (auto simp: stuck_def)
  have si: "backlog Signer (gt_pipe s) = 0" "\<not> holding Signer (gt_pipe s)"
    using e [of Signer] po w [of Signer] by (auto simp: stuck_def)
  have ex: "backlog Extractor (gt_pipe s) = 0" "\<not> holding Extractor (gt_pipe s)"
    using e [of Extractor] si w [of Extractor] by (auto simp: stuck_def)
  have li: "\<not> holding Listener (gt_pipe s)"
    using e [of Listener] ex w [of Listener] by (auto simp: stuck_def)
  show ?thesis using tx po si ex li by (cases r) simp_all
qed

subsection \<open>Idle when the signal comes\<close>

text \<open>The extractor waits for an event, and none will come.\<close>

definition starved :: "gate \<Rightarrow> bool" where
  "starved s = (gt_main s = Gathering \<and> (\<forall>r. \<not> gt_running s r) \<and> gt_phase s Extractor = WaitingInGet
     \<and> backlog Extractor (gt_pipe s) = 0 \<and> \<not> holding Listener (gt_pipe s))"

lemma starved_pipe:
  assumes "pipe_step E p p'" "\<not> takes Listener p p'" "\<not> holding Listener p"
  shows "\<not> holding Listener p' \<and> backlog Extractor p' \<le> backlog Extractor p"
  using assms by (cases rule: pipe_step.cases) (auto simp: takes_def dest!: put_items get_items)

lemma starved_step:
  assumes "starved s" "gate_step E s s'"
  shows "starved s'"
  using assms(2)
proof cases
  case (take_item r p)
  with assms(1) have r: "r \<noteq> Listener" by (auto simp: starved_def)
  then have "\<not> takes Listener (gt_pipe s) p"
    using takes_frame [OF take_item(4,5), of Listener] by (simp add: takes_def del: holding.simps)
  from starved_pipe [OF take_item(4) this] assms(1) have
    k: "\<not> holding Listener p" "backlog Extractor p = 0" by (auto simp: starved_def simp del: holding.simps backlog.simps)
  moreover have "r \<noteq> Extractor" using take_item(5) assms(1) r by (auto simp: starved_def takes_def)
  ultimately show ?thesis using take_item(1) assms(1) by (simp add: starved_def)
next
  case (put_item r p)
  have r: "r \<noteq> Listener" using put_item(4) assms(1) by (auto simp: starved_def puts_def simp del: holding.simps)
  then have "\<not> takes Listener (gt_pipe s) p"
    using puts_frame [OF put_item(3,4), of Listener] by (simp add: takes_def del: holding.simps)
  from starved_pipe [OF put_item(3) this] assms(1) have
    k: "\<not> holding Listener p" "backlog Extractor p = 0" by (auto simp: starved_def simp del: holding.simps backlog.simps)
  moreover have "r \<noteq> Extractor" using put_item(2) assms(1) by (auto simp: starved_def)
  ultimately show ?thesis using put_item(1) assms(1) by (simp add: starved_def)
qed (use assms(1) in \<open>auto simp: starved_def\<close>)

interpretation starving: guarded_system "gate_step E" starved for E
  by unfold_locales (rule starved_step)

subsection \<open>A shutdown that completes\<close>

lemma leave_all:
  assumes "\<forall>r. gt_phase s r = AtLoopHead" "\<forall>r. \<not> gt_running s r" "gt_main s = Gathering"
  shows "\<exists>s'. (gate_step E)\<^sup>*\<^sup>* s s' \<and> gt_main s' = Finished"
proof -
  have leave: "(gate_step E)\<^sup>*\<^sup>* (s\<lparr>gt_phase := h\<rparr>) (s\<lparr>gt_phase := h(r := Exited)\<rparr>)" if "h r = AtLoopHead" for h r
    using gate_step.leave [of "s\<lparr>gt_phase := h\<rparr>" r E] assms(2) that by auto
  let ?h = "gt_phase s"
  let ?h1 = "?h(Listener := Exited)" let ?h2 = "?h1(Extractor := Exited)" let ?h3 = "?h2(Signer := Exited)"
  let ?h4 = "?h3(Policy := Exited)" let ?h5 = "?h4(Transmitter := Exited)"
  have "(gate_step E)\<^sup>*\<^sup>* s (s\<lparr>gt_phase := ?h5\<rparr>)"
    using leave [of ?h Listener] leave [of ?h1 Extractor] leave [of ?h2 Signer] leave [of ?h3 Policy] leave [of ?h4 Transmitter]
      assms(1) by simp
  moreover have "?h5 r = Exited" for r by (cases r) simp_all
  then have "gate_step E (s\<lparr>gt_phase := ?h5\<rparr>) (s\<lparr>gt_phase := ?h5, gt_main := Finished\<rparr>)"
    using gathered [of "s\<lparr>gt_phase := ?h5\<rparr>" E] assms(3) by simp
  ultimately have "(gate_step E)\<^sup>*\<^sup>* s (s\<lparr>gt_phase := ?h5, gt_main := Finished\<rparr>)" by (rule rtranclp.rtrancl_into_rtrancl)
  then show ?thesis by (intro exI conjI) (assumption, simp)
qed

section \<open>Properties\<close>

text \<open>
  C15: a serving gateway drains. While Gateway A serves and its listener gets nothing new, the workers
  do only finitely many steps, in whatever order they are scheduled and whatever conversion,
  signing, policy and network answer; and when they can do nothing more, every queue is empty and no
  worker holds a transaction: full queues never block the workers against each other.
\<close>

theorem serving_gateway_drains:
  assumes "run_pipeline libs L pb compress env fs = Inr (E, p0)" and "(gate_step E)\<^sup>*\<^sup>* (gate_init p0) s"
    and "gt_main s = Serving" and "(busy_step E ^^ n) s s'"
  shows "n \<le> 3 * pipe_weight (gt_pipe s) + 10
    \<and> ((\<nexists>s''. busy_step E s' s'') \<longrightarrow> (\<forall>r. backlog r (gt_pipe s') = 0 \<and> \<not> holding r (gt_pipe s')))"
proof -
  have i: "gate_inv s" using gate.reach_inv [OF assms(2) gate_init_inv [OF assms(1)]] .
  note b = busy_run [OF assms(4) i assms(3)]
  have "to_get ph \<le> 2" for ph by (cases ph) simp_all
  from sum_roles_le [of to_get 2 "gt_phase s", OF this] have "potential s \<le> 3 * pipe_weight (gt_pipe s) + 10" by (simp add: potential_def roles_def)
  with b at_rest_empty show ?thesis by auto
qed

theorem serving_gateway_drains_witness:
  "\<exists>E p0 s'. run_pipeline demo_stix_libs demo_crypto json_pb id (\<lambda>_. None) demo_key_fs = Inr (E, p0)
    \<and> busy_step E (gate_init p0) s' \<and> 1 \<le> 3 * pipe_weight (gt_pipe (gate_init p0)) + 10"
proof -
  from demo_start obtain E p0 where r: "run_pipeline demo_stix_libs demo_crypto json_pb id (\<lambda>_. None) demo_key_fs = Inr (E, p0)" by blast
  let ?s = "(gate_init p0)\<lparr>gt_phase := (gt_phase (gate_init p0))(Extractor := WaitingInGet)\<rparr>"
  have "gate_step E (gate_init p0) ?s" by (rule enter) (simp_all add: gate_init_def)
  then have b: "busy_step E (gate_init p0) ?s" by (simp add: busy_step_def)
  from serving_gateway_drains [OF r rtranclp.rtrancl_refl, of 1 ?s] b r show ?thesis
    by (auto simp: gate_init_def)
qed

text \<open>
  After the signal the gateway comes to rest. At most sixteen steps happen after the handler has
  run, since every loop ends at its next test and so every worker takes at most one more item. When
  nothing can happen any more, either the shutdown has completed, or some worker still waits for an
  item of an empty queue or for room in a full one: exactly then \<open>run_pipeline\<close> hangs in its
  \<open>gather\<close>.
\<close>

theorem shutdown_settles:
  assumes "run_pipeline libs L pb compress env fs = Inr (E, p0)" and "(gate_step E)\<^sup>*\<^sup>* (gate_init p0) s"
    and "gt_main s \<noteq> Serving" and "(gate_step E ^^ n) s s'"
  shows "n \<le> 16 \<and> ((\<nexists>s''. gate_step E s' s'') \<longrightarrow> (gt_main s' \<noteq> Finished \<longleftrightarrow> (\<exists>r. stuck r s')))"
proof -
  have i: "gate_inv s" using gate.reach_inv [OF assms(2) gate_init_inv [OF assms(1)]] .
  have "gate_inv s'" using gate.reach_inv [OF relpowp_imp_rtranclp [OF assms(4)] i] .
  moreover have "gt_main s' \<noteq> Serving" using stopped_reach [OF assms(4) i assms(3)] .
  ultimately show ?thesis
    using stopped_run [OF assms(4) i assms(3)] rest_of_run_le [of s] rest_cases [of s' E] by auto
qed

theorem shutdown_settles_witness:
  "\<exists>E p0 n s'. run_pipeline demo_stix_libs demo_crypto json_pb id (\<lambda>_. None) demo_key_fs = Inr (E, p0)
    \<and> (gate_step E ^^ n) (handle_shutdown (gate_init p0)) s' \<and> n \<le> 16 \<and> gt_main s' = Finished"
proof -
  from demo_start obtain E p0 where r: "run_pipeline demo_stix_libs demo_crypto json_pb id (\<lambda>_. None) demo_key_fs = Inr (E, p0)" by blast
  let ?s = "handle_shutdown (gate_init p0)"
  have "gate_step E (gate_init p0) ?s" by (rule signal) (simp add: gate_init_def)
  then have s: "(gate_step E)\<^sup>*\<^sup>* (gate_init p0) ?s" by simp
  have m: "gt_main ?s \<noteq> Serving" by (simp add: handle_shutdown_def)
  obtain s' where f: "(gate_step E)\<^sup>*\<^sup>* ?s s'" "gt_main s' = Finished"
    using leave_all [of ?s E] by (auto simp: handle_shutdown_def gate_init_def)
  from rtranclp_imp_relpowp [OF f(1)] obtain n where n: "(gate_step E ^^ n) ?s s'" by blast
  from shutdown_settles [OF r s m n] r n f(2) show ?thesis by blast
qed

text \<open>
  C31: an idle gateway cannot be shut down. If, when the signal comes, the extractor waits for an
  event, its queue is empty and the listener is not just putting an event into it, then the shutdown
  never completes, whatever the other workers have in their queues and however they are scheduled.
\<close>

theorem idle_shutdown_never_finishes:
  assumes "gt_phase s Extractor = WaitingInGet" and "backlog Extractor (gt_pipe s) = 0"
    and "\<not> holding Listener (gt_pipe s)" and "(gate_step E)\<^sup>*\<^sup>* (handle_shutdown s) s'"
  shows "gt_main s' \<noteq> Finished"
proof -
  have "starved (handle_shutdown s)" using assms(1-3) by (simp add: starved_def handle_shutdown_def)
  from starving.reach_inv [OF assms(4) this] show ?thesis by (simp add: starved_def)
qed

theorem idle_shutdown_never_finishes_witness:
  "\<exists>E p0 s s'. run_pipeline demo_stix_libs demo_crypto json_pb id (\<lambda>_. None) demo_key_fs = Inr (E, p0)
    \<and> gate_step E (gate_init p0) s \<and> gate_step E (handle_shutdown s) s' \<and> gt_phase s' Listener = Exited
    \<and> gt_main s' \<noteq> Finished"
proof -
  from demo_start obtain E p0 where r: "run_pipeline demo_stix_libs demo_crypto json_pb id (\<lambda>_. None) demo_key_fs = Inr (E, p0)" by blast
  let ?s = "(gate_init p0)\<lparr>gt_phase := (gt_phase (gate_init p0))(Extractor := WaitingInGet)\<rparr>"
  let ?t = "(handle_shutdown ?s)\<lparr>gt_phase := (gt_phase (handle_shutdown ?s))(Listener := Exited)\<rparr>"
  have s: "gate_step E (gate_init p0) ?s" by (rule enter) (simp_all add: gate_init_def)
  have t: "gate_step E (handle_shutdown ?s) ?t" by (rule leave) (simp_all add: gate_init_def handle_shutdown_def)
  have "backlog Extractor p0 = 0" "\<not> holding Listener p0"
    using r by (auto simp: run_pipeline_def Let_def q_new_def)
  then have "gt_main ?t \<noteq> Finished"
    by (intro idle_shutdown_never_finishes [where s = ?s and E = E, OF _ _ _ r_into_rtranclp [of "gate_step E", OF t]])
      (simp_all add: gate_init_def)
  with r s t show ?thesis by (intro exI [of _ E] exI [of _ p0] exI [of _ ?s] exI [of _ ?t]) simp
qed

end
