(* ===== verification/Qstie_Cli.thy ===== *)
theory Qstie_Cli
  imports Qstie_Trust Py_Env
begin

text \<open>
  The command line of \<open>qstie-ca\<close>: the option tables of \<open>main\<close> in \<open>qstie_trust/cli.py\<close>, the reading
  of a command line by \<open>argparse\<close>, and the dispatch to the commands of \<open>Qstie_Trust\<close>.

  Of \<open>argparse\<close> the theory models what these tables use: a subcommand, then options with one value
  each, given as \<open>--name value\<close> or \<open>--name=value\<close>, where a unique prefix of a name stands for it
  and the last of several values counts; \<open>-h\<close> and \<open>--help\<close>; required options, choices, integer
  values, defaults. An error exits with status 2 and help with status 0. The separator \<open>--\<close> is not
  modelled.
\<close>

section \<open>Option tables\<close>

record option_spec =
  opt_name :: string
  opt_required :: bool
  opt_int :: bool
  opt_choices :: "string list option"
  opt_default :: pyval

definition required_arg :: "string \<Rightarrow> option_spec" where
  "required_arg name = \<lparr>opt_name = name, opt_required = True, opt_int = False, opt_choices = None, opt_default = VNone\<rparr>"

definition days_arg :: "int \<Rightarrow> option_spec" where
  "days_arg n = \<lparr>opt_name = ''--validity-days'', opt_required = False, opt_int = True, opt_choices = None,
     opt_default = VInt n\<rparr>"

definition key_type_arg :: option_spec where
  "key_type_arg = \<lparr>opt_name = ''--key-type'', opt_required = False, opt_int = False,
     opt_choices = Some [''mldsa'', ''ecdsa''], opt_default = VStr ''mldsa''\<rparr>"

definition subparsers :: "(string \<times> option_spec list) list" where
  "subparsers =
     [(''init-root'', [required_arg ''--out-dir'', days_arg 3650, key_type_arg]),
      (''issue-gateway-cert'',
        [required_arg ''--agency-id'', required_arg ''--ca-dir'', required_arg ''--san'', days_arg 90,
         required_arg ''--out-dir'', key_type_arg]),
      (''issue-signing-key'', [required_arg ''--agency-id'', required_arg ''--out-dir'', key_type_arg]),
      (''export-trust-bundle'',
        [required_arg ''--agencies'', required_arg ''--pki-root'', required_arg ''--out'', key_type_arg]),
      (''revoke'',
        [required_arg ''--agency-id'', required_arg ''--key-type'', required_arg ''--reason'', required_arg ''--out'',
         required_arg ''--fingerprint''])]"

section \<open>Reading a command line\<close>

text \<open>What an argument is: a plain value, an option with or without a value, or no option known.\<close>

datatype arg_class = Plain | Option string "string option" | Help | Refused | Unknown

definition help_names :: "string list" where
  "help_names = [''-h'', ''--help'']"

definition option_class :: "string \<Rightarrow> string option \<Rightarrow> arg_class" where
  "option_class name v =
     (if name \<in> set help_names then (if v = None then Help else Refused) else Option name v)"

definition negative_number :: "string \<Rightarrow> bool" where
  "negative_number s =
     (case str_split (CHR ''.'') (tl s) of
        [ds] \<Rightarrow> ds \<noteq> [] \<and> list_all is_digit ds
      | [ds, fr] \<Rightarrow> fr \<noteq> [] \<and> list_all is_digit ds \<and> list_all is_digit fr
      | _ \<Rightarrow> False)"

definition classify :: "string list \<Rightarrow> string \<Rightarrow> arg_class" where
  "classify names s =
     (let known = help_names @ names;
          before = takeWhile (\<lambda>c. c \<noteq> CHR ''='') s;
          v = (if before = s then None else Some (drop (Suc (length before)) s))
      in if s = [] \<or> hd s \<noteq> CHR ''-'' then Plain
         else if s \<in> set known then option_class s None
         else if length s = 1 then Plain
         else if before \<in> set known then option_class before v
         else if prefix ''-h'' s then Refused
         else case (if prefix ''--'' s then filter (prefix before) known else []) of
             [name] \<Rightarrow> option_class name v
           | _ # _ # _ \<Rightarrow> Refused
           | [] \<Rightarrow> if negative_number s \<or> CHR '' '' \<in> set s then Plain else Unknown)"

type_synonym namespace = "string \<rightharpoonup> pyval"

text \<open>Storing the value of an option: conversion, then the choices.\<close>

definition store :: "option_spec list \<Rightarrow> string \<Rightarrow> string \<Rightarrow> namespace \<Rightarrow> namespace result" where
  "store specs name v ns =
     (case find (\<lambda>sp. opt_name sp = name) specs of
        None \<Rightarrow> Inl (SystemExit ''2'')
      | Some spec \<Rightarrow>
          (case (if opt_int spec then map_sum id VInt (py_int v) else Inr (VStr v)) of
             Inl _ \<Rightarrow> Inl (SystemExit ''2'')
           | Inr x \<Rightarrow>
               if (case opt_choices spec of None \<Rightarrow> False | Some cs \<Rightarrow> v \<notin> set cs) then Inl (SystemExit ''2'')
               else Inr (ns(name \<mapsto> x))))"

text \<open>
  The arguments of a subcommand. A value that no option asks for and an option that is not known
  are left over, which is an error, but only after the rest has been read.
\<close>

fun parse_options :: "option_spec list \<Rightarrow> bool \<Rightarrow> string list \<Rightarrow> namespace \<Rightarrow> (bool \<times> namespace) result" where
  "parse_options specs extra [] ns = Inr (extra, ns)"
| "parse_options specs extra (a # args) ns =
     (case classify (map opt_name specs) a of
        Plain \<Rightarrow> parse_options specs True args ns
      | Unknown \<Rightarrow> parse_options specs True args ns
      | Help \<Rightarrow> Inl (SystemExit ''0'')
      | Refused \<Rightarrow> Inl (SystemExit ''2'')
      | Option name (Some v) \<Rightarrow> rbind (store specs name v ns) (parse_options specs extra args)
      | Option name None \<Rightarrow>
          (case args of
             [] \<Rightarrow> Inl (SystemExit ''2'')
           | v # rest \<Rightarrow>
               if classify (map opt_name specs) v = Plain
               then rbind (store specs name v ns) (parse_options specs extra rest)
               else Inl (SystemExit ''2'')))"

definition defaults :: "option_spec list \<Rightarrow> namespace" where
  "defaults specs =
     map_of (map (\<lambda>sp. (opt_name sp, opt_default sp)) (filter (\<lambda>sp. \<not> opt_required sp) specs))"

definition parse_args :: "string list \<Rightarrow> (string \<times> namespace) result" where
  "parse_args argv =
     (case argv of
        [] \<Rightarrow> Inl (SystemExit ''2'')
      | cmd # args \<Rightarrow>
          (case classify [] cmd of
             Plain \<Rightarrow>
               (case map_of subparsers cmd of
                  None \<Rightarrow> Inl (SystemExit ''2'')
                | Some specs \<Rightarrow>
                    rbind (parse_options specs False args (defaults specs)) (\<lambda>(extra, ns).
                      if (\<exists>sp \<in> set specs. opt_required sp \<and> ns (opt_name sp) = None) \<or> extra
                      then Inl (SystemExit ''2'')
                      else Inr (cmd, ns)))
           | Help \<Rightarrow> Inl (SystemExit ''0'')
           | _ \<Rightarrow> Inl (SystemExit ''2'')))"

section \<open>Dispatch\<close>

text \<open>What a run of the program draws from its surroundings: randomness and the clock.\<close>

record cli_draw =
  dr_entropy :: entropy
  dr_now :: string
  dr_expiry :: string

definition str_arg :: "namespace \<Rightarrow> string \<Rightarrow> string" where
  "str_arg ns name = (case ns name of Some (VStr s) \<Rightarrow> s | _ \<Rightarrow> [])"

definition int_arg :: "namespace \<Rightarrow> string \<Rightarrow> int" where
  "int_arg ns name = (case ns name of Some (VInt i) \<Rightarrow> i | _ \<Rightarrow> 0)"

definition run_command :: "crypto_lib \<Rightarrow> yaml_lib \<Rightarrow> cli_draw \<Rightarrow> string \<Rightarrow> namespace \<Rightarrow> fsys \<Rightarrow> fsys result" where
  "run_command L y r cmd ns fs =
     (let s = str_arg ns
      in if cmd = ''init-root'' then
           cmd_init_root L (dr_entropy r) (s ''--out-dir'') (int_arg ns ''--validity-days'') (s ''--key-type'') fs
         else if cmd = ''issue-gateway-cert'' then
           cmd_issue_gateway_cert L (dr_entropy r) (s ''--agency-id'') (s ''--ca-dir'') (s ''--san'')
             (int_arg ns ''--validity-days'') (s ''--out-dir'') (s ''--key-type'') fs
         else if cmd = ''issue-signing-key'' then
           cmd_issue_signing_key L (dr_entropy r) (s ''--agency-id'') (s ''--out-dir'') (s ''--key-type'') fs
         else if cmd = ''export-trust-bundle'' then
           cmd_export_trust_bundle L y (s ''--agencies'') (s ''--pki-root'') (s ''--out'') (s ''--key-type'')
             (dr_now r) (dr_expiry r) fs
         else
           cmd_revoke y (s ''--agency-id'') (s ''--key-type'') (s ''--reason'') (s ''--out'') (s ''--fingerprint'')
             (dr_now r) fs)"

definition cli_main :: "crypto_lib \<Rightarrow> yaml_lib \<Rightarrow> cli_draw \<Rightarrow> string list \<Rightarrow> fsys \<Rightarrow> fsys result" where
  "cli_main L y r argv fs =
     rbind (parse_args argv) (\<lambda>(cmd, ns). cli_run (run_command L y r cmd ns fs))"

text \<open>The exit status of the process.\<close>

definition exit_status :: "'a result \<Rightarrow> int" where
  "exit_status res =
     (case res of
        Inr _ \<Rightarrow> 0
      | Inl (SystemExit m) \<Rightarrow> if m = ''0'' then 0 else if m = ''2'' then 2 else 1
      | Inl _ \<Rightarrow> 1)"

section \<open>Lemmas\<close>

text \<open>Options written out in full, each followed by its value.\<close>

definition spelled :: "(string \<times> string) list \<Rightarrow> string list" where
  "spelled ps = concat (map (\<lambda>(n, v). [n, v]) ps)"

lemma spelled_simps [simp]: "spelled [] = []" "spelled ((n, v) # ps) = n # v # spelled ps"
  by (simp_all add: spelled_def)

definition plain_value :: "string \<Rightarrow> bool" where
  "plain_value v = (v = [] \<or> hd v \<noteq> CHR ''-'')"

lemma classify_plain: "plain_value v \<Longrightarrow> classify names v = Plain"
  by (auto simp: classify_def plain_value_def)

lemma classify_option:
  "n \<in> set names \<Longrightarrow> prefix ''--'' n \<Longrightarrow> n \<notin> set help_names \<Longrightarrow> classify names n = Option n None"
  by (cases n) (auto simp: classify_def option_class_def Let_def)

text \<open>Every option of the tables is spelled with two dashes and is not the help option.\<close>

definition names_ok :: "option_spec list \<Rightarrow> bool" where
  "names_ok specs = list_all (\<lambda>n. prefix ''--'' n \<and> n \<notin> set help_names) (map opt_name specs)"

lemma parse_spelled:
  assumes "names_ok specs" "list_all (\<lambda>(n, v). n \<in> opt_name ` set specs \<and> plain_value v) ps"
  shows "parse_options specs extra (spelled ps) ns =
    map_sum id (Pair extra) (rfold (\<lambda>(n, v). store specs n v) ps ns)"
  using assms(2)
proof (induction ps arbitrary: ns)
  case (Cons p ps)
  obtain n v where p: "p = (n, v)" by (cases p)
  with Cons.prems have n: "n \<in> opt_name ` set specs" and v: "plain_value v" by auto
  have "classify (map opt_name specs) n = Option n None"
    using n assms(1) by (intro classify_option) (auto simp: names_ok_def list_all_iff)
  with classify_plain [OF v] Cons show ?case
    by (cases "store specs n v ns") (simp_all add: p)
qed simp

text \<open>The value that an option stores, if it is acceptable.\<close>

definition arg_value :: "option_spec list \<Rightarrow> string \<times> string \<Rightarrow> pyval option" where
  "arg_value specs = (\<lambda>(n, v).
     (case find (\<lambda>sp. opt_name sp = n) specs of
        None \<Rightarrow> None
      | Some sp \<Rightarrow>
          if (case opt_choices sp of None \<Rightarrow> True | Some cs \<Rightarrow> v \<in> set cs)
          then (if opt_int sp then (case py_int v of Inl _ \<Rightarrow> None | Inr i \<Rightarrow> Some (VInt i)) else Some (VStr v))
          else None))"

lemma store_value:
  "store specs n v ns = (case arg_value specs (n, v) of None \<Rightarrow> Inl (SystemExit ''2'') | Some x \<Rightarrow> Inr (ns(n \<mapsto> x)))"
  by (auto simp: store_def arg_value_def split: option.split sum.split)

definition given :: "option_spec list \<Rightarrow> (string \<times> string) list \<Rightarrow> namespace" where
  "given specs ps = map_of (rev (map (\<lambda>p. (fst p, the (arg_value specs p))) ps))"

lemma store_all:
  "rfold (\<lambda>(n, v). store specs n v) ps ns =
     (if \<exists>p \<in> set ps. arg_value specs p = None then Inl (SystemExit ''2'') else Inr (ns ++ given specs ps))"
proof (induction ps arbitrary: ns)
  case Nil
  then show ?case by (simp add: given_def)
next
  case (Cons p ps)
  obtain n v where p: "p = (n, v)" by (cases p)
  have "given specs (p # ps) = [n \<mapsto> the (arg_value specs p)] ++ given specs ps"
    by (simp add: given_def p)
  with Cons show ?case by (cases "arg_value specs p") (auto simp: p store_value)
qed

lemma subparser_facts:
  assumes "(cmd, specs) \<in> set subparsers"
  shows "names_ok specs" "map_of subparsers cmd = Some specs" "classify [] cmd = Plain"
    "distinct (map opt_name specs)"
proof -
  note tables = subparsers_def required_arg_def days_arg_def key_type_arg_def
  show "names_ok specs" "distinct (map opt_name specs)"
    using assms by (auto simp: tables names_ok_def help_names_def)
  have "distinct (map fst subparsers)" by (simp add: tables)
  with assms show "map_of subparsers cmd = Some specs" by simp
  show "classify [] cmd = Plain"
    by (rule classify_plain) (use assms in \<open>auto simp: tables plain_value_def\<close>)
qed

lemma defaults_None:
  "distinct (map opt_name specs) \<Longrightarrow> sp \<in> set specs \<Longrightarrow>
     defaults specs (opt_name sp) = (if opt_required sp then None else Some (opt_default sp))"
proof (induction specs)
  case (Cons a specs)
  then show ?case
    by (cases "sp = a") (auto simp: defaults_def map_of_eq_None_iff image_iff dest: inj_onD)
qed simp

lemma parse_args_spelled:
  assumes "(cmd, specs) \<in> set subparsers"
    and "list_all (\<lambda>(n, v). n \<in> opt_name ` set specs \<and> plain_value v) ps"
  shows "parse_args (cmd # spelled ps) =
    (if (\<exists>p \<in> set ps. arg_value specs p = None)
       \<or> (\<exists>sp \<in> set specs. opt_required sp \<and> opt_name sp \<notin> fst ` set ps)
     then Inl (SystemExit ''2'')
     else Inr (cmd, defaults specs ++ given specs ps))"
proof -
  note t = subparser_facts [OF assms(1)]
  let ?ns = "defaults specs ++ given specs ps"
  have "?ns (opt_name sp) = None \<longleftrightarrow> opt_name sp \<notin> fst ` set ps"
    if "sp \<in> set specs" "opt_required sp" for sp
    using defaults_None [OF t(4) that(1)] that(2)
    by (auto simp: map_add_def given_def map_of_eq_None_iff image_iff dest!: map_of_SomeD split: option.split)
  then have q: "(\<exists>sp \<in> set specs. opt_required sp \<and> ?ns (opt_name sp) = None)
      \<longleftrightarrow> (\<exists>sp \<in> set specs. opt_required sp \<and> opt_name sp \<notin> fst ` set ps)" by blast
  have "parse_args (cmd # spelled ps) =
      (if \<exists>p \<in> set ps. arg_value specs p = None then Inl (SystemExit ''2'')
       else if \<exists>sp \<in> set specs. opt_required sp \<and> ?ns (opt_name sp) = None then Inl (SystemExit ''2'')
       else Inr (cmd, ?ns))"
    by (simp add: parse_args_def t parse_spelled [OF t(1) assms(2)] store_all del: map_add_None) auto
  then show ?thesis unfolding q by (simp only: split: if_split) blast
qed

subsection \<open>Options given once\<close>

definition opt_value :: "option_spec \<Rightarrow> string \<Rightarrow> pyval option" where
  "opt_value sp v =
     (if (case opt_choices sp of None \<Rightarrow> True | Some cs \<Rightarrow> v \<in> set cs)
      then (if opt_int sp then (case py_int v of Inl _ \<Rightarrow> None | Inr i \<Rightarrow> Some (VInt i)) else Some (VStr v))
      else None)"

fun option_bad :: "option_spec \<Rightarrow> string option \<Rightarrow> bool" where
  "option_bad sp None = opt_required sp"
| "option_bad sp (Some v) = (opt_value sp v = None)"

fun option_result :: "option_spec \<Rightarrow> string option \<Rightarrow> pyval" where
  "option_result sp None = opt_default sp"
| "option_result sp (Some v) = the (opt_value sp v)"

lemma arg_value_spec:
  assumes "distinct (map opt_name specs)" "sp \<in> set specs"
  shows "arg_value specs (opt_name sp, v) = opt_value sp v"
proof -
  have "find (\<lambda>x. opt_name x = opt_name sp) specs = Some sp"
    using assms by (induction specs) (auto simp: image_iff)
  then show ?thesis by (simp add: arg_value_def opt_value_def)
qed

lemma given_once:
  assumes "distinct (map fst ps)"
  shows "given specs ps n = map_option (\<lambda>v. the (arg_value specs (n, v))) (map_of ps n)"
proof -
  have "distinct (map fst (map (\<lambda>p. (fst p, the (arg_value specs p))) ps))" using assms by (simp add: comp_def)
  then have "given specs ps = map_of (map (\<lambda>p. (fst p, the (arg_value specs p))) ps)"
    unfolding given_def by (subst map_of_inject_set) (simp_all add: rev_map [symmetric])
  moreover have "map_of (map (\<lambda>p. (fst p, the (arg_value specs p))) ps) n
      = map_option (\<lambda>v. the (arg_value specs (n, v))) (map_of ps n)"
    by (induction ps) auto
  ultimately show ?thesis by simp
qed

lemma parse_args_once:
  assumes "(cmd, specs) \<in> set subparsers" "distinct (map fst ps)"
    and "list_all (\<lambda>(n, v). n \<in> opt_name ` set specs \<and> plain_value v) ps"
  shows "\<exists>ns. parse_args (cmd # spelled ps) =
      (if \<exists>sp \<in> set specs. option_bad sp (map_of ps (opt_name sp)) then Inl (SystemExit ''2'') else Inr (cmd, ns))
    \<and> (\<forall>sp \<in> set specs. \<not> option_bad sp (map_of ps (opt_name sp)) \<longrightarrow>
        ns (opt_name sp) = Some (option_result sp (map_of ps (opt_name sp))))"
proof -
  note t = subparser_facts [OF assms(1)]
  let ?ns = "defaults specs ++ given specs ps"
  have "(\<exists>p \<in> set ps. arg_value specs p = None) \<or> (\<exists>sp \<in> set specs. opt_required sp \<and> opt_name sp \<notin> fst ` set ps)
      \<longleftrightarrow> (\<exists>sp \<in> set specs. option_bad sp (map_of ps (opt_name sp)))" (is "?l \<longleftrightarrow> ?r")
  proof
    assume ?l
    then show ?r
    proof
      assume "\<exists>p \<in> set ps. arg_value specs p = None"
      then obtain n v where p: "(n, v) \<in> set ps" "arg_value specs (n, v) = None" by auto
      with assms(3) obtain sp where sp: "sp \<in> set specs" "n = opt_name sp" by (auto simp: list_all_iff)
      with p arg_value_spec [OF t(4) sp(1)] assms(2) have "option_bad sp (map_of ps (opt_name sp))" by simp
      with sp show ?r by blast
    next
      assume "\<exists>sp \<in> set specs. opt_required sp \<and> opt_name sp \<notin> fst ` set ps"
      then obtain sp where "sp \<in> set specs" "opt_required sp" "map_of ps (opt_name sp) = None"
        by (auto simp: map_of_eq_None_iff)
      then show ?r by force
    qed
  next
    assume ?r
    then obtain sp where sp: "sp \<in> set specs" "option_bad sp (map_of ps (opt_name sp))" by blast
    show ?l
    proof (cases "map_of ps (opt_name sp)")
      case None
      with sp show ?thesis by (auto simp: map_of_eq_None_iff)
    next
      case (Some v)
      with sp arg_value_spec [OF t(4) sp(1)] have "arg_value specs (opt_name sp, v) = None" by simp
      with map_of_SomeD [OF Some] show ?thesis by blast
    qed
  qed
  moreover have "?ns (opt_name sp) = Some (option_result sp (map_of ps (opt_name sp)))"
    if "sp \<in> set specs" "\<not> option_bad sp (map_of ps (opt_name sp))" for sp
    using that defaults_None [OF t(4) that(1)] arg_value_spec [OF t(4) that(1)]
    by (cases "map_of ps (opt_name sp)") (auto simp: map_add_def given_once [OF assms(2)])
  ultimately show ?thesis
    unfolding parse_args_spelled [OF assms(1,3)] by (intro exI [of _ ?ns]) auto
qed

section \<open>Properties\<close>

text \<open>The usage of the program, command by command: its options, and what it runs for their values.\<close>

definition command_options :: "(string \<times> string list) list" where
  "command_options =
     [(''init-root'', [''--out-dir'', ''--validity-days'', ''--key-type'']),
      (''issue-gateway-cert'', [''--agency-id'', ''--ca-dir'', ''--san'', ''--validity-days'', ''--out-dir'', ''--key-type'']),
      (''issue-signing-key'', [''--agency-id'', ''--out-dir'', ''--key-type'']),
      (''export-trust-bundle'', [''--agencies'', ''--pki-root'', ''--out'', ''--key-type'']),
      (''revoke'', [''--agency-id'', ''--key-type'', ''--reason'', ''--out'', ''--fingerprint''])]"

definition days_value :: "string option \<Rightarrow> int \<Rightarrow> int option" where
  "days_value v dflt =
     (case v of None \<Rightarrow> Some dflt | Some s \<Rightarrow> (case py_int s of Inl _ \<Rightarrow> None | Inr i \<Rightarrow> Some i))"

definition key_value :: "string option \<Rightarrow> string option" where
  "key_value v =
     (case v of None \<Rightarrow> Some ''mldsa'' | Some s \<Rightarrow> if s = ''mldsa'' \<or> s = ''ecdsa'' then Some s else None)"

definition usage ::
    "crypto_lib \<Rightarrow> yaml_lib \<Rightarrow> cli_draw \<Rightarrow> string \<Rightarrow> (string \<Rightarrow> string option) \<Rightarrow> fsys \<Rightarrow> fsys result option" where
  "usage L y r cmd v fs =
     (if cmd = ''init-root'' then
        (case (v ''--out-dir'', days_value (v ''--validity-days'') 3650, key_value (v ''--key-type'')) of
           (Some out, Some d, Some kt) \<Rightarrow> Some (cmd_init_root L (dr_entropy r) out d kt fs)
         | _ \<Rightarrow> None)
      else if cmd = ''issue-gateway-cert'' then
        (case (v ''--agency-id'', v ''--ca-dir'', v ''--san'', days_value (v ''--validity-days'') 90, v ''--out-dir'',
               key_value (v ''--key-type'')) of
           (Some ag, Some ca, Some san, Some d, Some out, Some kt) \<Rightarrow>
             Some (cmd_issue_gateway_cert L (dr_entropy r) ag ca san d out kt fs)
         | _ \<Rightarrow> None)
      else if cmd = ''issue-signing-key'' then
        (case (v ''--agency-id'', v ''--out-dir'', key_value (v ''--key-type'')) of
           (Some ag, Some out, Some kt) \<Rightarrow> Some (cmd_issue_signing_key L (dr_entropy r) ag out kt fs)
         | _ \<Rightarrow> None)
      else if cmd = ''export-trust-bundle'' then
        (case (v ''--agencies'', v ''--pki-root'', v ''--out'', key_value (v ''--key-type'')) of
           (Some ags, Some root, Some out, Some kt) \<Rightarrow>
             Some (cmd_export_trust_bundle L y ags root out kt (dr_now r) (dr_expiry r) fs)
         | _ \<Rightarrow> None)
      else
        (case (v ''--agency-id'', v ''--key-type'', v ''--reason'', v ''--out'', v ''--fingerprint'') of
           (Some ag, Some kt, Some reason, Some out, Some fp) \<Rightarrow> Some (cmd_revoke y ag kt reason out fp (dr_now r) fs)
         | _ \<Rightarrow> None))"

lemma required_option [simp]:
  "opt_name (required_arg n) = n" "option_bad (required_arg n) v = (v = None)"
  "v \<noteq> None \<Longrightarrow> option_result (required_arg n) v = VStr (the v)"
  by (cases v; simp add: required_arg_def opt_value_def)+

lemma days_option [simp]:
  "opt_name (days_arg d) = ''--validity-days''" "option_bad (days_arg d) v = (days_value v d = None)"
  "days_value v d \<noteq> None \<Longrightarrow> option_result (days_arg d) v = VInt (the (days_value v d))"
  by (cases v; auto simp: days_arg_def opt_value_def days_value_def split: sum.splits)+

lemma key_option [simp]:
  "opt_name key_type_arg = ''--key-type''" "option_bad key_type_arg v = (key_value v = None)"
  "key_value v \<noteq> None \<Longrightarrow> option_result key_type_arg v = VStr (the (key_value v))"
  by (cases v; auto simp: key_type_arg_def opt_value_def key_value_def split: if_splits)+

lemma usage_table: "map (\<lambda>(cmd, specs). (cmd, map opt_name specs)) subparsers = command_options"
  by (simp add: subparsers_def command_options_def)

text \<open>
  C38: the command line of \<open>qstie-ca\<close>. When every option is written out, at most once and in any order,
  and followed by a value that does not start with a dash, each of the five commands runs exactly
  what its usage says: with the values given, with a validity of 3650 days for a root and of 90 days
  for a gateway certificate and with ML-DSA keys where nothing is given. If a required option is
  missing, a number of days is not a number or a key type is not one of the two choices, the program
  exits with status 2 and runs nothing. The options of \<open>revoke\<close> are all required, and its key type
  is free.
\<close>

theorem command_line_understood:
  assumes "(cmd, names) \<in> set command_options" and "distinct (map fst ps)"
    and "\<forall>(n, v) \<in> set ps. n \<in> set names \<and> (v = [] \<or> hd v \<noteq> CHR ''-'')"
  shows "cli_main L y r (cmd # spelled ps) fs =
    (case usage L y r cmd (map_of ps) fs of None \<Rightarrow> Inl (SystemExit ''2'') | Some res \<Rightarrow> cli_run res)"
proof -
  from assms(1) obtain specs where s: "(cmd, specs) \<in> set subparsers" "names = map opt_name specs"
    unfolding usage_table [symmetric] by auto
  have "list_all (\<lambda>(n, v). n \<in> opt_name ` set specs \<and> plain_value v) ps"
    using assms(3) s(2) by (auto simp: list_all_iff plain_value_def)
  from parse_args_once [OF s(1) assms(2) this] obtain ns where
    p: "parse_args (cmd # spelled ps) =
      (if \<exists>sp \<in> set specs. option_bad sp (map_of ps (opt_name sp)) then Inl (SystemExit ''2'') else Inr (cmd, ns))"
    and v: "\<forall>sp \<in> set specs. \<not> option_bad sp (map_of ps (opt_name sp)) \<longrightarrow>
        ns (opt_name sp) = Some (option_result sp (map_of ps (opt_name sp)))" by blast
  have m: "cli_main L y r (cmd # spelled ps) fs =
      (if \<exists>sp \<in> set specs. option_bad sp (map_of ps (opt_name sp)) then Inl (SystemExit ''2'')
       else cli_run (run_command L y r cmd ns fs))"
    by (simp add: cli_main_def p)
  show ?thesis
    using s(1) v unfolding m subparsers_def list.set insert_iff empty_iff prod.inject
    by (elim disjE conjE FalseE)
      (simp_all add: usage_def run_command_def str_arg_def int_arg_def option.case_eq_if del: not_None_eq)
qed

theorem command_line_understood_witness:
  "cli_main demo_crypto json_yaml \<lparr>dr_entropy = demo_entropy, dr_now = ''n'', dr_expiry = ''e''\<rparr>
     [''issue-signing-key'', ''--agency-id'', ''RAW''] fs_empty = Inl (SystemExit ''2'')
   \<and> cli_main demo_crypto json_yaml \<lparr>dr_entropy = demo_entropy, dr_now = ''n'', dr_expiry = ''e''\<rparr>
     [''issue-signing-key'', ''--out-dir'', ''d'', ''--agency-id'', ''RAW''] fs_empty
     = cli_run (cmd_issue_signing_key demo_crypto demo_entropy ''RAW'' ''d'' ''mldsa'' fs_empty)"
proof -
  let ?r = "\<lparr>dr_entropy = demo_entropy, dr_now = ''n'', dr_expiry = ''e''\<rparr>"
  have m: "(''issue-signing-key'', [''--agency-id'', ''--out-dir'', ''--key-type'']) \<in> set command_options"
    by (simp add: command_options_def)
  show ?thesis
    using command_line_understood [OF m, of "[(''--agency-id'', ''RAW'')]" demo_crypto json_yaml ?r fs_empty]
      command_line_understood [OF m, of "[(''--out-dir'', ''d''), (''--agency-id'', ''RAW'')]" demo_crypto json_yaml ?r fs_empty]
    by (simp add: usage_def key_value_def)
qed

end
