(* ===== verification/Py_Json_Indent.thy ===== *)
theory Py_Json_Indent
  imports Py_Json_Roundtrip
begin

text \<open>
  \<open>json.dump(v, f, indent=2)\<close>, as the scripts write their evidence files: one element per line,
  indented by two blanks per level. What is printed is read back unchanged by \<open>json.load\<close>, the
  numbers with a fraction included.
\<close>

section \<open>Printing\<close>

definition json_nl :: "nat \<Rightarrow> string" where
  "json_nl l = CHR 0x0A # replicate (2 * l) (CHR '' '')"

fun indent_dumps :: "nat \<Rightarrow> pyval \<Rightarrow> string"
  and indent_elems :: "nat \<Rightarrow> pyval list \<Rightarrow> string"
  and indent_members :: "nat \<Rightarrow> (string \<times> pyval) list \<Rightarrow> string" where
  "indent_dumps l VNone = ''null''"
| "indent_dumps l (VBool b) = (if b then ''true'' else ''false'')"
| "indent_dumps l (VInt i) = show_int i"
| "indent_dumps l (VFloat s) = s"
| "indent_dumps l (VStr s) = json_str s"
| "indent_dumps l (VList xs) =
     (if xs = [] then ''[]''
      else ''['' @ json_nl (Suc l) @ indent_elems (Suc l) xs @ json_nl l @ '']'')"
| "indent_dumps l (VDict d) =
     (if d = [] then ''{}''
      else ''{'' @ json_nl (Suc l) @ indent_members (Suc l) d @ json_nl l @ ''}'')"
| "indent_elems l [] = []"
| "indent_elems l (x # xs) =
     indent_dumps l x @ (if xs = [] then [] else '','' @ json_nl l @ indent_elems l xs)"
| "indent_members l [] = []"
| "indent_members l ((k, x) # d) =
     json_str k @ '': '' @ indent_dumps l x @ (if d = [] then [] else '','' @ json_nl l @ indent_members l d)"

definition json_dump_indent :: "pyval \<Rightarrow> string" where
  "json_dump_indent v = indent_dumps 0 v"

section \<open>Reading back\<close>

text \<open>A literal that the reader takes for a number with a fraction or an exponent.\<close>

definition float_lit :: "string \<Rightarrow> bool" where
  "float_lit s = (s \<noteq> [] \<and> printable (hd s) \<and> \<not> is_ws (hd s) \<and> hd s \<noteq> CHR '']'' \<and> hd s \<noteq> CHR ''}''
     \<and> (\<forall>n r. num_stop r \<longrightarrow> parse_val (Suc n) (s @ r) = JOk (VFloat s) r))"

fun indent_ok :: "pyval \<Rightarrow> bool" where
  "indent_ok VNone = True"
| "indent_ok (VBool b) = True"
| "indent_ok (VInt i) = (length (show_nat (nat \<bar>i\<bar>)) \<le> 4300)"
| "indent_ok (VFloat s) = float_lit s"
| "indent_ok (VStr s) = valid_text s"
| "indent_ok (VList xs) = (\<forall>x \<in> set xs. indent_ok x)"
| "indent_ok (VDict d) = (distinct (map fst d) \<and> (\<forall>kv \<in> set d. valid_text (fst kv) \<and> indent_ok (snd kv)))"

lemma skip_ws_nl [simp]: "skip_ws (json_nl l @ r) = skip_ws r"
proof -
  have "skip_ws (replicate n (CHR '' '') @ r) = skip_ws r" for n by (induction n) simp_all
  then show ?thesis by (simp add: json_nl_def) (simp add: skip_ws_def is_ws_def)
qed

lemma num_stop_nl [simp]: "num_stop (json_nl l @ r)"
  by (simp add: json_nl_def num_stop_def is_digit_def)

lemma indent_hd:
  assumes "indent_ok v"
  shows "\<exists>c t. indent_dumps l v = c # t \<and> printable c \<and> \<not> is_ws c \<and> c \<notin> set '']}''"
proof (cases v)
  case (VInt i)
  obtain c t where s: "show_int i = c # t" and "c = CHR ''-'' \<or> is_digit c" by (rule show_int_Cons)
  then have "printable c \<and> \<not> is_ws c \<and> c \<notin> set '']}''" by (auto simp: is_ws_def is_digit_def printable_def)
  with VInt s show ?thesis by simp
next
  case (VFloat s)
  with assms show ?thesis by (cases s) (auto simp: float_lit_def)
next
  case (VStr s)
  then show ?thesis by (simp add: json_str_def is_ws_def printable_def)
qed (auto simp: is_ws_def printable_def)

lemma skip_ws_indent [simp]:
  "indent_ok v \<Longrightarrow> skip_ws (indent_dumps l v @ r) = indent_dumps l v @ r"
  using indent_hd [of v l] by (auto simp: skip_ws_def)

lemma skip_ws_elems [simp]:
  "xs \<noteq> [] \<Longrightarrow> indent_ok (hd xs) \<Longrightarrow> skip_ws (indent_elems l xs @ r) = indent_elems l xs @ r"
  by (cases xs) simp_all

lemma skip_ws_members [simp]:
  "d \<noteq> [] \<Longrightarrow> skip_ws (indent_members l d @ r) = indent_members l d @ r"
  by (cases d) (auto simp: skip_ws_json_str)

lemma no_bracket:
  "xs \<noteq> [] \<Longrightarrow> indent_ok (hd xs) \<Longrightarrow> \<not> prefix '']'' (indent_elems l xs @ r)"
  "d \<noteq> [] \<Longrightarrow> \<not> prefix ''}'' (indent_members l d @ r)"
  using indent_hd [of "hd xs" l] by (cases xs, auto) (cases d, auto simp: json_str_def)

lemma length_indent_pos: "indent_ok v \<Longrightarrow> 0 < length (indent_dumps l v)"
  using indent_hd [of v l] by auto

lemma parse_elem_indent:
  assumes "parse_val n (indent_dumps l x @ r') = JOk x r'"
    and "r' = (if xs = [] then [] else '','' @ json_nl l @ indent_elems l xs) @ json_nl m @ CHR '']'' # r"
    and "xs \<noteq> [] \<Longrightarrow> indent_ok (hd xs) \<and> parse_elems n (indent_elems l xs @ json_nl m @ CHR '']'' # r) = JOk xs r"
  shows "parse_elems (Suc n) (indent_dumps l x @ r') = JOk (x # xs) r"
  using assms by (cases "xs = []") (simp_all add: parse_elems.simps(2))

lemma parse_member_indent:
  assumes "parse_val n (indent_dumps l x @ r') = JOk x r'" "indent_ok x" "valid_text k"
    and "r' = (if d = [] then [] else '','' @ json_nl l @ indent_members l d) @ json_nl m @ CHR ''}'' # r"
    and "d \<noteq> [] \<Longrightarrow> parse_members n (indent_members l d @ json_nl m @ CHR ''}'' # r) = JOk d r"
  shows "parse_members (Suc n) (json_str k @ '': '' @ indent_dumps l x @ r') = JOk ((k, x) # d) r"
proof -
  have k: "prefix [quote] (json_str k @ s)" "tl (json_str k @ s) = tl (json_str k) @ s" for s
    by (simp_all add: json_str_def)
  have c: "skip_ws (tl (skip_ws ('': '' @ indent_dumps l x @ r'))) = indent_dumps l x @ r'"
    using assms(2) by simp
  with assms k show ?thesis by (cases "d = []") (simp_all add: parse_members.simps(2) scan_json_str)
qed

lemma parse_indent:
  "indent_ok v \<Longrightarrow> num_stop r \<Longrightarrow> 2 * length (indent_dumps l v) \<le> n \<Longrightarrow>
    parse_val n (indent_dumps l v @ r) = JOk v r"
  "xs \<noteq> [] \<Longrightarrow> \<forall>x \<in> set xs. indent_ok x \<Longrightarrow> 2 * length (indent_elems l xs) + 1 \<le> n \<Longrightarrow>
    parse_elems n (indent_elems l xs @ json_nl m @ CHR '']'' # r) = JOk xs r"
  "d \<noteq> [] \<Longrightarrow> \<forall>kv \<in> set d. valid_text (fst kv) \<and> indent_ok (snd kv) \<Longrightarrow>
    2 * length (indent_members l d) + 1 \<le> n \<Longrightarrow>
    parse_members n (indent_members l d @ json_nl m @ CHR ''}'' # r) = JOk d r"
proof (induction l v and l xs and l d arbitrary: n r and n m r and n m r
    rule: indent_dumps_indent_elems_indent_members.induct)
  case (1 l)
  then obtain m where "n = Suc m" by (cases n) auto
  then show ?case using parse_lit by simp
next
  case (2 l b)
  then obtain m where "n = Suc m" by (cases n) (auto split: if_splits)
  then show ?case using parse_lit by simp
next
  case (3 l i)
  moreover obtain m where "n = Suc m" using 3 length_indent_pos [of "VInt i" l] by (cases n) auto
  ultimately show ?case using parse_int [of r i m] by simp
next
  case (4 l s)
  then obtain m where "n = Suc m" using length_indent_pos [of "VFloat s" l] by (cases n) auto
  with 4 show ?case by (simp add: float_lit_def)
next
  case (5 l s)
  then obtain m where "n = Suc m" by (cases n) (auto simp: json_str_def)
  with 5 show ?case using scan_json_str [of s r] by (simp add: parse_val.simps(2) json_str_def)
next
  case (6 l xs)
  then obtain m where n: "n = Suc m" by (cases n) (auto split: if_splits)
  show ?case
  proof (cases "xs = []")
    case False
    with "6.prems" n have "parse_elems m (indent_elems (Suc l) xs @ json_nl l @ CHR '']'' # r) = JOk xs r"
      by (intro "6.IH") auto
    with False "6.prems" n show ?thesis by (simp add: parse_val.simps(2) no_bracket)
  qed (use n in \<open>simp add: parse_val.simps(2)\<close>)
next
  case (7 l d)
  then obtain m where n: "n = Suc m" by (cases n) (auto split: if_splits)
  show ?case
  proof (cases "d = []")
    case False
    with "7.prems" n have "parse_members m (indent_members (Suc l) d @ json_nl l @ CHR ''}'' # r) = JOk d r"
      by (intro "7.IH") auto
    with False "7.prems" n show ?thesis by (simp add: parse_val.simps(2) no_bracket dict_of_distinct)
  qed (use n in \<open>simp add: parse_val.simps(2)\<close>)
next
  case (9 l x xs)
  then obtain k where n: "n = Suc k" by (cases n) auto
  let ?r = "(if xs = [] then [] else '','' @ json_nl l @ indent_elems l xs) @ json_nl m @ CHR '']'' # r"
  have "num_stop ?r" by simp
  then have "parse_val k (indent_dumps l x @ ?r) = JOk x ?r"
    using "9.IH"(1) [of ?r k] "9.prems" n by simp
  moreover have "indent_ok (hd xs) \<and> parse_elems k (indent_elems l xs @ json_nl m @ CHR '']'' # r) = JOk xs r"
    if "xs \<noteq> []" using "9.IH"(2) [of k m r] "9.prems" n that by simp
  ultimately show ?case using parse_elem_indent [of k l x ?r xs m r] n by simp
next
  case (11 l k x d)
  then obtain j where n: "n = Suc j" by (cases n) auto
  let ?r = "(if d = [] then [] else '','' @ json_nl l @ indent_members l d) @ json_nl m @ CHR ''}'' # r"
  have "num_stop ?r" by simp
  then have "parse_val j (indent_dumps l x @ ?r) = JOk x ?r"
    using "11.IH"(1) [of ?r j] "11.prems" n by simp
  moreover have "parse_members j (indent_members l d @ json_nl m @ CHR ''}'' # r) = JOk d r" if "d \<noteq> []"
    using "11.IH"(2) [of j m r] "11.prems" n that by simp
  ultimately show ?case using parse_member_indent [of j l x ?r k d m r] "11.prems" n by simp
qed simp_all

text \<open>\<open>json.load(json.dump(v, indent=2)) = v\<close>.\<close>

lemma json_loads_indent:
  assumes "indent_ok v"
  shows "json_loads (json_dump_indent v) = Inr v"
proof -
  obtain c t where c: "indent_dumps 0 v = c # t" "printable c" using indent_hd [OF assms, of 0] by blast
  have p: "parse_val (2 * length (indent_dumps 0 v) + 2) (skip_ws (indent_dumps 0 v)) = JOk v []"
    using parse_indent(1) [OF assms, of "[]" 0] skip_ws_indent [OF assms, of 0 "[]"] by simp
  obtain a l where b: "utf8_bom = a # l" "of_char a = (239::nat)"
    by (simp add: utf8_bom_def text_of_cps_def of_octets_def)
  with c have "\<not> prefix utf8_bom (indent_dumps 0 v)"
    unfolding b(1) c(1) by (auto simp: printable_def)
  with p show ?thesis by (simp add: json_loads_def json_loads_fuel_def json_dump_indent_def)
qed

end
