(* ===== verification/Pki_Bootstrap.thy ===== *)
theory Pki_Bootstrap
  imports Qstie_Cli Gateway_B_Trust Py_Json_Indent
begin

text \<open>
  The script \<open>scripts/bootstrap_pki.py\<close>: it runs \<open>qstie-ca\<close> to create both key hierarchies (ML-DSA
  and ECDSA) with their trust bundles, revokes a certificate, runs the test suite and writes its
  evidence files. The script and the commands it runs share the file system; an exception leaves
  what was written before it.

  The commands are the \<open>cli_main\<close> of \<open>Qstie_Cli\<close>. The test suite is a parameter: its exit status
  and what it does to the files. So are two renderings of the \<open>cryptography\<close> library: names as
  text and the signature algorithm of a certificate.
\<close>

section \<open>Computations on the file system\<close>

type_synonym 'a io = "fsys \<Rightarrow> 'a result \<times> fsys"

definition io_bind :: "'a io \<Rightarrow> ('a \<Rightarrow> 'b io) \<Rightarrow> 'b io" where
  "io_bind m k fs = (case m fs of (Inl e, fs1) \<Rightarrow> (Inl e, fs1) | (Inr x, fs1) \<Rightarrow> k x fs1)"

definition io_read :: "(fsys \<Rightarrow> 'a result) \<Rightarrow> 'a io" where
  "io_read f fs = (f fs, fs)"

definition io_change :: "(fsys \<Rightarrow> fsys) \<Rightarrow> unit io" where
  "io_change f fs = (Inr (), f fs)"

fun io_each :: "('a \<Rightarrow> unit io) \<Rightarrow> 'a list \<Rightarrow> unit io" where
  "io_each f [] fs = (Inr (), fs)"
| "io_each f (x # xs) fs = io_bind (f x) (\<lambda>_. io_each f xs) fs"

section \<open>Dates and modes\<close>

text \<open>The day number as year, month and day; \<open>isoformat()\<close> of a UTC time in whole seconds.\<close>

definition civil :: "int \<Rightarrow> int \<times> int \<times> int" where
  "civil d =
     (let z = d + 719468; era = z div 146097; doe = z mod 146097;
          yoe = (doe - doe div 1460 + doe div 36524 - doe div 146096) div 365;
          doy = doe - (365 * yoe + yoe div 4 - yoe div 100);
          mp = (5 * doy + 2) div 153;
          m = (if mp < 10 then mp + 3 else mp - 9)
      in (yoe + era * 400 + (if m \<le> 2 then 1 else 0), m, doy - (153 * mp + 2) div 5 + 1))"

definition pad :: "nat \<Rightarrow> int \<Rightarrow> string" where
  "pad k n = replicate (k - length (show_int n)) (CHR ''0'') @ show_int n"

definition isoformat :: "int \<Rightarrow> string" where
  "isoformat t =
     (let (y, m, d) = civil (t div 86400); s = t mod 86400
      in pad 4 y @ ''-'' @ pad 2 m @ ''-'' @ pad 2 d @ ''T'' @ pad 2 (s div 3600) @ '':''
         @ pad 2 (s div 60 mod 60) @ '':'' @ pad 2 (s mod 60) @ ''+00:00'')"

text \<open>\<open>oct(n)\<close>.\<close>

fun oct_digits :: "nat \<Rightarrow> string" where
  "oct_digits n = (if n < 8 then [] else oct_digits (n div 8)) @ [digit_char (n mod 8)]"

declare oct_digits.simps [simp del]

definition oct :: "nat \<Rightarrow> string" where
  "oct n = ''0o'' @ oct_digits n"

section \<open>The script\<close>

record boot_lib =
  b_crypto :: crypto_lib
  b_yaml :: yaml_lib
  rfc4514_string :: "name_attr list \<Rightarrow> string"
  signature_oid :: "certificate \<Rightarrow> string"
  pytest :: "fsys \<Rightarrow> int \<times> fsys"

text \<open>What a run is given: arguments, environment, versions, the clock and what each command draws.\<close>

record boot_run =
  br_argv :: "string list"
  br_environ :: environ
  br_python :: string
  br_openssl :: string
  br_start :: string
  br_duration :: string
  br_draw :: "nat \<Rightarrow> cli_draw"

abbreviation "pki_dir \<equiv> ''pki''"
abbreviation "ev_dir \<equiv> ''results/phase2/evidence''"

text \<open>\<open>run_cmd\<close>: a command that exits with an error ends the script.\<close>

definition run_cmd :: "boot_lib \<Rightarrow> cli_draw \<Rightarrow> string list \<Rightarrow> unit io" where
  "run_cmd B r argv fs =
     (let res = cli_main (b_crypto B) (b_yaml B) r argv fs;
          fs1 = (case res of Inr fs1 \<Rightarrow> fs1 | Inl _ \<Rightarrow> fs)
      in if exit_status res \<noteq> 0 then (Inl (SystemExit ''1''), fs1) else (Inr (), fs1))"

definition write_evidence :: "string \<Rightarrow> pyval \<Rightarrow> unit io" where
  "write_evidence path v = io_change (write_file path (json_dump_indent v))"

text \<open>The commands that create one hierarchy: root, certificates, signing keys, trust bundle.\<close>

definition hierarchy :: "string \<Rightarrow> string \<Rightarrow> string \<Rightarrow> string list list" where
  "hierarchy ca key_type out =
     [[''init-root'', ''--out-dir'', ''pki/'' @ ca, ''--validity-days'', ''3650'', ''--key-type'', key_type],
      [''issue-gateway-cert'', ''--agency-id'', ''RAW'', ''--ca-dir'', ''pki/'' @ ca, ''--san'', ''gateway-a.internal'',
       ''--out-dir'', ''pki/gateway_raw'', ''--key-type'', key_type],
      [''issue-gateway-cert'', ''--agency-id'', ''NIA'', ''--ca-dir'', ''pki/'' @ ca, ''--san'', ''gateway-b.internal'',
       ''--out-dir'', ''pki/gateway_nia'', ''--key-type'', key_type],
      [''issue-signing-key'', ''--agency-id'', ''RAW'', ''--out-dir'', ''pki/gateway_raw'', ''--key-type'', key_type],
      [''issue-signing-key'', ''--agency-id'', ''NIA'', ''--out-dir'', ''pki/gateway_nia'', ''--key-type'', key_type],
      [''export-trust-bundle'', ''--agencies'', ''RAW,NIA'', ''--pki-root'', pki_dir, ''--out'', out,
       ''--key-type'', key_type]]"

definition generation :: "string list list" where
  "generation = hierarchy ''ca'' ''mldsa'' ''pki/trust_store.yaml''
     @ hierarchy ''ca_ecdsa'' ''ecdsa'' ''pki/trust_store_classical.yaml''"

definition generate_pki :: "boot_lib \<Rightarrow> boot_run \<Rightarrow> unit io" where
  "generate_pki B R fs =
     (if \<not> path_exists ''pki/trust_store.yaml'' fs
      then io_each (\<lambda>(i, argv). run_cmd B (br_draw R i) argv) (enumerate 0 generation) fs
      else (Inr (), fs))"

definition fingerprint_of :: "boot_lib \<Rightarrow> string \<Rightarrow> string io" where
  "fingerprint_of B path =
     io_read (\<lambda>fs. rbind (load_cert (b_crypto B) path fs) (get_cert_fingerprint (b_crypto B)))"

definition revoke_raw :: "boot_lib \<Rightarrow> boot_run \<Rightarrow> string io" where
  "revoke_raw B R =
     io_bind (fingerprint_of B ''pki/gateway_raw/raw_gateway.crt'') (\<lambda>fp_raw.
     io_bind (run_cmd B (br_draw R 12)
       [''revoke'', ''--agency-id'', ''RAW'', ''--key-type'', ''tls_cert'', ''--reason'', ''suspected key compromise'',
        ''--out'', ''pki/revocation_list.yaml'', ''--fingerprint'', fp_raw]) (\<lambda>_ fs. (Inr fp_raw, fs)))"

definition run_tests :: "boot_lib \<Rightarrow> int io" where
  "run_tests B fs = (let (rc, fs1) = pytest B fs in (Inr rc, fs1))"

section \<open>Evidence\<close>

definition cert_meta :: "boot_lib \<Rightarrow> string \<times> string \<Rightarrow> fsys \<Rightarrow> pyval result" where
  "cert_meta B = (\<lambda>(tag, c_path) fs.
     rbind (load_cert (b_crypto B) c_path fs) (\<lambda>c.
     rbind (if tag = ''root'' then Inr []
            else case subject_alt_name (tbs c) of None \<Rightarrow> Inl LibraryError | Some n \<Rightarrow> Inr [VStr n]) (\<lambda>san.
     rbind (get_cert_fingerprint (b_crypto B) c) (\<lambda>fp.
       Inr (VDict
         [(''agency_id'', VStr tag),
          (''key_type'', VStr (if tag = ''root'' then ''root'' else ''tls_cert'')),
          (''subject'', VStr (rfc4514_string B (subject (tbs c)))),
          (''issuer'', VStr (rfc4514_string B (issuer (tbs c)))),
          (''SAN'', VList san),
          (''serial_number'', VStr (show_int (serial_number (tbs c)))),
          (''signature_algorithm'', VStr (signature_oid B c)),
          (''public_key_algorithm'', VStr ''ML-DSA-65''),
          (''valid_from'', VStr (isoformat (not_valid_before (tbs c)))),
          (''valid_until'', VStr (isoformat (not_valid_after (tbs c)))),
          (''certificate_fingerprint'', VStr fp),
          (''validation_result'', VStr ''PASS'')])))))"

definition key_separation :: "boot_lib \<Rightarrow> string \<times> string \<Rightarrow> fsys \<Rightarrow> pyval result" where
  "key_separation B = (\<lambda>(gw_tag, gw_prefix) fs.
     rbind (load_cert (b_crypto B) (''pki/gateway_'' @ gw_prefix @ ''/'' @ gw_prefix @ ''_gateway.crt'') fs) (\<lambda>tls_cert.
     rbind (load_public_key_file (b_crypto B) (''pki/gateway_'' @ gw_prefix @ ''/'' @ gw_prefix @ ''_ml_dsa65.pub'') fs)
       (\<lambda>payload_pub.
     rbind (get_pubkey_fingerprint (b_crypto B) (cert_public_key (tbs tls_cert))) (\<lambda>fp_tls.
     rbind (get_pubkey_fingerprint (b_crypto B) payload_pub) (\<lambda>fp_payload.
       Inr (VDict
         [(''agency'', VStr gw_tag),
          (''tls_public_key_fingerprint'', VStr fp_tls),
          (''payload_signing_public_key_fingerprint'', VStr fp_payload),
          (''comparison_result'', VStr (if fp_tls \<noteq> fp_payload then ''different = PASS'' else ''same = FAIL''))]))))))"

definition revocation_evidence :: "string \<Rightarrow> string \<Rightarrow> RevocationList \<Rightarrow> pyval" where
  "revocation_evidence fp_raw fp_nia rl =
     (let revoked_fps = map rev_fingerprint (rl_entries rl)
      in VList
        [VDict [(''fingerprint'', VStr fp_raw), (''agency'', VStr ''RAW''), (''key_type'', VStr ''tls_cert''),
           (''reason'', VStr ''suspected key compromise''), (''revoked_at'', VStr ''unknown''),
           (''lookup_result'', VBool (VStr fp_raw \<in> set revoked_fps))],
         VDict [(''fingerprint'', VStr fp_nia), (''agency'', VStr ''NIA''), (''key_type'', VStr ''tls_cert''),
           (''reason'', VStr ''N/A''), (''revoked_at'', VStr ''N/A''),
           (''lookup_result'', VBool (VStr fp_nia \<in> set revoked_fps))]])"

definition private_key_paths :: "string list" where
  "private_key_paths = [''pki/ca/root_ca.key'', ''pki/gateway_raw/raw_gateway.key'', ''pki/gateway_raw/raw_ml_dsa65.pem'',
     ''pki/gateway_nia/nia_gateway.key'', ''pki/gateway_nia/nia_ml_dsa65.pem'']"

definition file_permission :: "fsys \<Rightarrow> string \<Rightarrow> pyval" where
  "file_permission fs p =
     (let mode = oct ((case modes fs p of None \<Rightarrow> 0x1A4 | Some m \<Rightarrow> m) mod 512)
      in VDict [(''path'', VStr p), (''expected_mode'', VStr ''0o600''), (''actual_mode'', VStr mode),
           (''result'', VStr (if mode = ''0o600'' then ''PASS'' else ''FAIL''))])"

definition file_perms :: "fsys \<Rightarrow> pyval" where
  "file_perms fs = VList (map (file_permission fs) (filter (\<lambda>p. path_exists p fs) private_key_paths))"

definition run_entry :: "boot_run \<Rightarrow> int \<Rightarrow> pyval" where
  "run_entry R rc = VDict
     [(''run_id'', VStr (case br_argv R of [] \<Rightarrow> ''run-1'' | a # _ \<Rightarrow> a)),
      (''timestamp'', VStr (br_start R)),
      (''git_commit'', VStr (getenv (br_environ R) ''GIT_COMMIT'' ''NOT AVAILABLE'')),
      (''python_version'', VStr (br_python R)),
      (''openssl_version'', VStr (br_openssl R)),
      (''docker_image'', VStr (getenv (br_environ R) ''DOCKER_IMAGE_INFO'' ''NOT AVAILABLE'')),
      (''exit_status'', VInt rc),
      (''runtime_duration'', VFloat (br_duration R)),
      (''validation_result'', VStr (if rc = 0 then ''PASS'' else ''FAIL''))]"

definition runs_file :: string where
  "runs_file = ev_dir @ ''/bootstrap_runs.json''"

definition record_run :: "boot_run \<Rightarrow> int \<Rightarrow> unit io" where
  "record_run R rc =
     io_bind (io_read (\<lambda>fs. if path_exists runs_file fs then rbind (read_file runs_file fs) json_loads
                            else Inr (VList []))) (\<lambda>runs.
     case runs of
       VList rs \<Rightarrow> write_evidence runs_file (VList (rs @ [run_entry R rc]))
     | _ \<Rightarrow> io_read (\<lambda>_. Inl AttributeError))"

definition certificates :: "(string \<times> string) list" where
  "certificates = [(''root'', ''pki/ca/root_ca.crt''), (''RAW'', ''pki/gateway_raw/raw_gateway.crt''),
     (''NIA'', ''pki/gateway_nia/nia_gateway.crt'')]"

definition collect_evidence :: "boot_lib \<Rightarrow> string \<Rightarrow> unit io" where
  "collect_evidence B fp_raw =
     io_bind (io_read (rl_load (b_yaml B) ''pki/revocation_list.yaml'')) (\<lambda>rl.
     io_bind (fingerprint_of B ''pki/gateway_nia/nia_gateway.crt'') (\<lambda>fp_nia.
     io_bind (io_read (\<lambda>fs. rmap (\<lambda>c. cert_meta B c fs) certificates)) (\<lambda>metas.
     io_bind (write_evidence (ev_dir @ ''/certificate_metadata.json'') (VList metas)) (\<lambda>_.
     io_bind (io_read (\<lambda>fs. rmap (\<lambda>g. key_separation B g fs) [(''RAW'', ''raw''), (''NIA'', ''nia'')])) (\<lambda>key_sep.
     io_bind (write_evidence (ev_dir @ ''/key_separation.json'') (VList key_sep)) (\<lambda>_.
     io_bind (write_evidence (ev_dir @ ''/revocation_validation.json'') (revocation_evidence fp_raw fp_nia rl)) (\<lambda>_ fs.
       write_evidence (ev_dir @ ''/file_permissions.json'') (file_perms fs) fs)))))))"

text \<open>\<open>main\<close>.\<close>

definition bootstrap_main :: "boot_lib \<Rightarrow> boot_run \<Rightarrow> unit io" where
  "bootstrap_main B R =
     io_bind (generate_pki B R) (\<lambda>_.
     io_bind (revoke_raw B R) (\<lambda>fp_raw.
     io_bind (run_tests B) (\<lambda>rc.
     io_bind (collect_evidence B fp_raw) (\<lambda>_.
     io_bind (record_run R rc) (\<lambda>_.
       io_read (\<lambda>_. if rc \<noteq> 0 then Inl (SystemExit (show_int rc)) else Inr ()))))))"

section \<open>Lemmas\<close>

lemma io_bind_Inr: "m fs = (Inr x, fs1) \<Longrightarrow> io_bind m k fs = k x fs1"
  by (simp add: io_bind_def)

lemma path_join_plain:
  "a \<noteq> [] \<Longrightarrow> last a \<noteq> CHR ''/'' \<Longrightarrow> b \<noteq> [] \<Longrightarrow> hd b \<noteq> CHR ''/'' \<Longrightarrow> path_join a b = a @ ''/'' @ b"
  by (cases b) (auto simp: path_join_def suffix_def)

subsection \<open>The commands\<close>

lemma run_cmd_ok:
  assumes "parse_args argv = Inr (cmd, ns)" "run_command (b_crypto B) (b_yaml B) r cmd ns fs = Inr fs1"
  shows "run_cmd B r argv fs = (Inr (), fs1)"
  using assms by (simp add: run_cmd_def cli_main_def cli_run_def exit_status_def)

lemmas option_tables = required_arg_def days_arg_def key_type_arg_def

definition key_types :: "string set" where
  "key_types = {''mldsa'', ''ecdsa''}"

abbreviation draws_ok :: "cli_draw \<Rightarrow> bool" where
  "draws_ok r \<equiv> draw_ok (dr_entropy r) 3650"

lemma draws_ok_90: "draws_ok r \<Longrightarrow> draw_ok (dr_entropy r) 90"
  by (simp add: draw_ok_def days_def)

lemma run_init:
  assumes "builder_accepts (b_crypto B)" "keygen_law (b_crypto B)" "draws_ok r" "kt \<in> key_types" "plain_value dir"
  shows "\<exists>c k. run_cmd B r [''init-root'', ''--out-dir'', dir, ''--validity-days'', ''3650'', ''--key-type'', kt] fs
    = (Inr (), save_private_key (b_crypto B) k (path_join dir ''root_ca.key'')
        (save_cert (b_crypto B) c (path_join dir ''root_ca.crt'') fs))"
proof -
  let ?specs = "[required_arg ''--out-dir'', days_arg 3650, key_type_arg]"
  let ?ps = "[(''--out-dir'', dir), (''--validity-days'', ''3650''), (''--key-type'', kt)]"
  let ?L = "b_crypto B"
  have m: "(''init-root'', ?specs) \<in> set subparsers" by (simp add: subparsers_def)
  have i: "py_int ''3650'' = Inr 3650" by code_simp
  have "parse_args (''init-root'' # spelled ?ps) = Inr (''init-root'', defaults ?specs ++ given ?specs ?ps)"
    by (subst parse_args_spelled [OF m])
      (use assms in \<open>auto simp: option_tables arg_value_def plain_value_def key_types_def i\<close>)
  then have p: "parse_args [''init-root'', ''--out-dir'', dir, ''--validity-days'', ''3650'', ''--key-type'', kt]
      = Inr (''init-root'', defaults ?specs ++ given ?specs ?ps)" by simp
  obtain ca where "init_root ?L (dr_entropy r) 3650 kt = Inr ca"
    using init_root_total [OF assms(1-3)] assms(4) by (auto simp: key_types_def)
  then have "run_command ?L (b_yaml B) r ''init-root'' (defaults ?specs ++ given ?specs ?ps) fs
      = Inr (save_private_key ?L (ca_private_key ca) (path_join dir ''root_ca.key'')
          (save_cert ?L (ca_cert ca) (path_join dir ''root_ca.crt'') fs))"
    using assms(4)
    by (auto simp: run_command_def str_arg_def int_arg_def given_def defaults_def option_tables arg_value_def
        key_types_def i cmd_init_root_def)
  from run_cmd_ok [OF p this] show ?thesis by blast
qed

lemma run_cert:
  assumes "builder_accepts (b_crypto B)" "pem_laws (b_crypto B)" "builder_law (b_crypto B)" "kt \<in> key_types"
    and "plain_value dir" "plain_value ag" "plain_value out" "plain_value san" "san \<noteq> []"
    and "files fs (path_join dir ''root_ca.crt'') = Some (pem_cert (b_crypto B) c0)"
    and "files fs (path_join dir ''root_ca.key'') = Some (pem_private (b_crypto B) k0)"
    and "draws_ok r" "ag \<noteq> []" "length ag \<le> 40" "ascii san"
  shows "\<exists>c k. subject_alt_name (tbs c) = Some san
    \<and> run_cmd B r [''issue-gateway-cert'', ''--agency-id'', ag, ''--ca-dir'', dir, ''--san'', san, ''--out-dir'', out,
        ''--key-type'', kt] fs
      = (Inr (), save_private_key (b_crypto B) k
          (path_join out (str_lower ag @ ''_gateway'' @ (if kt = ''ecdsa'' then ''_ecdsa'' else []) @ ''.key''))
          (save_cert (b_crypto B) c
            (path_join out (str_lower ag @ ''_gateway'' @ (if kt = ''ecdsa'' then ''_ecdsa'' else []) @ ''.crt'')) fs))"
proof -
  let ?specs = "[required_arg ''--agency-id'', required_arg ''--ca-dir'', required_arg ''--san'', days_arg 90,
    required_arg ''--out-dir'', key_type_arg]"
  let ?ps = "[(''--agency-id'', ag), (''--ca-dir'', dir), (''--san'', san), (''--out-dir'', out), (''--key-type'', kt)]"
  let ?L = "b_crypto B" and ?ca = "\<lparr>ca_cert = c0, ca_private_key = k0\<rparr>"
  have m: "(''issue-gateway-cert'', ?specs) \<in> set subparsers" by (simp add: subparsers_def)
  have "parse_args (''issue-gateway-cert'' # spelled ?ps)
      = Inr (''issue-gateway-cert'', defaults ?specs ++ given ?specs ?ps)"
    by (subst parse_args_spelled [OF m])
      (use assms in \<open>auto simp: option_tables arg_value_def plain_value_def key_types_def\<close>)
  then have p: "parse_args [''issue-gateway-cert'', ''--agency-id'', ag, ''--ca-dir'', dir, ''--san'', san, ''--out-dir'', out,
      ''--key-type'', kt] = Inr (''issue-gateway-cert'', defaults ?specs ++ given ?specs ?ps)" by simp
  obtain c k where i: "issue_leaf_cert ?L (dr_entropy r) ?ca ag san 90 kt = Inr (c, k)"
    using issue_leaf_total [OF assms(1) draws_ok_90 [OF assms(12)] _ assms(13-15)] assms(4)
    by (fastforce simp: key_types_def)
  have san: "subject_alt_name (tbs c) = Some san" using issue_leaf_fields(7) [OF assms(3) i] assms(9) by simp
  have "run_command ?L (b_yaml B) r ''issue-gateway-cert'' (defaults ?specs ++ given ?specs ?ps) fs
      = cmd_issue_gateway_cert ?L (dr_entropy r) ag dir san 90 out kt fs"
    using assms(4) by (auto simp: run_command_def str_arg_def int_arg_def given_def defaults_def option_tables
        arg_value_def key_types_def)
  also have "\<dots> = Inr (save_private_key ?L k
      (path_join out (str_lower ag @ ''_gateway'' @ (if kt = ''ecdsa'' then ''_ecdsa'' else []) @ ''.key''))
      (save_cert ?L c
        (path_join out (str_lower ag @ ''_gateway'' @ (if kt = ''ecdsa'' then ''_ecdsa'' else []) @ ''.crt'')) fs))"
    using assms(10,11) pem_lawsD [OF assms(2)] i
    by (simp add: cmd_issue_gateway_cert_def path_exists_def load_cert_def load_private_key_def read_file_def Let_def)
  finally show ?thesis using run_cmd_ok [OF p] san by blast
qed

lemma run_key:
  assumes "kt \<in> key_types" "plain_value ag" "plain_value out"
  shows "\<exists>k. run_cmd B r [''issue-signing-key'', ''--agency-id'', ag, ''--out-dir'', out, ''--key-type'', kt] fs
    = (Inr (), save_public_key (b_crypto B) (signing_pub (b_crypto B) (dr_entropy r) kt)
        (path_join out (str_lower ag @ ''_'' @ (if kt = ''ecdsa'' then ''ecdsa256'' else ''ml_dsa65'') @ ''.pub''))
        (save_private_key (b_crypto B) k
          (path_join out (str_lower ag @ ''_'' @ (if kt = ''ecdsa'' then ''ecdsa256'' else ''ml_dsa65'') @ ''.pem'')) fs))"
proof -
  let ?specs = "[required_arg ''--agency-id'', required_arg ''--out-dir'', key_type_arg]"
  let ?ps = "[(''--agency-id'', ag), (''--out-dir'', out), (''--key-type'', kt)]"
  have m: "(''issue-signing-key'', ?specs) \<in> set subparsers" by (simp add: subparsers_def)
  have "parse_args (''issue-signing-key'' # spelled ?ps)
      = Inr (''issue-signing-key'', defaults ?specs ++ given ?specs ?ps)"
    by (subst parse_args_spelled [OF m])
      (use assms in \<open>auto simp: option_tables arg_value_def plain_value_def key_types_def\<close>)
  then have p: "parse_args [''issue-signing-key'', ''--agency-id'', ag, ''--out-dir'', out, ''--key-type'', kt]
      = Inr (''issue-signing-key'', defaults ?specs ++ given ?specs ?ps)" by simp
  have c: "run_command (b_crypto B) (b_yaml B) r ''issue-signing-key'' (defaults ?specs ++ given ?specs ?ps) fs
      = cmd_issue_signing_key (b_crypto B) (dr_entropy r) ag out kt fs"
    using assms(1) by (auto simp: run_command_def str_arg_def given_def defaults_def option_tables arg_value_def
        key_types_def)
  obtain fs1 where f: "cmd_issue_signing_key (b_crypto B) (dr_entropy r) ag out kt fs = Inr fs1"
    using issue_signing_key_total by blast
  from run_cmd_ok [OF p, of B r fs fs1] c f issue_key_files [OF f] show ?thesis by auto
qed

lemma run_export:
  assumes "kt \<in> key_types" "plain_value ags" "plain_value root" "plain_value out"
    and "cmd_export_trust_bundle (b_crypto B) (b_yaml B) ags root out kt (dr_now r) (dr_expiry r) fs = Inr fs1"
  shows "run_cmd B r [''export-trust-bundle'', ''--agencies'', ags, ''--pki-root'', root, ''--out'', out,
    ''--key-type'', kt] fs = (Inr (), fs1)"
proof -
  let ?specs = "[required_arg ''--agencies'', required_arg ''--pki-root'', required_arg ''--out'', key_type_arg]"
  let ?ps = "[(''--agencies'', ags), (''--pki-root'', root), (''--out'', out), (''--key-type'', kt)]"
  have m: "(''export-trust-bundle'', ?specs) \<in> set subparsers" by (simp add: subparsers_def)
  have "parse_args (''export-trust-bundle'' # spelled ?ps)
      = Inr (''export-trust-bundle'', defaults ?specs ++ given ?specs ?ps)"
    by (subst parse_args_spelled [OF m])
      (use assms in \<open>auto simp: option_tables arg_value_def plain_value_def key_types_def\<close>)
  then have p: "parse_args [''export-trust-bundle'', ''--agencies'', ags, ''--pki-root'', root, ''--out'', out,
      ''--key-type'', kt] = Inr (''export-trust-bundle'', defaults ?specs ++ given ?specs ?ps)" by simp
  show ?thesis
    by (rule run_cmd_ok [OF p]) (use assms(1,5) in \<open>auto simp: run_command_def str_arg_def given_def defaults_def
        option_tables arg_value_def key_types_def\<close>)
qed

lemma run_revoke:
  assumes "list_all plain_value [ag, kt, reason, out, fp]"
    and "cmd_revoke (b_yaml B) ag kt reason out fp (dr_now r) fs = Inr fs1"
  shows "run_cmd B r [''revoke'', ''--agency-id'', ag, ''--key-type'', kt, ''--reason'', reason, ''--out'', out,
    ''--fingerprint'', fp] fs = (Inr (), fs1)"
proof -
  let ?specs = "map required_arg [''--agency-id'', ''--key-type'', ''--reason'', ''--out'', ''--fingerprint'']"
  let ?ps = "[(''--agency-id'', ag), (''--key-type'', kt), (''--reason'', reason), (''--out'', out), (''--fingerprint'', fp)]"
  have m: "(''revoke'', ?specs) \<in> set subparsers" by (simp add: subparsers_def)
  have "parse_args (''revoke'' # spelled ?ps) = Inr (''revoke'', defaults ?specs ++ given ?specs ?ps)"
    by (subst parse_args_spelled [OF m])
      (use assms in \<open>auto simp: option_tables arg_value_def plain_value_def\<close>)
  then have p: "parse_args [''revoke'', ''--agency-id'', ag, ''--key-type'', kt, ''--reason'', reason, ''--out'', out,
      ''--fingerprint'', fp] = Inr (''revoke'', defaults ?specs ++ given ?specs ?ps)" by simp
  show ?thesis
    by (rule run_cmd_ok [OF p]) (use assms(2) in \<open>simp add: run_command_def str_arg_def given_def defaults_def
        option_tables arg_value_def\<close>)
qed

subsection \<open>A hierarchy\<close>

definition gw_path :: "string \<Rightarrow> string \<Rightarrow> string" where
  "gw_path al x = ''pki/gateway_'' @ al @ ''/'' @ al @ x"

definition crt_sfx :: "string \<Rightarrow> string" where
  "crt_sfx kt = ''_gateway'' @ (if kt = ''ecdsa'' then ''_ecdsa'' else []) @ ''.crt''"

definition key_sfx :: "string \<Rightarrow> string" where
  "key_sfx kt = ''_gateway'' @ (if kt = ''ecdsa'' then ''_ecdsa'' else []) @ ''.key''"

definition pem_sfx :: "string \<Rightarrow> string" where
  "pem_sfx kt = ''_'' @ (if kt = ''ecdsa'' then ''ecdsa256'' else ''ml_dsa65'') @ ''.pem''"

definition pub_sfx :: "string \<Rightarrow> string" where
  "pub_sfx kt = ''_'' @ (if kt = ''ecdsa'' then ''ecdsa256'' else ''ml_dsa65'') @ ''.pub''"

lemmas path_sfxs = gw_path_def crt_sfx_def key_sfx_def pem_sfx_def pub_sfx_def

lemma lower_NIA [simp]: "str_lower ''NIA'' = ''nia''"
  by code_simp

lemma gw_joins:
  "path_join ''pki/gateway_raw'' (str_lower ''RAW'' @ x) = gw_path ''raw'' x"
  "path_join ''pki/gateway_nia'' (str_lower ''NIA'' @ x) = gw_path ''nia'' x"
  "path_join (path_join ''pki'' (''gateway_'' @ str_lower ''RAW'')) (str_lower ''RAW'' @ x) = gw_path ''raw'' x"
  "path_join (path_join ''pki'' (''gateway_'' @ str_lower ''NIA'')) (str_lower ''NIA'' @ x) = gw_path ''nia'' x"
  by (simp_all add: path_join_plain gw_path_def)

lemma modes_save [simp]:
  "modes (save_private_key L k p fs) = (modes fs)(p \<mapsto> 0x180)"
  "q \<noteq> p \<Longrightarrow> modes (save_public_key L pk p fs) q = modes fs q"
  "q \<noteq> p \<Longrightarrow> modes (save_cert L c p fs) q = modes fs q"
  "q \<noteq> p \<Longrightarrow> modes (tb_save y p tb fs) q = modes fs q"
  by (auto simp: save_private_key_def save_public_key_def save_cert_def tb_save_def Let_def write_file_def
      split: option.split)

text \<open>The entry of the trust bundle for an agency.\<close>

definition boot_entry :: "crypto_lib \<Rightarrow> string \<Rightarrow> string \<Rightarrow> certificate \<Rightarrow> public_key \<Rightarrow> cli_draw \<Rightarrow> TrustBundleEntry" where
  "boot_entry L kt ag c pk r =
     \<lparr>agency_id = ag,
      payload_signing_public_key_path = ''gateway_'' @ str_lower ag @ ''/'' @ str_lower ag
        @ (if kt = ''ecdsa'' then ''_ecdsa256.pub'' else ''_ml_dsa65.pub''),
      payload_signing_public_key_fingerprint = hex_bytes (sha256 (spki_der L pk)),
      tls_certificate_fingerprint = hex_bytes (sha256 (cert_der L c)),
      issue_timestamp = dr_now r, expiry_timestamp = dr_expiry r\<rparr>"

lemma boot_entry_plain:
  "ascii ag \<Longrightarrow> ascii (dr_now r) \<Longrightarrow> ascii (dr_expiry r) \<Longrightarrow> entry_plain (boot_entry L kt ag c pk r)"
  unfolding boot_entry_def by (rule entry_plain_exported)

text \<open>What the six commands of a hierarchy write: three certificates, two signing keys, the bundle.\<close>

definition with_certs :: "crypto_lib \<Rightarrow> string \<Rightarrow> string \<Rightarrow> certificate list \<Rightarrow> private_key list \<Rightarrow> fsys \<Rightarrow> fsys" where
  "with_certs L ca kt cs ks fs =
     (let fs1 = save_private_key L (ks ! 0) (''pki/'' @ ca @ ''/root_ca.key'')
            (save_cert L (cs ! 0) (''pki/'' @ ca @ ''/root_ca.crt'') fs);
          fs2 = save_private_key L (ks ! 1) (gw_path ''raw'' (key_sfx kt))
            (save_cert L (cs ! 1) (gw_path ''raw'' (crt_sfx kt)) fs1)
      in save_private_key L (ks ! 2) (gw_path ''nia'' (key_sfx kt))
            (save_cert L (cs ! 2) (gw_path ''nia'' (crt_sfx kt)) fs2))"

definition with_keys :: "crypto_lib \<Rightarrow> string \<Rightarrow> public_key list \<Rightarrow> private_key list \<Rightarrow> fsys \<Rightarrow> fsys" where
  "with_keys L kt pks sks fs =
     save_public_key L (pks ! 1) (gw_path ''nia'' (pub_sfx kt))
       (save_private_key L (sks ! 1) (gw_path ''nia'' (pem_sfx kt))
         (save_public_key L (pks ! 0) (gw_path ''raw'' (pub_sfx kt))
           (save_private_key L (sks ! 0) (gw_path ''raw'' (pem_sfx kt)) fs)))"

definition with_bundle :: "boot_lib \<Rightarrow> string \<Rightarrow> string \<Rightarrow> certificate list \<Rightarrow> public_key list \<Rightarrow> cli_draw \<Rightarrow> fsys \<Rightarrow> fsys" where
  "with_bundle B kt out cs pks r fs =
     tb_save (b_yaml B) out \<lparr>tb_entries = [boot_entry (b_crypto B) kt ''RAW'' (cs ! 1) (pks ! 0) r,
       boot_entry (b_crypto B) kt ''NIA'' (cs ! 2) (pks ! 1) r]\<rparr> fs"

text \<open>The two hierarchies.\<close>

definition hier :: "string \<Rightarrow> string \<Rightarrow> string \<Rightarrow> bool" where
  "hier ca kt out = ((ca, kt, out) \<in> {(''ca'', ''mldsa'', ''pki/trust_store.yaml''),
     (''ca_ecdsa'', ''ecdsa'', ''pki/trust_store_classical.yaml'')})"

lemma export_two:
  assumes "pem_laws L"
    and "files fs (gw_path ''raw'' (crt_sfx kt)) = Some (pem_cert L c1)"
    and "files fs (gw_path ''raw'' (pub_sfx kt)) = Some (pem_public L k1)"
    and "files fs (gw_path ''nia'' (crt_sfx kt)) = Some (pem_cert L c2)"
    and "files fs (gw_path ''nia'' (pub_sfx kt)) = Some (pem_public L k2)"
  shows "cmd_export_trust_bundle L y ''RAW,NIA'' ''pki'' out kt (dr_now r) (dr_expiry r) fs
    = Inr (tb_save y out \<lparr>tb_entries = [boot_entry L kt ''RAW'' c1 k1 r, boot_entry L kt ''NIA'' c2 k2 r]\<rparr> fs)"
proof -
  have "str_split (CHR '','') ''RAW,NIA'' = [''RAW'', ''NIA'']" by code_simp
  moreover have "export_agency L ''pki'' kt (dr_now r) (dr_expiry r) fs ''RAW'' tb = Inr (tb_add (boot_entry L kt ''RAW'' c1 k1 r) tb)" for tb
    unfolding boot_entry_def
    by (rule export_agency_loaded [OF _ _ assms(1)])
      (simp_all only: gw_joins assms(2,3) [unfolded crt_sfx_def pub_sfx_def])
  moreover have "export_agency L ''pki'' kt (dr_now r) (dr_expiry r) fs ''NIA'' tb = Inr (tb_add (boot_entry L kt ''NIA'' c2 k2 r) tb)" for tb
    unfolding boot_entry_def
    by (rule export_agency_loaded [OF _ _ assms(1)])
      (simp_all only: gw_joins assms(4,5) [unfolded crt_sfx_def pub_sfx_def])
  ultimately show ?thesis by (simp add: cmd_export_trust_bundle_def tb_add_def)
qed

definition run_all :: "boot_lib \<Rightarrow> boot_run \<Rightarrow> nat \<Rightarrow> string list list \<Rightarrow> unit io" where
  "run_all B R n argvs = io_each (\<lambda>(i, argv). run_cmd B (br_draw R i) argv) (enumerate n argvs)"

lemma run_all_simps [simp]:
  "run_all B R n [] fs = (Inr (), fs)"
  "run_all B R n (a # as) fs = io_bind (run_cmd B (br_draw R n) a) (\<lambda>_. run_all B R (Suc n) as) fs"
  by (simp_all add: run_all_def)

lemma run_all_append:
  "run_all B R n as fs = (Inr (), fs1) \<Longrightarrow> run_all B R n (as @ bs) fs = run_all B R (n + length as) bs fs1"
  by (induction as arbitrary: n fs) (auto simp: io_bind_def split: prod.splits sum.splits)

lemma length_hierarchy [simp]: "length (hierarchy ca kt out) = 6"
  by (simp add: hierarchy_def)

lemma certs_run:
  assumes L: "builder_accepts (b_crypto B)" "pem_laws (b_crypto B)" "builder_law (b_crypto B)" and h: "hier ca kt out"
    and g: "keygen_law (b_crypto B)" and d: "draws_ok (br_draw R n)" "draws_ok (br_draw R (Suc n))" "draws_ok (br_draw R (Suc (Suc n)))"
  shows "\<exists>c0 c1 c2 ks. run_all B R n (take 3 (hierarchy ca kt out)) fs = (Inr (), with_certs (b_crypto B) ca kt [c0, c1, c2] ks fs)
    \<and> subject_alt_name (tbs c1) = Some ''gateway-a.internal'' \<and> subject_alt_name (tbs c2) = Some ''gateway-b.internal''"
proof -
  let ?L = "b_crypto B" and ?dir = "''pki/'' @ ca"
  have kt: "kt \<in> key_types" using h by (auto simp: hier_def key_types_def)
  have asc: "ascii ''gateway-a.internal''" "ascii ''gateway-b.internal''" by (simp_all add: ascii_def)
  have dir: "path_join ?dir ''root_ca.crt'' = ''pki/'' @ ca @ ''/root_ca.crt''"
    "path_join ?dir ''root_ca.key'' = ''pki/'' @ ca @ ''/root_ca.key''"
    using h by (auto simp: hier_def path_join_plain)
  obtain c0 k0 fs1 where r0: "run_cmd B (br_draw R n) (hierarchy ca kt out ! 0) fs = (Inr (), fs1)"
    and fs1: "fs1 = save_private_key ?L k0 (''pki/'' @ ca @ ''/root_ca.key'') (save_cert ?L c0 (''pki/'' @ ca @ ''/root_ca.crt'') fs)"
    using run_init [OF L(1) g d(1) kt, of ?dir fs] unfolding dir by (auto simp: hierarchy_def plain_value_def)
  have f1: "files fs1 (path_join ?dir ''root_ca.crt'') = Some (pem_cert ?L c0)"
    "files fs1 (path_join ?dir ''root_ca.key'') = Some (pem_private ?L k0)"
    unfolding dir fs1 by simp_all
  obtain c1 k1 fs2 where c1: "subject_alt_name (tbs c1) = Some ''gateway-a.internal''"
    and r1: "run_cmd B (br_draw R (Suc n)) (hierarchy ca kt out ! 1) fs1 = (Inr (), fs2)"
    and fs2: "fs2 = save_private_key ?L k1 (gw_path ''raw'' (key_sfx kt)) (save_cert ?L c1 (gw_path ''raw'' (crt_sfx kt)) fs1)"
    using run_cert [OF L kt _ _ _ _ _ f1 d(2), of "''RAW''" "''pki/gateway_raw''" "''gateway-a.internal''"] asc
    unfolding gw_joins crt_sfx_def [symmetric] key_sfx_def [symmetric] by (auto simp: hierarchy_def plain_value_def)
  have f2: "files fs2 (path_join ?dir ''root_ca.crt'') = Some (pem_cert ?L c0)"
    "files fs2 (path_join ?dir ''root_ca.key'') = Some (pem_private ?L k0)"
    using f1 h unfolding dir fs2 by (auto simp: hier_def path_sfxs)
  obtain c2 k2 fs3 where c2: "subject_alt_name (tbs c2) = Some ''gateway-b.internal''"
    and r2: "run_cmd B (br_draw R (Suc (Suc n))) (hierarchy ca kt out ! 2) fs2 = (Inr (), fs3)"
    and fs3: "fs3 = save_private_key ?L k2 (gw_path ''nia'' (key_sfx kt)) (save_cert ?L c2 (gw_path ''nia'' (crt_sfx kt)) fs2)"
    using run_cert [OF L kt _ _ _ _ _ f2 d(3), of "''NIA''" "''pki/gateway_nia''" "''gateway-b.internal''"] asc
    unfolding gw_joins crt_sfx_def [symmetric] key_sfx_def [symmetric] by (auto simp: hierarchy_def plain_value_def)
  have "take 3 (hierarchy ca kt out) = map ((!) (hierarchy ca kt out)) [0, 1, 2]" by (simp add: hierarchy_def)
  then have "run_all B R n (take 3 (hierarchy ca kt out)) fs = (Inr (), fs3)"
    using r1 by (simp add: io_bind_def r0 r2)
  moreover have "fs3 = with_certs ?L ca kt [c0, c1, c2] [k0, k1, k2] fs" by (simp add: with_certs_def fs1 fs2 fs3)
  ultimately show ?thesis using c1 c2 by blast
qed

lemma keys_run:
  fixes R :: boot_run and n :: nat
  assumes L: "pem_laws (b_crypto B)" and h: "hier ca kt out"
    and f: "files fs (gw_path ''raw'' (crt_sfx kt)) = Some (pem_cert (b_crypto B) (cs ! 1))"
      "files fs (gw_path ''nia'' (crt_sfx kt)) = Some (pem_cert (b_crypto B) (cs ! 2))"
  defines "pk \<equiv> \<lambda>i. signing_pub (b_crypto B) (dr_entropy (br_draw R i)) kt"
  shows "\<exists>sks. run_all B R n (drop 3 (hierarchy ca kt out)) fs
    = (Inr (), with_bundle B kt out cs [pk n, pk (Suc n)] (br_draw R (Suc (Suc n)))
        (with_keys (b_crypto B) kt [pk n, pk (Suc n)] sks fs))"
proof -
  let ?L = "b_crypto B"
  have kt: "kt \<in> key_types" using h by (auto simp: hier_def key_types_def)
  obtain k3 fs4 where r3: "run_cmd B (br_draw R n) (hierarchy ca kt out ! 3) fs = (Inr (), fs4)"
    and fs4: "fs4 = save_public_key ?L (pk n) (gw_path ''raw'' (pub_sfx kt)) (save_private_key ?L k3 (gw_path ''raw'' (pem_sfx kt)) fs)"
    using run_key [OF kt, of "''RAW''" "''pki/gateway_raw''" B "br_draw R n" fs]
    unfolding gw_joins pub_sfx_def [symmetric] pem_sfx_def [symmetric] by (auto simp: hierarchy_def plain_value_def pk_def)
  obtain k4 fs5 where r4: "run_cmd B (br_draw R (Suc n)) (hierarchy ca kt out ! 4) fs4 = (Inr (), fs5)"
    and fs5: "fs5 = save_public_key ?L (pk (Suc n)) (gw_path ''nia'' (pub_sfx kt)) (save_private_key ?L k4 (gw_path ''nia'' (pem_sfx kt)) fs4)"
    using run_key [OF kt, of "''NIA''" "''pki/gateway_nia''" B "br_draw R (Suc n)" fs4]
    unfolding gw_joins pub_sfx_def [symmetric] pem_sfx_def [symmetric] by (auto simp: hierarchy_def plain_value_def pk_def)
  have f5: "files fs5 (gw_path ''raw'' (crt_sfx kt)) = Some (pem_cert ?L (cs ! 1))"
    "files fs5 (gw_path ''raw'' (pub_sfx kt)) = Some (pem_public ?L (pk n))"
    "files fs5 (gw_path ''nia'' (crt_sfx kt)) = Some (pem_cert ?L (cs ! 2))"
    "files fs5 (gw_path ''nia'' (pub_sfx kt)) = Some (pem_public ?L (pk (Suc n)))"
    using f unfolding fs5 fs4 by (simp_all add: path_sfxs)
  let ?b = "with_bundle B kt out cs [pk n, pk (Suc n)] (br_draw R (Suc (Suc n))) fs5"
  have r5: "run_cmd B (br_draw R (Suc (Suc n))) (hierarchy ca kt out ! 5) fs5 = (Inr (), ?b)"
    using run_export [OF kt _ _ _ export_two [OF L f5, of "b_yaml B" out "br_draw R (Suc (Suc n))"]] h
    by (simp add: hierarchy_def plain_value_def hier_def with_bundle_def) auto
  have "drop 3 (hierarchy ca kt out) = map ((!) (hierarchy ca kt out)) [3, 4, 5]" by (simp add: hierarchy_def)
  then have "run_all B R n (drop 3 (hierarchy ca kt out)) fs = (Inr (), ?b)"
    by (simp add: io_bind_def r3 r4 r5)
  moreover have "fs5 = with_keys ?L kt [pk n, pk (Suc n)] [k3, k4] fs" by (simp add: with_keys_def fs4 fs5)
  ultimately show ?thesis by blast
qed

subsection \<open>The state of a bootstrapped tree\<close>

definition trust_doc :: "crypto_lib \<Rightarrow> certificate \<Rightarrow> certificate \<Rightarrow> public_key \<Rightarrow> public_key \<Rightarrow> cli_draw \<Rightarrow> TrustBundleExporter" where
  "trust_doc L c1 c2 pk1 pk2 r =
     \<lparr>tb_entries = [boot_entry L ''mldsa'' ''RAW'' c1 pk1 r, boot_entry L ''mldsa'' ''NIA'' c2 pk2 r]\<rparr>"

text \<open>The files that the rest of the script reads, for the root's and the two gateways' certificates.\<close>

definition tree :: "boot_lib \<Rightarrow> certificate \<Rightarrow> certificate \<Rightarrow> certificate \<Rightarrow> public_key \<Rightarrow> public_key \<Rightarrow> cli_draw \<Rightarrow> fsys \<Rightarrow> bool" where
  "tree B c0 c1 c2 pk1 pk2 r fs =
     (files fs ''pki/ca/root_ca.crt'' = Some (pem_cert (b_crypto B) c0)
      \<and> files fs ''pki/gateway_raw/raw_gateway.crt'' = Some (pem_cert (b_crypto B) c1)
      \<and> files fs ''pki/gateway_nia/nia_gateway.crt'' = Some (pem_cert (b_crypto B) c2)
      \<and> files fs ''pki/gateway_raw/raw_ml_dsa65.pub'' = Some (pem_public (b_crypto B) pk1)
      \<and> files fs ''pki/gateway_nia/nia_ml_dsa65.pub'' = Some (pem_public (b_crypto B) pk2)
      \<and> files fs ''pki/trust_store.yaml'' =
          files (tb_save (b_yaml B) ''pki/trust_store.yaml'' (trust_doc (b_crypto B) c1 c2 pk1 pk2 r) fs) ''pki/trust_store.yaml''
      \<and> (\<forall>p \<in> set private_key_paths. files fs p \<noteq> None \<and> modes fs p = Some 0x180)
      \<and> subject_alt_name (tbs c1) \<noteq> None \<and> subject_alt_name (tbs c2) \<noteq> None
      \<and> ascii (dr_now r) \<and> ascii (dr_expiry r))"

definition tree_paths :: "string set" where
  "tree_paths = {''pki/ca/root_ca.crt'', ''pki/gateway_raw/raw_gateway.crt'', ''pki/gateway_nia/nia_gateway.crt'',
     ''pki/gateway_raw/raw_ml_dsa65.pub'', ''pki/gateway_nia/nia_ml_dsa65.pub'', ''pki/trust_store.yaml''}
     \<union> set private_key_paths"

text \<open>All files that the commands of the two hierarchies write.\<close>

definition pki_paths :: "string set" where
  "pki_paths = tree_paths \<union> {''pki/ca_ecdsa/root_ca.crt'', ''pki/ca_ecdsa/root_ca.key'',
     ''pki/gateway_raw/raw_gateway_ecdsa.crt'', ''pki/gateway_raw/raw_gateway_ecdsa.key'',
     ''pki/gateway_nia/nia_gateway_ecdsa.crt'', ''pki/gateway_nia/nia_gateway_ecdsa.key'',
     ''pki/gateway_raw/raw_ecdsa256.pem'', ''pki/gateway_raw/raw_ecdsa256.pub'',
     ''pki/gateway_nia/nia_ecdsa256.pem'', ''pki/gateway_nia/nia_ecdsa256.pub'', ''pki/trust_store_classical.yaml''}"

lemma tree_cong:
  assumes "tree B c0 c1 c2 pk1 pk2 r fs"
    and "\<And>p. p \<in> tree_paths \<Longrightarrow> files fs' p = files fs p \<and> modes fs' p = modes fs p"
  shows "tree B c0 c1 c2 pk1 pk2 r fs'"
  using assms unfolding tree_def tree_paths_def by (simp add: tb_save_def)

text \<open>Writing anywhere else keeps the tree.\<close>

lemma tree_write:
  assumes "tree B c0 c1 c2 pk1 pk2 r fs" "p \<notin> tree_paths"
  shows "tree B c0 c1 c2 pk1 pk2 r (write_file p x fs)"
proof (rule tree_cong [OF assms(1)])
  fix q
  assume "q \<in> tree_paths"
  with assms(2) have "q \<noteq> p" by blast
  then show "files (write_file p x fs) q = files fs q \<and> modes (write_file p x fs) q = modes fs q"
    by (simp add: modes_write_other)
qed

text \<open>What the second hierarchy writes is not in the tree of the first.\<close>

lemma second_elsewhere:
  assumes "p \<in> tree_paths \<union> {''pki/revocation_list.yaml'', runs_file}"
  shows "files (with_bundle B ''ecdsa'' ''pki/trust_store_classical.yaml'' cs pks r
      (with_keys L ''ecdsa'' pks' sks (with_certs L ''ca_ecdsa'' ''ecdsa'' cs' ks fs))) p = files fs p
    \<and> modes (with_bundle B ''ecdsa'' ''pki/trust_store_classical.yaml'' cs pks r
      (with_keys L ''ecdsa'' pks' sks (with_certs L ''ca_ecdsa'' ''ecdsa'' cs' ks fs))) p = modes fs p"
  using assms
  by (auto simp: tree_paths_def private_key_paths_def runs_file_def with_bundle_def with_keys_def with_certs_def Let_def
      path_sfxs) (simp_all add: tb_save_def)

lemma first_tree:
  fixes B c0 c1 c2 ks pks sks r fs
  defines "fs' \<equiv> with_bundle B ''mldsa'' ''pki/trust_store.yaml'' [c0, c1, c2] pks r
      (with_keys (b_crypto B) ''mldsa'' pks sks (with_certs (b_crypto B) ''ca'' ''mldsa'' [c0, c1, c2] ks fs))"
  assumes "subject_alt_name (tbs c1) \<noteq> None" "subject_alt_name (tbs c2) \<noteq> None" "ascii (dr_now r)" "ascii (dr_expiry r)"
  shows "tree B c0 c1 c2 (pks ! 0) (pks ! 1) r fs'"
    "files fs' ''pki/revocation_list.yaml'' = files fs ''pki/revocation_list.yaml''" "files fs' runs_file = files fs runs_file"
  using assms(2-)
  by (simp_all add: fs'_def tree_def private_key_paths_def runs_file_def with_bundle_def with_keys_def with_certs_def path_sfxs
      trust_doc_def Let_def) (simp_all add: tb_save_def)

lemma all_written:
  "\<forall>p \<in> pki_paths. files (with_bundle B ''ecdsa'' ''pki/trust_store_classical.yaml'' ds pks' r'
      (with_keys L ''ecdsa'' pks' sks' (with_certs L ''ca_ecdsa'' ''ecdsa'' ds ks'
        (with_bundle B ''mldsa'' ''pki/trust_store.yaml'' cs pks r
          (with_keys L ''mldsa'' pks sks (with_certs L ''ca'' ''mldsa'' cs ks fs)))))) p \<noteq> None"
  by (simp add: pki_paths_def tree_paths_def private_key_paths_def with_bundle_def with_keys_def with_certs_def Let_def path_sfxs)
    (simp add: tb_save_def)

definition boot_laws :: "boot_lib \<Rightarrow> bool" where
  "boot_laws B = (builder_accepts (b_crypto B) \<and> keygen_law (b_crypto B) \<and> pem_laws (b_crypto B) \<and> builder_law (b_crypto B) \<and> yaml_roundtrip (b_yaml B))"

lemma hierarchy_runs:
  fixes R :: boot_run and n :: nat
  assumes "boot_laws B" "hier ca kt out" "\<forall>i < 13. draws_ok (br_draw R i)" "n \<le> 10"
  shows "\<exists>c0 c1 c2 ks pks sks. length pks = 2
    \<and> run_all B R n (hierarchy ca kt out) fs = (Inr (), with_bundle B kt out [c0, c1, c2] pks (br_draw R (n + 5))
        (with_keys (b_crypto B) kt pks sks (with_certs (b_crypto B) ca kt [c0, c1, c2] ks fs)))
    \<and> subject_alt_name (tbs c1) \<noteq> None \<and> subject_alt_name (tbs c2) \<noteq> None"
proof -
  obtain c0 c1 c2 ks where r: "run_all B R n (take 3 (hierarchy ca kt out)) fs
      = (Inr (), with_certs (b_crypto B) ca kt [c0, c1, c2] ks fs)"
    and san: "subject_alt_name (tbs c1) \<noteq> None" "subject_alt_name (tbs c2) \<noteq> None"
    using certs_run [OF _ _ _ assms(2), of B R n fs] assms(1,3,4) by (auto simp: boot_laws_def)
  let ?fs = "with_certs (b_crypto B) ca kt [c0, c1, c2] ks fs"
  have f: "files ?fs (gw_path ''raw'' (crt_sfx kt)) = Some (pem_cert (b_crypto B) c1)"
    "files ?fs (gw_path ''nia'' (crt_sfx kt)) = Some (pem_cert (b_crypto B) c2)"
    by (simp_all add: with_certs_def Let_def path_sfxs)
  have n: "Suc (Suc (n + 3)) = n + 5" by simp
  from assms(1) have "pem_laws (b_crypto B)" by (simp add: boot_laws_def)
  from keys_run [OF this assms(2), of ?fs "[c0, c1, c2]" R "n + 3"] f
  obtain pk1 pk2 sks where k: "run_all B R (n + 3) (drop 3 (hierarchy ca kt out)) ?fs
      = (Inr (), with_bundle B kt out [c0, c1, c2] [pk1, pk2] (br_draw R (n + 5)) (with_keys (b_crypto B) kt [pk1, pk2] sks ?fs))"
    unfolding n by auto
  have "run_all B R n (hierarchy ca kt out) fs = run_all B R (n + 3) (drop 3 (hierarchy ca kt out)) ?fs"
    using run_all_append [OF r, of "drop 3 (hierarchy ca kt out)"] by (simp only: append_take_drop_id) simp
  moreover have "length [pk1, pk2] = 2" by simp
  ultimately show ?thesis using k san by metis
qed

text \<open>The first run creates the tree; it touches neither the revocation list nor the record of runs.\<close>

lemma generated:
  assumes "boot_laws B" "files fs ''pki/trust_store.yaml'' = None" "\<forall>i. ascii (dr_now (br_draw R i)) \<and> ascii (dr_expiry (br_draw R i))"
    and "\<forall>i < 13. draws_ok (br_draw R i)"
  shows "\<exists>c0 c1 c2 pk1 pk2 r fs'. generate_pki B R fs = (Inr (), fs') \<and> tree B c0 c1 c2 pk1 pk2 r fs'
    \<and> files fs' ''pki/revocation_list.yaml'' = files fs ''pki/revocation_list.yaml'' \<and> files fs' runs_file = files fs runs_file
    \<and> (\<forall>p \<in> pki_paths. files fs' p \<noteq> None)"
proof -
  have h: "hier ''ca'' ''mldsa'' ''pki/trust_store.yaml''" "hier ''ca_ecdsa'' ''ecdsa'' ''pki/trust_store_classical.yaml''"
    by (simp_all add: hier_def)
  obtain c0 c1 c2 ks pks sks where a: "length pks = 2" "run_all B R 0 (hierarchy ''ca'' ''mldsa'' ''pki/trust_store.yaml'') fs
      = (Inr (), with_bundle B ''mldsa'' ''pki/trust_store.yaml'' [c0, c1, c2] pks (br_draw R (0 + 5))
        (with_keys (b_crypto B) ''mldsa'' pks sks (with_certs (b_crypto B) ''ca'' ''mldsa'' [c0, c1, c2] ks fs)))"
      "subject_alt_name (tbs c1) \<noteq> None" "subject_alt_name (tbs c2) \<noteq> None"
    using hierarchy_runs [OF assms(1) h(1) assms(4), of 0 fs] by blast
  define fs1 where "fs1 = with_bundle B ''mldsa'' ''pki/trust_store.yaml'' [c0, c1, c2] pks (br_draw R (0 + 5))
        (with_keys (b_crypto B) ''mldsa'' pks sks (with_certs (b_crypto B) ''ca'' ''mldsa'' [c0, c1, c2] ks fs))"
  have t: "tree B c0 c1 c2 (pks ! 0) (pks ! 1) (br_draw R 5) fs1"
    "files fs1 ''pki/revocation_list.yaml'' = files fs ''pki/revocation_list.yaml''" "files fs1 runs_file = files fs runs_file"
    using first_tree [OF a(3,4), of "br_draw R (0 + 5)"] assms(3) unfolding fs1_def by simp_all
  obtain d0 d1 d2 ks' pks' sks' where b: "run_all B R 6 (hierarchy ''ca_ecdsa'' ''ecdsa'' ''pki/trust_store_classical.yaml'') fs1
      = (Inr (), with_bundle B ''ecdsa'' ''pki/trust_store_classical.yaml'' [d0, d1, d2] pks' (br_draw R (6 + 5))
        (with_keys (b_crypto B) ''ecdsa'' pks' sks' (with_certs (b_crypto B) ''ca_ecdsa'' ''ecdsa'' [d0, d1, d2] ks' fs1)))"
      (is "_ = (_, ?fs2)")
    using hierarchy_runs [OF assms(1) h(2) assms(4), of 6 fs1] by auto
  have "run_all B R 0 generation fs = (Inr (), ?fs2)"
    unfolding generation_def run_all_append [OF a(2)] fs1_def [symmetric] using b by simp
  then have "generate_pki B R fs = (Inr (), ?fs2)"
    using assms(2) by (simp add: generate_pki_def path_exists_def run_all_def)
  moreover have "tree B c0 c1 c2 (pks ! 0) (pks ! 1) (br_draw R 5) ?fs2"
    by (rule tree_cong [OF t(1)]) (rule second_elsewhere, blast)
  moreover have "\<forall>p \<in> pki_paths. files ?fs2 p \<noteq> None" unfolding fs1_def by (rule all_written)
  ultimately show ?thesis using t(2,3) second_elsewhere by fastforce
qed

subsection \<open>The rest of the script\<close>

abbreviation "rl_path \<equiv> ''pki/revocation_list.yaml''"

definition fp_of :: "boot_lib \<Rightarrow> certificate \<Rightarrow> string" where
  "fp_of B c = hex_bytes (sha256 (cert_der (b_crypto B) c))"

lemma fingerprint_read:
  assumes "pem_laws (b_crypto B)" "files fs p = Some (pem_cert (b_crypto B) c)"
  shows "fingerprint_of B p fs = (Inr (fp_of B c), fs)"
  using assms pem_lawsD [OF assms(1)]
  by (simp add: fingerprint_of_def io_read_def load_cert_def read_file_def get_cert_fingerprint_def fp_of_def
      calculate_fingerprint_Inr del: calculate_fingerprint.simps)

lemma plain_hex: "plain_value (hex_bytes b)"
proof (cases "hex_bytes b")
  case (Cons c t)
  then have "is_lower_hex c" using hex_bytes_lower [of c b] by simp
  then have "c \<noteq> CHR ''-''" by (auto simp: is_lower_hex_def)
  with Cons show ?thesis by (simp add: plain_value_def)
qed (simp add: plain_value_def)

definition raw_revocation :: "boot_lib \<Rightarrow> boot_run \<Rightarrow> certificate \<Rightarrow> RevocationEntry" where
  "raw_revocation B R c = \<lparr>rev_fingerprint = VStr (fp_of B c), rev_key_type = VStr ''tls_cert'', rev_agency_id = VStr ''RAW'',
     rev_reason = VStr ''suspected key compromise'', rev_revoked_at = VStr (dr_now (br_draw R 12))\<rparr>"

lemma revoked:
  assumes "boot_laws B" "tree B c0 c1 c2 pk1 pk2 r fs" "rl_load (b_yaml B) rl_path fs = Inr rl"
  shows "revoke_raw B R fs = (Inr (fp_of B c1), rl_save (b_yaml B) rl_path (rl_add (raw_revocation B R c1) rl) fs)"
proof -
  have f: "fingerprint_of B ''pki/gateway_raw/raw_gateway.crt'' fs = (Inr (fp_of B c1), fs)"
    using assms(1,2) by (intro fingerprint_read) (simp_all add: boot_laws_def tree_def)
  have "run_cmd B (br_draw R 12) [''revoke'', ''--agency-id'', ''RAW'', ''--key-type'', ''tls_cert'', ''--reason'',
      ''suspected key compromise'', ''--out'', rl_path, ''--fingerprint'', fp_of B c1] fs
    = (Inr (), rl_save (b_yaml B) rl_path (rl_add (raw_revocation B R c1) rl) fs)"
    by (rule run_revoke)
      (use plain_hex assms(3) in \<open>simp_all add: plain_value_def fp_of_def cmd_revoke_def raw_revocation_def\<close>)
  with f show ?thesis by (simp add: revoke_raw_def io_bind_def)
qed

text \<open>
  The tests may write where they like, also under \<open>pki\<close> (those of the repository leave
  \<open>revocation_list_test.yaml\<close>, \<open>revocation_list_malformed.yaml\<close> and \<open>trust_store_malformed.yaml\<close>
  there), but they leave the keys, certificates and trust stores, the revocation list and the record
  of runs as they are, and exit as a process does.
\<close>

definition tests_tidy :: "boot_lib \<Rightarrow> bool" where
  "tests_tidy B = (\<forall>fs. - 128 \<le> fst (pytest B fs) \<and> fst (pytest B fs) \<le> 255
     \<and> (\<forall>p \<in> pki_paths \<union> {rl_path, runs_file}.
         files (snd (pytest B fs)) p = files fs p \<and> modes (snd (pytest B fs)) p = modes fs p))"

text \<open>The state in which a run starts the tests, and their exit status.\<close>

definition tested :: "boot_lib \<Rightarrow> boot_run \<Rightarrow> fsys \<Rightarrow> fsys" where
  "tested B R fs = snd (io_bind (generate_pki B R) (\<lambda>_. revoke_raw B R) fs)"

definition tests_status :: "boot_lib \<Rightarrow> boot_run \<Rightarrow> fsys \<Rightarrow> int" where
  "tests_status B R fs = fst (pytest B (tested B R fs))"

definition script_exit :: "int \<Rightarrow> unit result" where
  "script_exit rc = (if rc \<noteq> 0 then Inl (SystemExit (show_int rc)) else Inr ())"

definition passed :: "string \<Rightarrow> pyval" where
  "passed p = VDict [(''path'', VStr p), (''expected_mode'', VStr ''0o600''), (''actual_mode'', VStr ''0o600''),
     (''result'', VStr ''PASS'')]"

lemma file_perms_tree:
  assumes "tree B c0 c1 c2 pk1 pk2 r fs"
  shows "file_perms fs = VList (map passed private_key_paths)"
proof -
  have "oct (384 mod 512) = ''0o600''" by code_simp
  then have "file_permission fs p = passed p" if "p \<in> set private_key_paths" for p
    using assms that by (simp add: file_permission_def passed_def tree_def Let_def)
  moreover have "filter (\<lambda>p. path_exists p fs) private_key_paths = private_key_paths"
    using assms by (simp add: tree_def path_exists_def filter_id_conv)
  ultimately show ?thesis by (simp add: file_perms_def)
qed

definition evidence_paths :: "string set" where
  "evidence_paths = {ev_dir @ ''/certificate_metadata.json'', ev_dir @ ''/key_separation.json'',
     ev_dir @ ''/revocation_validation.json'', ev_dir @ ''/file_permissions.json''}"

lemma pki_elsewhere: "evidence_paths \<inter> (pki_paths \<union> {rl_path, runs_file}) = {}" "runs_file \<notin> pki_paths" "rl_path \<notin> pki_paths"
  by (simp_all add: evidence_paths_def pki_paths_def tree_paths_def private_key_paths_def runs_file_def)

lemma tree_pki: "tree_paths \<subseteq> pki_paths"
  unfolding pki_paths_def by (rule Un_upper1)

lemma evidence_elsewhere: "evidence_paths \<inter> (tree_paths \<union> {rl_path, runs_file}) = {}" "runs_file \<notin> tree_paths" "rl_path \<notin> tree_paths"
  using pki_elsewhere tree_pki by blast+

lemma cert_meta_tree:
  assumes "pem_laws (b_crypto B)" "tree B c0 c1 c2 pk1 pk2 r fs"
  shows "\<exists>ms. rmap (\<lambda>c. cert_meta B c fs) certificates = Inr ms"
    "\<exists>ks. rmap (\<lambda>g. key_separation B g fs) [(''RAW'', ''raw''), (''NIA'', ''nia'')] = Inr ks"
  using assms pem_lawsD [OF assms(1)]
  by (auto simp: certificates_def cert_meta_def key_separation_def tree_def load_cert_def load_public_key_file_def read_file_def
      get_cert_fingerprint_def get_pubkey_fingerprint_def calculate_fingerprint_Inr simp del: calculate_fingerprint.simps)

lemma evidence_collected:
  assumes "pem_laws (b_crypto B)" "tree B c0 c1 c2 pk1 pk2 r fs" "rl_load (b_yaml B) rl_path fs = Inr rl"
  shows "\<exists>fs'. collect_evidence B fp fs = (Inr (), fs')
    \<and> (\<forall>p. p \<notin> evidence_paths \<longrightarrow> files fs' p = files fs p \<and> modes fs' p = modes fs p)
    \<and> files fs' (ev_dir @ ''/file_permissions.json'') = Some (json_dump_indent (VList (map passed private_key_paths)))
    \<and> files fs' (ev_dir @ ''/revocation_validation.json'') = Some (json_dump_indent (revocation_evidence fp (fp_of B c2) rl))"
proof -
  obtain ms where m: "rmap (\<lambda>c. cert_meta B c fs) certificates = Inr ms" using cert_meta_tree(1) [OF assms(1,2)] by blast
  let ?fs1 = "write_file (ev_dir @ ''/certificate_metadata.json'') (json_dump_indent (VList ms)) fs"
  have t1: "tree B c0 c1 c2 pk1 pk2 r ?fs1"
    by (rule tree_write [OF assms(2)]) (use evidence_elsewhere(1) in \<open>auto simp: evidence_paths_def\<close>)
  obtain ks where k: "rmap (\<lambda>g. key_separation B g ?fs1) [(''RAW'', ''raw''), (''NIA'', ''nia'')] = Inr ks"
    using cert_meta_tree(2) [OF assms(1) t1] by blast
  let ?fs2 = "write_file (ev_dir @ ''/key_separation.json'') (json_dump_indent (VList ks)) ?fs1"
  let ?fs3 = "write_file (ev_dir @ ''/revocation_validation.json'') (json_dump_indent (revocation_evidence fp (fp_of B c2) rl)) ?fs2"
  have "tree B c0 c1 c2 pk1 pk2 r ?fs2"
    by (rule tree_write [OF t1]) (use evidence_elsewhere(1) in \<open>auto simp: evidence_paths_def\<close>)
  then have "tree B c0 c1 c2 pk1 pk2 r ?fs3"
    by (rule tree_write) (use evidence_elsewhere(1) in \<open>auto simp: evidence_paths_def\<close>)
  note perms = file_perms_tree [OF this]
  have n: "fingerprint_of B ''pki/gateway_nia/nia_gateway.crt'' fs = (Inr (fp_of B c2), fs)"
    using assms(1,2) by (intro fingerprint_read) (simp_all add: tree_def)
  let ?fs4 = "write_file (ev_dir @ ''/file_permissions.json'') (json_dump_indent (VList (map passed private_key_paths))) ?fs3"
  have "collect_evidence B fp fs = (Inr (), ?fs4)"
    unfolding collect_evidence_def io_bind_def io_read_def write_evidence_def io_change_def
    by (simp only: assms(3) n m k perms prod.case sum.case)
  then show ?thesis
    by (intro exI [of _ ?fs4]) (auto simp: evidence_paths_def modes_write_other)
qed

text \<open>The record of runs.\<close>

definition runs_of :: "fsys \<Rightarrow> pyval result" where
  "runs_of fs = (case files fs runs_file of None \<Rightarrow> Inr (VList []) | Some c \<Rightarrow> json_loads c)"

lemma run_recorded:
  assumes "runs_of fs = Inr (VList rs)" "\<forall>x \<in> set rs. indent_ok x" "indent_ok (run_entry R rc)"
  shows "\<exists>fs'. record_run R rc fs = (Inr (), fs') \<and> runs_of fs' = Inr (VList (rs @ [run_entry R rc]))
    \<and> (\<forall>p. p \<noteq> runs_file \<longrightarrow> files fs' p = files fs p \<and> modes fs' p = modes fs p)"
proof -
  let ?v = "VList (rs @ [run_entry R rc])"
  have "(if path_exists runs_file fs then rbind (read_file runs_file fs) json_loads else Inr (VList [])) = Inr (VList rs)"
    using assms(1) by (auto simp: runs_of_def path_exists_def read_file_def split: option.splits)
  then have "record_run R rc fs = (Inr (), write_file runs_file (json_dump_indent ?v) fs)"
    by (simp add: record_run_def io_bind_def io_read_def write_evidence_def io_change_def)
  moreover have "indent_ok ?v" using assms(2,3) by auto
  then have "runs_of (write_file runs_file (json_dump_indent ?v) fs) = Inr ?v"
    by (simp add: runs_of_def json_loads_indent)
  ultimately show ?thesis by (auto simp: modes_write_other)
qed

text \<open>
  What a run is given is usable: its texts can be printed and read back, the serial numbers that
  its commands draw are positive, and a root of ten years ends before the year 10000.
\<close>

definition run_given :: "boot_run \<Rightarrow> bool" where
  "run_given R = (valid_text (case br_argv R of [] \<Rightarrow> ''run-1'' | a # _ \<Rightarrow> a) \<and> valid_text (br_start R)
     \<and> valid_text (getenv (br_environ R) ''GIT_COMMIT'' ''NOT AVAILABLE'') \<and> valid_text (br_python R) \<and> valid_text (br_openssl R)
     \<and> valid_text (getenv (br_environ R) ''DOCKER_IMAGE_INFO'' ''NOT AVAILABLE'') \<and> float_lit (br_duration R)
     \<and> (\<forall>i. ascii (dr_now (br_draw R i)) \<and> ascii (dr_expiry (br_draw R i)))
     \<and> (\<forall>i < 13. draws_ok (br_draw R i)))"

lemma run_entry_ok:
  assumes "run_given R" "- 128 \<le> rc" "rc \<le> 255"
  shows "indent_ok (run_entry R rc)"
proof -
  have "nat \<bar>rc\<bar> < 10 ^ Suc 2" using assms(2,3) by simp
  from length_show_nat [OF this] show ?thesis using assms(1) by (simp add: run_entry_def run_given_def ascii_valid ascii_def)
qed

lemma rl_load_cong: "files fs' p = files fs p \<Longrightarrow> rl_load y p fs' = rl_load y p fs"
  by (simp add: rl_load_def path_exists_def read_file_def)

text \<open>Where the script can start: no tree yet, or that of an earlier run.\<close>

definition startable :: "boot_lib \<Rightarrow> fsys \<Rightarrow> bool" where
  "startable B fs = (files fs ''pki/trust_store.yaml'' = None \<or> (\<exists>c0 c1 c2 pk1 pk2 r. tree B c0 c1 c2 pk1 pk2 r fs))"

lemma generated_or_kept:
  assumes "boot_laws B" "startable B fs" "run_given R"
  shows "\<exists>c0 c1 c2 pk1 pk2 r fs'. generate_pki B R fs = (Inr (), fs') \<and> tree B c0 c1 c2 pk1 pk2 r fs'
    \<and> files fs' rl_path = files fs rl_path \<and> files fs' runs_file = files fs runs_file
    \<and> (if files fs ''pki/trust_store.yaml'' = None then \<forall>p \<in> pki_paths. files fs' p \<noteq> None else fs' = fs)"
proof (cases "files fs ''pki/trust_store.yaml'' = None")
  case True
  with generated [OF assms(1) True, of R] assms(3) show ?thesis by (simp add: run_given_def)
next
  case False
  then have "generate_pki B R fs = (Inr (), fs)" by (simp add: generate_pki_def path_exists_def)
  moreover from False assms(2) obtain c0 c1 c2 pk1 pk2 r where "tree B c0 c1 c2 pk1 pk2 r fs" by (auto simp: startable_def)
  ultimately show ?thesis using False by (auto intro!: exI)
qed

text \<open>Generation, revocation and the tests.\<close>

lemma boot_prepared:
  assumes "boot_laws B" "tests_tidy B" "run_given R" "startable B fs"
    and "rl_load (b_yaml B) rl_path fs = Inr rl" "list_all rev_plain (rl_entries rl)"
  obtains c0 c1 c2 pk1 pk2 r rc fs1 fs2 fs3 where
    "generate_pki B R fs = (Inr (), fs1)" "revoke_raw B R fs1 = (Inr (fp_of B c1), fs2)" "pytest B fs2 = (rc, fs3)"
    "rc = tests_status B R fs" "- 128 \<le> rc" "rc \<le> 255" "tree B c0 c1 c2 pk1 pk2 r fs3"
    "files fs3 rl_path = files (rl_save (b_yaml B) rl_path (rl_add (raw_revocation B R c1) rl) fs) rl_path"
    "list_all rev_plain (rl_entries (rl_add (raw_revocation B R c1) rl))"
    "files fs3 runs_file = files fs runs_file"
    "if files fs ''pki/trust_store.yaml'' = None then \<forall>p \<in> pki_paths. files fs3 p \<noteq> None
      else \<forall>p \<in> pki_paths. files fs3 p = files fs p \<and> modes fs3 p = modes fs p"
proof -
  obtain c0 c1 c2 pk1 pk2 r fs1 where g: "generate_pki B R fs = (Inr (), fs1)" and t1: "tree B c0 c1 c2 pk1 pk2 r fs1"
    and f1: "files fs1 rl_path = files fs rl_path" "files fs1 runs_file = files fs runs_file"
    and keep: "if files fs ''pki/trust_store.yaml'' = None then \<forall>p \<in> pki_paths. files fs1 p \<noteq> None else fs1 = fs"
    using generated_or_kept [OF assms(1,4,3)] by blast
  let ?rl = "rl_add (raw_revocation B R c1) rl" and ?y = "b_yaml B"
  define fs2 where "fs2 = rl_save ?y rl_path ?rl fs1"
  have f2: "files fs2 = (files fs1)(rl_path := files (rl_save ?y rl_path ?rl fs) rl_path)"
    by (simp add: fs2_def rl_save_def)
  have v: "revoke_raw B R fs1 = (Inr (fp_of B c1), fs2)"
    unfolding fs2_def by (rule revoked [OF assms(1) t1]) (simp add: rl_load_cong [OF f1(1)] assms(5))
  have "ascii ''tls_cert''" "ascii ''RAW''" "ascii ''suspected key compromise''" by (simp_all add: ascii_def)
  then have plain: "list_all rev_plain (rl_entries ?rl)"
    using assms(3,6) by (simp add: rl_add_def rev_plain_def raw_revocation_def fp_of_def run_given_def ascii_valid ascii_hex)
  obtain rc fs3 where p: "pytest B fs2 = (rc, fs3)" by (cases "pytest B fs2")
  with assms(2) have rc: "- 128 \<le> rc" "rc \<le> 255"
    and keep3: "\<And>q. q \<in> pki_paths \<union> {rl_path, runs_file} \<Longrightarrow> files fs3 q = files fs2 q \<and> modes fs3 q = modes fs2 q"
    unfolding tests_tidy_def by (metis fst_conv, metis fst_conv, metis snd_conv)
  have status: "rc = tests_status B R fs" by (simp add: tests_status_def tested_def io_bind_def g v p)
  have same: "files fs3 q = files fs1 q \<and> modes fs3 q = modes fs1 q" if "q \<in> pki_paths" for q
  proof -
    from that pki_elsewhere(3) have "q \<noteq> rl_path" by blast
    then have "files fs2 q = files fs1 q \<and> modes fs2 q = modes fs1 q" by (simp add: f2) (simp add: fs2_def rl_save_def modes_write_other)
    with keep3 that show ?thesis by simp
  qed
  have "tree B c0 c1 c2 pk1 pk2 r fs3" by (rule tree_cong [OF t1]) (use same tree_pki in blast)
  moreover have "files fs3 rl_path = files (rl_save ?y rl_path ?rl fs) rl_path" "files fs3 runs_file = files fs runs_file"
    using keep3 [of rl_path] keep3 [of runs_file] f1(2) by (simp_all add: f2 runs_file_def)
  moreover have "if files fs ''pki/trust_store.yaml'' = None then \<forall>p \<in> pki_paths. files fs3 p \<noteq> None
      else \<forall>p \<in> pki_paths. files fs3 p = files fs p \<and> modes fs3 p = modes fs p"
    using keep same by (simp split: if_splits)
  ultimately show thesis using that [OF g v p status rc] plain by blast
qed

text \<open>One run of the script.\<close>

lemma bootstrap_run:
  assumes "boot_laws B" "tests_tidy B" "run_given R" "startable B fs"
    and "rl_load (b_yaml B) rl_path fs = Inr rl" "list_all rev_plain (rl_entries rl)"
    and "runs_of fs = Inr (VList rs)" "\<forall>x \<in> set rs. indent_ok x"
  obtains c0 c1 c2 pk1 pk2 r rc fs' where
    "bootstrap_main B R fs = (script_exit rc, fs')" "rc = tests_status B R fs"
    "tree B c0 c1 c2 pk1 pk2 r fs'"
    "files fs' rl_path = files (rl_save (b_yaml B) rl_path (rl_add (raw_revocation B R c1) rl) fs) rl_path"
    "list_all rev_plain (rl_entries (rl_add (raw_revocation B R c1) rl))"
    "runs_of fs' = Inr (VList (rs @ [run_entry R rc]))" "indent_ok (run_entry R rc)"
    "files fs' (ev_dir @ ''/file_permissions.json'') = Some (json_dump_indent (VList (map passed private_key_paths)))"
    "files fs' (ev_dir @ ''/revocation_validation.json'')
      = Some (json_dump_indent (revocation_evidence (fp_of B c1) (fp_of B c2) (rl_add (raw_revocation B R c1) rl)))"
    "if files fs ''pki/trust_store.yaml'' = None then \<forall>p \<in> pki_paths. files fs' p \<noteq> None
      else \<forall>p \<in> pki_paths. files fs' p = files fs p \<and> modes fs' p = modes fs p"
proof -
  obtain c0 c1 c2 pk1 pk2 r rc fs1 fs2 fs3 where
    run: "generate_pki B R fs = (Inr (), fs1)" "revoke_raw B R fs1 = (Inr (fp_of B c1), fs2)" "pytest B fs2 = (rc, fs3)"
    and status: "rc = tests_status B R fs" and rc: "- 128 \<le> rc" "rc \<le> 255" and t3: "tree B c0 c1 c2 pk1 pk2 r fs3"
    and rl3: "files fs3 rl_path = files (rl_save (b_yaml B) rl_path (rl_add (raw_revocation B R c1) rl) fs) rl_path"
    and plain: "list_all rev_plain (rl_entries (rl_add (raw_revocation B R c1) rl))"
    and runs3: "files fs3 runs_file = files fs runs_file"
    and keep: "if files fs ''pki/trust_store.yaml'' = None then \<forall>p \<in> pki_paths. files fs3 p \<noteq> None
      else \<forall>p \<in> pki_paths. files fs3 p = files fs p \<and> modes fs3 p = modes fs p"
    by (rule boot_prepared [OF assms(1-6)]) blast
  let ?rl = "rl_add (raw_revocation B R c1) rl" and ?y = "b_yaml B"
  have "rl_load ?y rl_path fs3 = Inr ?rl"
    using rl_load_cong [OF rl3, of ?y] rl_load_save [OF _ plain, of ?y rl_path fs] assms(1) by (simp add: boot_laws_def)
  from evidence_collected [OF _ t3 this, of "fp_of B c1"] assms(1)
  obtain fs4 where e: "collect_evidence B (fp_of B c1) fs3 = (Inr (), fs4)"
    and keep4: "\<And>q. q \<notin> evidence_paths \<Longrightarrow> files fs4 q = files fs3 q \<and> modes fs4 q = modes fs3 q"
    and ev: "files fs4 (ev_dir @ ''/file_permissions.json'') = Some (json_dump_indent (VList (map passed private_key_paths)))"
      "files fs4 (ev_dir @ ''/revocation_validation.json'')
        = Some (json_dump_indent (revocation_evidence (fp_of B c1) (fp_of B c2) ?rl))"
    by (auto simp: boot_laws_def)
  have "runs_of fs4 = Inr (VList rs)"
    using keep4 [of runs_file] evidence_elsewhere runs3 assms(7) by (simp add: runs_of_def)
  from run_recorded [OF this assms(8) run_entry_ok [OF assms(3) rc]]
  obtain fs5 where h: "record_run R rc fs4 = (Inr (), fs5)" "runs_of fs5 = Inr (VList (rs @ [run_entry R rc]))"
    and keep5: "\<And>q. q \<noteq> runs_file \<Longrightarrow> files fs5 q = files fs4 q \<and> modes fs5 q = modes fs4 q" by metis
  have same: "files fs5 q = files fs3 q \<and> modes fs5 q = modes fs3 q" if "q \<in> pki_paths \<or> q = rl_path" for q
  proof -
    from that have "q \<notin> evidence_paths" "q \<noteq> runs_file" using pki_elsewhere by (auto simp: runs_file_def)
    with keep4 keep5 show ?thesis by simp
  qed
  have "bootstrap_main B R fs = (script_exit rc, fs5)"
    by (simp add: script_exit_def bootstrap_main_def io_bind_def run run_tests_def e h(1) io_read_def)
  moreover have "tree B c0 c1 c2 pk1 pk2 r fs5" using same tree_pki by (intro tree_cong [OF t3]) blast
  moreover have "files fs5 (ev_dir @ ''/file_permissions.json'') = files fs4 (ev_dir @ ''/file_permissions.json'')"
    "files fs5 (ev_dir @ ''/revocation_validation.json'') = files fs4 (ev_dir @ ''/revocation_validation.json'')"
    using keep5 by (simp_all add: runs_file_def)
  moreover have "files fs5 rl_path = files (rl_save ?y rl_path ?rl fs) rl_path" using same [of rl_path] rl3 by simp
  moreover have "if files fs ''pki/trust_store.yaml'' = None then \<forall>p \<in> pki_paths. files fs5 p \<noteq> None
      else \<forall>p \<in> pki_paths. files fs5 p = files fs p \<and> modes fs5 p = modes fs p"
    using keep same by simp
  ultimately show thesis
    using that [of rc fs5 c0 c1 c2 pk1 pk2 r] status plain h(2) run_entry_ok [OF assms(3) rc] ev by simp
qed

text \<open>Runs one after the other.\<close>

primrec boot_runs :: "boot_lib \<Rightarrow> boot_run list \<Rightarrow> fsys \<Rightarrow> fsys" where
  "boot_runs B [] fs = fs"
| "boot_runs B (R # Rs) fs = boot_runs B Rs (snd (bootstrap_main B R fs))"

lemma tree_startable: "tree B c0 c1 c2 pk1 pk2 r fs \<Longrightarrow> startable B fs"
  unfolding startable_def by blast

text \<open>The outcomes of the runs, and the exit statuses of their tests.\<close>

primrec boot_outcomes :: "boot_lib \<Rightarrow> boot_run list \<Rightarrow> fsys \<Rightarrow> unit result list" where
  "boot_outcomes B [] fs = []"
| "boot_outcomes B (R # Rs) fs =
     (let (out, fs') = bootstrap_main B R fs in out # boot_outcomes B Rs fs')"

primrec boot_statuses :: "boot_lib \<Rightarrow> boot_run list \<Rightarrow> fsys \<Rightarrow> int list" where
  "boot_statuses B [] fs = []"
| "boot_statuses B (R # Rs) fs = tests_status B R fs # boot_statuses B Rs (snd (bootstrap_main B R fs))"

text \<open>Later runs keep all generated files and add to the revocation list and to the record.\<close>

lemma boot_again:
  assumes "boot_laws B" "tests_tidy B" "\<forall>R \<in> set Rs. run_given R" "tree B c0 c c2 pk1 pk2 r fs"
    and "rl_load (b_yaml B) rl_path fs = Inr rl" "list_all rev_plain (rl_entries rl)"
    and "runs_of fs = Inr (VList rs)" "\<forall>x \<in> set rs. indent_ok x"
  shows "boot_outcomes B Rs fs = map script_exit (boot_statuses B Rs fs)
    \<and> runs_of (boot_runs B Rs fs) = Inr (VList (rs @ map2 run_entry Rs (boot_statuses B Rs fs)))
    \<and> rl_load (b_yaml B) rl_path (boot_runs B Rs fs) = Inr \<lparr>rl_entries = rl_entries rl @ map (\<lambda>R. raw_revocation B R c) Rs\<rparr>
    \<and> (\<forall>p \<in> pki_paths. files (boot_runs B Rs fs) p = files fs p \<and> modes (boot_runs B Rs fs) p = modes fs p)"
  using assms(3-)
proof (induction Rs arbitrary: c0 c2 pk1 pk2 r fs rl rs)
  case Nil
  then show ?case by simp
next
  case (Cons R Rs)
  have rt: "run_given R" using Cons.prems(1) by simp
  obtain d0 d1 d2 qk1 qk2 q rc fs' where b:
    "bootstrap_main B R fs = (script_exit rc, fs')" "rc = tests_status B R fs"
    "tree B d0 d1 d2 qk1 qk2 q fs'"
    "files fs' rl_path = files (rl_save (b_yaml B) rl_path (rl_add (raw_revocation B R d1) rl) fs) rl_path"
    "list_all rev_plain (rl_entries (rl_add (raw_revocation B R d1) rl))"
    "runs_of fs' = Inr (VList (rs @ [run_entry R rc]))" "indent_ok (run_entry R rc)"
    and keep: "if files fs ''pki/trust_store.yaml'' = None then \<forall>p \<in> pki_paths. files fs' p \<noteq> None
      else \<forall>p \<in> pki_paths. files fs' p = files fs p \<and> modes fs' p = modes fs p"
    by (rule bootstrap_run [OF assms(1,2) rt tree_startable [OF Cons.prems(2)] Cons.prems(3-6)]) blast
  have k: "\<forall>p \<in> pki_paths. files fs' p = files fs p \<and> modes fs' p = modes fs p"
    using keep Cons.prems(2) by (simp add: tree_def tb_save_def)
  then have "pem_cert (b_crypto B) d1 = pem_cert (b_crypto B) c"
    using b(3) Cons.prems(2) by (simp add: tree_def pki_paths_def tree_paths_def)
  then have c: "d1 = c" using assms(1) pem_lawsD(3) [of "b_crypto B"] by (metis boot_laws_def option.inject)
  have l: "rl_load (b_yaml B) rl_path fs' = Inr (rl_add (raw_revocation B R d1) rl)"
    using rl_load_cong [OF b(4)] rl_load_save [OF _ b(5)] assms(1) by (simp add: boot_laws_def)
  have "\<forall>x \<in> set (rs @ [run_entry R rc]). indent_ok x" using Cons.prems(6) b(7) by auto
  from Cons.IH [OF _ b(3) [unfolded c] l b(5,6) this] Cons.prems(1) b(1,2) c k show ?case by (simp add: rl_add_def)
qed

section \<open>Properties\<close>

text \<open>
  C36: the bootstrap revokes a certificate that stays in use. Started without a trust store or with
  the tree of an earlier run, and with any readable revocation list and record of runs, the script
  runs to its end and exits with the status of the tests, which it runs on the tree with the
  certificate revoked; afterwards the fingerprint of RAW's gateway certificate is in the revocation list, and yet
  Gateway B's trust store, loaded from the files of the tree, expects exactly this certificate from
  RAW and does not treat it as revoked.
\<close>

theorem bootstrap_revokes_what_it_trusts:
  assumes "boot_laws B" and "tests_tidy B" and "run_given R" and "startable B fs"
    and "rl_load (b_yaml B) rl_path fs = Inr rl" and "list_all rev_plain (rl_entries rl)"
    and "runs_of fs = Inr (VList rs)" and "\<forall>x \<in> set rs. indent_ok x"
  shows "\<exists>fs' fp rl' ts. bootstrap_main B R fs = (script_exit (tests_status B R fs), fs')
    \<and> fingerprint_of B ''pki/gateway_raw/raw_gateway.crt'' fs' = (Inr fp, fs')
    \<and> rl_load (b_yaml B) rl_path fs' = Inr rl' \<and> VStr fp \<in> rev_fingerprint ` set (rl_entries rl')
    \<and> TrustStore_init (b_yaml B) ''pki/trust_store.yaml'' rl_path fs' = Inr ts
    \<and> py_getitem (get_agency ts ''RAW'') ''tls_certificate_fingerprint'' = Inr (VStr fp)
    \<and> is_revoked ts (VStr fp) = Inr False"
proof -
  obtain c0 c1 c2 pk1 pk2 r rc fs' where
    m: "bootstrap_main B R fs = (script_exit rc, fs')" "rc = tests_status B R fs"
    and t: "tree B c0 c1 c2 pk1 pk2 r fs'"
    and rl: "files fs' rl_path = files (rl_save (b_yaml B) rl_path (rl_add (raw_revocation B R c1) rl) fs) rl_path"
    and plain: "list_all rev_plain (rl_entries (rl_add (raw_revocation B R c1) rl))"
    by (rule bootstrap_run [OF assms]) blast
  let ?y = "b_yaml B" and ?rl = "rl_add (raw_revocation B R c1) rl"
  let ?e1 = "boot_entry (b_crypto B) ''mldsa'' ''RAW'' c1 pk1 r" and ?e2 = "boot_entry (b_crypto B) ''mldsa'' ''NIA'' c2 pk2 r"
  have laws: "pem_laws (b_crypto B)" "yaml_roundtrip ?y" using assms(1) by (simp_all add: boot_laws_def)
  have f: "fingerprint_of B ''pki/gateway_raw/raw_gateway.crt'' fs' = (Inr (fp_of B c1), fs')"
    using t by (intro fingerprint_read [OF laws(1)]) (simp add: tree_def)
  have l: "rl_load ?y rl_path fs' = Inr ?rl" using rl_load_cong [OF rl] rl_load_save [OF laws(2) plain] by simp
  have "ascii ''RAW''" "ascii ''NIA''" "ascii (dr_now r)" "ascii (dr_expiry r)" using t by (simp_all add: ascii_def tree_def)
  then have "list_all entry_plain (tb_entries (trust_doc (b_crypto B) c1 c2 pk1 pk2 r))"
    by (simp add: trust_doc_def boot_entry_plain)
  from load_agencies_saved [OF laws(2) this, of fs' "''pki/trust_store.yaml''" fs'] t
  have a: "load_agencies ?y ''pki/trust_store.yaml'' fs' = Inr (agency_map [?e1, ?e2] Map.empty)"
    by (simp add: tree_def trust_doc_def)
  have v: "load_revoked ?y rl_path fs' = Inr {}" by (rule load_revoked_saved [OF laws(2) plain rl])
  obtain ts where ts: "TrustStore_init ?y ''pki/trust_store.yaml'' rl_path fs' = Inr ts"
    and ag: "agencies ts = agency_map [?e1, ?e2] Map.empty" and rv: "revoked_fingerprints ts = {}"
    by (simp add: TrustStore_init_def a v)
  have "agencies ts (VStr ''RAW'') = Some (sort_keys (tb_val ?e1))" by (simp add: ag boot_entry_def)
  then have "py_getitem (get_agency ts ''RAW'') ''tls_certificate_fingerprint'' = Inr (VStr (fp_of B c1))"
    using tb_val_get [of ?e1] by (simp add: get_agency_def boot_entry_def fp_of_def)
  moreover have "is_revoked ts (VStr (fp_of B c1)) = Inr False" by (simp add: is_revoked_def rv)
  moreover have "VStr (fp_of B c1) \<in> rev_fingerprint ` set (rl_entries ?rl)"
    by (simp add: rl_add_def raw_revocation_def)
  ultimately show ?thesis using m f l ts by blast
qed

definition demo_boot :: boot_lib where
  "demo_boot = \<lparr>b_crypto = demo_crypto, b_yaml = json_yaml, rfc4514_string = (\<lambda>n. []), signature_oid = (\<lambda>c. []),
     pytest = (\<lambda>fs. (1, write_file ''pki/trust_store_malformed.yaml'' ''trusted_agencies: [ {'' fs))\<rparr>"

definition demo_run :: "string \<Rightarrow> boot_run" where
  "demo_run i = \<lparr>br_argv = [i], br_environ = Map.empty, br_python = ''3.14'', br_openssl = ''3.5'', br_start = ''t'',
     br_duration = ''0.5'', br_draw = (\<lambda>i. \<lparr>dr_entropy = \<lparr>seed = i, serial = int i + 1, now = 0\<rparr>, dr_now = ''n'', dr_expiry = ''e''\<rparr>)\<rparr>"

lemma demo_float: "float_lit ''0.5''"
proof -
  have "parse_val (Suc n) (''0.5'' @ r) = JOk (VFloat ''0.5'') r" if "num_stop r" for n r
  proof -
    have "takeWhile is_digit r = []" "dropWhile is_digit r = r" using that by (cases r; simp add: num_stop_def)+
    then show ?thesis
      using scan_exp_stop [OF that]
      by (simp add: parse_val.simps(2) scan_atom_def json_lits_def scan_number_def is_digit_def)
  qed
  then show ?thesis by (simp add: float_lit_def is_ws_def printable_def)
qed

lemma demo_yaml: "b_yaml demo_boot = json_yaml"
  by (simp add: demo_boot_def)

lemma demo_tests: "tests_tidy demo_boot"
proof -
  have "p \<noteq> ''pki/trust_store_malformed.yaml''" if "p \<in> pki_paths \<union> {rl_path, runs_file}" for p
    using that by (auto simp: pki_paths_def tree_paths_def private_key_paths_def runs_file_def)
  then show ?thesis by (simp add: tests_tidy_def demo_boot_def modes_write_other)
qed

lemma demo_given: "ascii i \<Longrightarrow> run_given (demo_run i)"
  using demo_float
  by (simp add: demo_run_def run_given_def getenv_def ascii_valid draw_ok_def days_def) (simp add: ascii_valid ascii_def)

lemma demo_boot_ready:
  "boot_laws demo_boot" "tests_tidy demo_boot" "startable B fs_empty"
  "rl_load y rl_path fs_empty = Inr \<lparr>rl_entries = []\<rparr>" "runs_of fs_empty = Inr (VList [])"
  "ascii i \<Longrightarrow> run_given (demo_run i)"
  using demo_crypto_laws demo_builder json_yaml_roundtrip demo_tests demo_given
  by (simp_all add: demo_boot_def boot_laws_def builder_accepts_def startable_def fs_empty_def rl_load_def path_exists_def runs_of_def)

theorem bootstrap_revokes_what_it_trusts_witness:
  "\<exists>fs' fp rl' ts. snd (bootstrap_main demo_boot (demo_run ''r'') fs_empty) = fs'
    \<and> rl_load json_yaml rl_path fs' = Inr rl' \<and> VStr fp \<in> rev_fingerprint ` set (rl_entries rl')
    \<and> TrustStore_init json_yaml ''pki/trust_store.yaml'' rl_path fs' = Inr ts
    \<and> py_getitem (get_agency ts ''RAW'') ''tls_certificate_fingerprint'' = Inr (VStr fp)
    \<and> is_revoked ts (VStr fp) = Inr False"
proof -
  have "run_given (demo_run ''r'')" by (rule demo_boot_ready(6)) (simp add: ascii_def)
  from bootstrap_revokes_what_it_trusts [OF demo_boot_ready(1,2) this demo_boot_ready(3,4) _ demo_boot_ready(5)] show ?thesis
    unfolding demo_yaml by (simp del: py_getitem.simps) (metis snd_conv)
qed

text \<open>
  C37: the bootstrap can be repeated. From an empty tree, any number of runs goes through, each with
  the exit status of its tests. The record then has one entry per run, in their order and with
  these statuses, and the revocation list one entry per run, all for the certificate that is in
  place for RAW. The first run creates every key, certificate and trust store of the two
  hierarchies; later runs create no new ones: all these files and their modes are the first run's.
\<close>

theorem bootstrap_repeatable:
  assumes "boot_laws B" and "tests_tidy B" and "\<forall>R \<in> set Rs. run_given R" and "Rs \<noteq> []"
    and "files fs ''pki/trust_store.yaml'' = None" and "files fs rl_path = None" and "files fs runs_file = None"
  shows "boot_outcomes B Rs fs = map script_exit (boot_statuses B Rs fs)
    \<and> runs_of (boot_runs B Rs fs) = Inr (VList (map2 run_entry Rs (boot_statuses B Rs fs)))
    \<and> (\<exists>c. files (boot_runs B Rs fs) ''pki/gateway_raw/raw_gateway.crt'' = Some (pem_cert (b_crypto B) c)
        \<and> rl_load (b_yaml B) rl_path (boot_runs B Rs fs) = Inr \<lparr>rl_entries = map (\<lambda>R. raw_revocation B R c) Rs\<rparr>)
    \<and> (\<forall>p \<in> pki_paths. files (boot_runs B Rs fs) p \<noteq> None
        \<and> files (boot_runs B Rs fs) p = files (snd (bootstrap_main B (hd Rs) fs)) p
        \<and> modes (boot_runs B Rs fs) p = modes (snd (bootstrap_main B (hd Rs) fs)) p)"
proof -
  from assms(4) obtain R Rs' where Rs: "Rs = R # Rs'" by (cases Rs) auto
  have rt: "run_given R" "\<forall>R \<in> set Rs'. run_given R" using assms(3) by (simp_all add: Rs)
  have s: "startable B fs" "rl_load (b_yaml B) rl_path fs = Inr \<lparr>rl_entries = []\<rparr>" "runs_of fs = Inr (VList [])"
    using assms(5-7) by (simp_all add: startable_def rl_load_def path_exists_def runs_of_def)
  have n: "list_all rev_plain (rl_entries \<lparr>rl_entries = []\<rparr>)" "\<forall>x \<in> set []. indent_ok x" by simp_all
  obtain c0 c1 c2 pk1 pk2 r rc fs' where b:
    "bootstrap_main B R fs = (script_exit rc, fs')" "rc = tests_status B R fs"
    "tree B c0 c1 c2 pk1 pk2 r fs'"
    "files fs' rl_path = files (rl_save (b_yaml B) rl_path (rl_add (raw_revocation B R c1) \<lparr>rl_entries = []\<rparr>) fs) rl_path"
    "list_all rev_plain (rl_entries (rl_add (raw_revocation B R c1) \<lparr>rl_entries = []\<rparr>))"
    "runs_of fs' = Inr (VList ([] @ [run_entry R rc]))" "indent_ok (run_entry R rc)"
    and keep: "if files fs ''pki/trust_store.yaml'' = None then \<forall>p \<in> pki_paths. files fs' p \<noteq> None
      else \<forall>p \<in> pki_paths. files fs' p = files fs p \<and> modes fs' p = modes fs p"
    by (rule bootstrap_run [OF assms(1,2) rt(1) s(1,2) n(1) s(3) n(2)]) blast
  have l: "rl_load (b_yaml B) rl_path fs' = Inr (rl_add (raw_revocation B R c1) \<lparr>rl_entries = []\<rparr>)"
    using rl_load_cong [OF b(4)] rl_load_save [OF _ b(5)] assms(1) by (simp add: boot_laws_def)
  have p: "\<forall>p \<in> pki_paths. files fs' p \<noteq> None" "''pki/gateway_raw/raw_gateway.crt'' \<in> pki_paths"
    using keep assms(5) by (simp_all add: pki_paths_def tree_paths_def)
  have raw: "files fs' ''pki/gateway_raw/raw_gateway.crt'' = Some (pem_cert (b_crypto B) c1)" using b(3) by (simp add: tree_def)
  from boot_again [OF assms(1,2) rt(2) b(3) l b(5,6)] b(1,2,7) p raw show ?thesis by (simp add: Rs rl_add_def) blast
qed

theorem bootstrap_repeatable_witness:
  "\<exists>fs'. fs' = boot_runs demo_boot [demo_run ''a'', demo_run ''b''] fs_empty
    \<and> runs_of fs' = Inr (VList [run_entry (demo_run ''a'') 1, run_entry (demo_run ''b'') 1])
    \<and> (\<exists>c. rl_load json_yaml rl_path fs'
        = Inr \<lparr>rl_entries = [raw_revocation demo_boot (demo_run ''a'') c, raw_revocation demo_boot (demo_run ''b'') c]\<rparr>)
    \<and> files fs' ''pki/ca_ecdsa/root_ca.key'' \<noteq> None
    \<and> files fs' ''pki/ca_ecdsa/root_ca.key'' = files (snd (bootstrap_main demo_boot (demo_run ''a'') fs_empty)) ''pki/ca_ecdsa/root_ca.key''"
proof -
  have "ascii ''a''" "ascii ''b''" by (simp_all add: ascii_def)
  then have r: "\<forall>R \<in> set [demo_run ''a'', demo_run ''b'']. run_given R" using demo_boot_ready(6) by simp
  have st: "tests_status demo_boot R fs = 1" for R fs by (simp add: tests_status_def demo_boot_def)
  have k: "''pki/ca_ecdsa/root_ca.key'' \<in> pki_paths" by (simp add: pki_paths_def)
  let ?Rs = "[demo_run ''a'', demo_run ''b'']"
  have e: "?Rs \<noteq> []" "files fs_empty p = None" for p by (simp_all add: fs_empty_def)
  have m: "map2 run_entry ?Rs (boot_statuses demo_boot ?Rs fs_empty) = [run_entry (demo_run ''a'') 1, run_entry (demo_run ''b'') 1]"
    by (simp add: st)
  note w = bootstrap_repeatable [OF demo_boot_ready(1,2) r e(1) e(2) e(2) e(2), unfolded demo_yaml m]
  then obtain c where "rl_load json_yaml rl_path (boot_runs demo_boot ?Rs fs_empty)
      = Inr \<lparr>rl_entries = map (\<lambda>R. raw_revocation demo_boot R c) ?Rs\<rparr>" by blast
  with w k show ?thesis by (auto simp del: boot_runs.simps)
qed

end
