(* ===== verification/Bench_Telemetry.thy ===== *)
theory Bench_Telemetry
  imports Gateway_A_Models Gateway_B_Policy
begin

text \<open>
  The telemetry collector of the benchmark runner (\<open>benchmark_runner/telemetry.py\<close>): reading the
  JSON lines that the two gateways log, keeping the acknowledged transactions and joining the two
  sides on the transaction id.

  A data frame is the list of its rows, a row an association list from column names to values.
  \<open>pandas.merge\<close> is a parameter with the law \<open>merge_law\<close>: an inner join in the order of the left
  frame, for frames that share no other column.
\<close>

section \<open>Lines\<close>

text \<open>A file opened in text mode: every kind of line end is read as a line feed.\<close>

fun universal_newlines :: "string \<Rightarrow> string" where
  "universal_newlines [] = []"
| "universal_newlines [c] = [if c = CHR 0x0D then CHR 0x0A else c]"
| "universal_newlines (c # d # s) =
     (if c = CHR 0x0D then CHR 0x0A # universal_newlines (if d = CHR 0x0A then s else d # s)
      else c # universal_newlines (d # s))"

definition file_lines :: "string \<Rightarrow> string list" where
  "file_lines s =
     (let ls = str_split (CHR 0x0A) (universal_newlines s)
      in if last ls = [] then butlast ls else ls)"

definition parse_line :: "string \<Rightarrow> pyval list \<Rightarrow> pyval list result" where
  "parse_line line events =
     (let l = str_strip line
      in if l = [] then Inr events
         else case json_loads l of
           Inr v \<Rightarrow> Inr (events @ [v])
         | Inl e \<Rightarrow> if e = JSONDecodeError then Inr events else Inl e)"

definition parse_jsonl :: "fsys \<Rightarrow> string \<Rightarrow> pyval list result" where
  "parse_jsonl fs path =
     (if \<not> path_exists path fs then Inr []
      else rbind (read_file path fs) (\<lambda>s.
        if \<not> valid_text s then Inl UnicodeError
        else rfold parse_line (file_lines s) []))"

section \<open>Rows\<close>

definition upper_char :: "char \<Rightarrow> char" where
  "upper_char c = (if CHR ''a'' \<le> c \<and> c \<le> CHR ''z'' then char_of (of_char c - (32::nat)) else c)"

definition str_upper :: "string \<Rightarrow> string" where
  "str_upper = map upper_char"

definition is_acked :: "pyval \<Rightarrow> bool result" where
  "is_acked e =
     rbind (py_get e ''state'' (VStr [])) (\<lambda>s.
       case s of VStr t \<Rightarrow> Inr (str_upper t = ''ACKED'') | _ \<Rightarrow> Inl AttributeError)"

fun rfilter :: "('a \<Rightarrow> bool result) \<Rightarrow> 'a list \<Rightarrow> 'a list result" where
  "rfilter p [] = Inr []"
| "rfilter p (x # xs) =
     rbind (p x) (\<lambda>b. rbind (rfilter p xs) (\<lambda>ys. Inr (if b then x # ys else ys)))"

type_synonym row = "(string \<times> pyval) list"
type_synonym frame = "row list"

text \<open>\<open>{"tx_id": e["transaction_id"], **e["telemetry"]}\<close>.\<close>

definition event_row :: "pyval \<Rightarrow> row result" where
  "event_row e =
     rbind (py_getitem e ''transaction_id'') (\<lambda>i.
     rbind (py_getitem e ''telemetry'') (\<lambda>t.
       case t of
         VDict d \<Rightarrow> Inr (foldl (\<lambda>r (k, v). AList.update k v r) [(''tx_id'', i)] d)
       | _ \<Rightarrow> Inl TypeError))"

section \<open>The collector\<close>

record TelemetryCollector =
  path_a :: string
  path_b :: string

definition TelemetryCollector_default :: TelemetryCollector where
  "TelemetryCollector_default =
     \<lparr>path_a = ''results/phase5/evidence/telemetry_a.jsonl'',
      path_b = ''results/phase5/evidence/telemetry_b.jsonl''\<rparr>"

definition collect :: "(frame \<Rightarrow> frame \<Rightarrow> frame result) \<Rightarrow> fsys \<Rightarrow> TelemetryCollector \<Rightarrow> frame result" where
  "collect pd_merge fs c =
     rbind (parse_jsonl fs (path_a c)) (\<lambda>a_events.
     rbind (parse_jsonl fs (path_b c)) (\<lambda>b_events.
     rbind (rfilter is_acked a_events) (\<lambda>a_acked.
     rbind (rfilter is_acked b_events) (\<lambda>b_acked.
       if a_acked = [] \<or> b_acked = [] then Inr []
       else rbind (rmap event_row a_acked) (\<lambda>df_a.
            rbind (rmap event_row b_acked) (\<lambda>df_b. pd_merge df_a df_b))))))"

section \<open>The join\<close>

definition columns :: "frame \<Rightarrow> string set" where
  "columns df = (\<Union>r \<in> set df. fst ` set r)"

definition join_rows :: "row \<Rightarrow> row \<Rightarrow> row" where
  "join_rows a b = a @ filter (\<lambda>(k, _). k \<noteq> ''tx_id'') b"

definition inner_join :: "frame \<Rightarrow> frame \<Rightarrow> frame" where
  "inner_join l r =
     concat (map (\<lambda>a. map (join_rows a) (filter (\<lambda>b. map_of b ''tx_id'' = map_of a ''tx_id'') r)) l)"

definition has_text_id :: "row \<Rightarrow> bool" where
  "has_text_id r = (case map_of r ''tx_id'' of Some (VStr _) \<Rightarrow> True | _ \<Rightarrow> False)"

text \<open>What \<open>pandas.merge(l, r, on="tx_id")\<close> promises for frames that have rows and text
  ids. A frame without rows has no columns, and merging it raises an error.\<close>

definition merge_law :: "(frame \<Rightarrow> frame \<Rightarrow> frame result) \<Rightarrow> bool" where
  "merge_law pd_merge =
     (\<forall>l r. l \<noteq> [] \<longrightarrow> r \<noteq> [] \<longrightarrow> list_all has_text_id l \<longrightarrow> list_all has_text_id r \<longrightarrow>
        columns l \<inter> columns r \<subseteq> {''tx_id''} \<longrightarrow> pd_merge l r = Inr (inner_join l r))"

section \<open>Lemmas\<close>

lemma universal_newlines_id: "CHR 0x0D \<notin> set s \<Longrightarrow> universal_newlines s = s"
  by (induction s rule: universal_newlines.induct) auto

lemma str_split_append:
  "c \<notin> set l \<Longrightarrow> str_split c (l @ c # s) = l # str_split c s"
  by (induction l) auto

lemma str_split_nonempty [simp]: "str_split c s \<noteq> []"
  by (induction c s rule: str_split.induct) (auto split: list.splits if_splits)

definition no_breaks :: "string \<Rightarrow> bool" where
  "no_breaks l = (CHR 0x0A \<notin> set l \<and> CHR 0x0D \<notin> set l)"

abbreviation lines_text :: "string list \<Rightarrow> string" where
  "lines_text ls \<equiv> concat (map (\<lambda>l. l @ [CHR 0x0A]) ls)"

lemma str_split_lines:
  "list_all no_breaks ls \<Longrightarrow> str_split (CHR 0x0A) (lines_text ls) = ls @ [[]]"
  by (induction ls) (auto simp: str_split_append no_breaks_def)

lemma file_lines_text:
  assumes "list_all no_breaks ls"
  shows "file_lines (lines_text ls) = ls"
proof -
  have "CHR 0x0D \<notin> set (lines_text ls)"
    using assms by (induction ls) (auto simp: no_breaks_def)
  then show ?thesis using str_split_lines [OF assms] by (simp add: file_lines_def universal_newlines_id)
qed

text \<open>The events of one line, and of a list of lines.\<close>

definition line_events :: "string \<Rightarrow> pyval list" where
  "line_events line = (case json_loads (str_strip line) of Inr v \<Rightarrow> [v] | Inl _ \<Rightarrow> [])"

definition line_ok :: "string \<Rightarrow> bool" where
  "line_ok line = (case json_loads (str_strip line) of Inr v \<Rightarrow> True | Inl e \<Rightarrow> e = JSONDecodeError)"

lemma parse_line_events: "line_ok l \<Longrightarrow> parse_line l es = Inr (es @ line_events l)"
  by (auto simp: parse_line_def line_ok_def line_events_def Let_def json_loads_empty split: sum.splits)

lemma parse_lines_events:
  "list_all line_ok ls \<Longrightarrow> rfold parse_line ls es = Inr (es @ concat (map line_events ls))"
  by (induction ls arbitrary: es) (auto simp: parse_line_events)

lemma str_strip_ends:
  assumes "s \<noteq> []" "\<not> is_space (hd s)" "\<not> is_space (last s)"
  shows "str_strip s = s"
proof -
  have "dropWhile is_space s = s" using assms(1,2) by (cases s) auto
  moreover have "dropWhile is_space (rev s) = rev s" using assms(1,3) by (cases s rule: rev_cases) auto
  ultimately show ?thesis by (simp add: str_strip_def)
qed

lemma dict_line:
  assumes "json_ok (VDict d)"
  shows "line_events (json_dumps (VDict d)) = [VDict d]" "line_ok (json_dumps (VDict d))"
    "no_breaks (json_dumps (VDict d))"
proof -
  have "str_strip (json_dumps (VDict d)) = json_dumps (VDict d)"
    by (rule str_strip_ends) (simp_all add: is_space_def)
  then show "line_events (json_dumps (VDict d)) = [VDict d]" "line_ok (json_dumps (VDict d))"
    using json_loads_dumps [OF assms] by (simp_all add: line_events_def line_ok_def del: json_dumps.simps)
  show "no_breaks (json_dumps (VDict d))"
    using printable_dumps(1) [OF assms, of "CHR 0x0A"] printable_dumps(1) [OF assms, of "CHR 0x0D"]
    by (auto simp: no_breaks_def printable_def simp del: json_dumps.simps)
qed

text \<open>A file of printed dictionaries is read back as these dictionaries.\<close>

primrec jsonl :: "row list \<Rightarrow> string" where
  "jsonl [] = []"
| "jsonl (d # ds) = json_dumps (VDict d) @ [CHR 0x0A] @ jsonl ds"

lemma parse_jsonl_printed:
  assumes "files fs p = Some (jsonl ds)" and "\<forall>d \<in> set ds. json_ok (VDict d)"
  shows "parse_jsonl fs p = Inr (map VDict ds)"
proof -
  let ?ls = "map (\<lambda>d. json_dumps (VDict d)) ds"
  have l: "list_all no_breaks ?ls" "list_all line_ok ?ls"
    using assms(2) dict_line(2,3) by (auto simp: list_all_iff simp del: json_dumps.simps)
  have e: "concat (map line_events ?ls) = map VDict ds" and j: "jsonl ds = lines_text ?ls"
    using assms(2) by (induction ds) (simp_all add: dict_line(1) del: json_dumps.simps)
  have "ascii (jsonl ds)"
    using assms(2) dumps_ascii by (induction ds) (auto simp: ascii_def octets_def simp del: json_dumps.simps)
  then show ?thesis
    using assms(1) file_lines_text [OF l(1)] parse_lines_events [OF l(2), of "[]"] e
    by (simp add: parse_jsonl_def path_exists_def read_file_def ascii_valid del: json_dumps.simps map_map)
      (simp add: j del: json_dumps.simps map_map)
qed

lemma foldl_update_append:
  "distinct (map fst d) \<Longrightarrow> fst ` set d \<inter> fst ` set r = {} \<Longrightarrow>
     foldl (\<lambda>r (k, v). AList.update k v r) r d = r @ d"
proof (induction d arbitrary: r)
  case (Cons kv d)
  obtain k v where kv: "kv = (k, v)" by force
  have "k \<notin> fst ` set r" using Cons.prems(2) kv by auto
  then have "AList.update k v r = r @ [(k, v)]"
    by (induction r) auto
  with Cons kv show ?case by auto
qed simp

subsection \<open>What the gateways log\<close>

text \<open>
  A log event: Gateway A logs a transaction, or Gateway B an acknowledged id with its three times.
\<close>

type_synonym log_event = "GatewayATransaction + string \<times> int \<times> int \<times> int"

fun log_event :: "log_event \<Rightarrow> fsys \<Rightarrow> fsys" where
  "log_event (Inl t) fs = log_telemetry t fs"
| "log_event (Inr (i, r, v, g)) fs = log_telemetry_b i r v g ''ACKED'' fs"

fun a_log :: "log_event list \<Rightarrow> GatewayATransaction list" where
  "a_log [] = []"
| "a_log (Inl t # es) = t # a_log es"
| "a_log (Inr x # es) = a_log es"

fun b_log :: "log_event list \<Rightarrow> (string \<times> int \<times> int \<times> int) list" where
  "b_log [] = []"
| "b_log (Inl t # es) = b_log es"
| "b_log (Inr x # es) = x # b_log es"

definition dict_a :: "GatewayATransaction \<Rightarrow> row" where
  "dict_a t = [(''transaction_id'', VStr (tx_id t)), (''state'', VStr (TransactionState_value (tx_state t))),
     (''telemetry'', VDict (tx_telemetry t))]"

definition b_clocks :: "int \<times> int \<times> int \<Rightarrow> row" where
  "b_clocks c = (case c of (r, v, g) \<Rightarrow>
     [(''t_received_b'', VInt r), (''t_verified_b'', VInt v), (''t_ingested_b'', VInt g)])"

definition dict_b :: "string \<times> int \<times> int \<times> int \<Rightarrow> row" where
  "dict_b x = [(''transaction_id'', VStr (fst x)), (''state'', VStr ''ACKED''), (''telemetry'', VDict (b_clocks (snd x)))]"

lemma log_vals: "telemetry_val_a t = VDict (dict_a t)"
  "telemetry_val_b i r v g ''ACKED'' = VDict (dict_b (i, r, v, g))"
  by (simp_all add: telemetry_val_a_def dict_a_def telemetry_val_b_def dict_b_def b_clocks_def)

lemma files_logged:
  "files (fold log_event es fs) TELEMETRY_FILE_A =
     (if a_log es = [] then files fs TELEMETRY_FILE_A
      else Some ((case files fs TELEMETRY_FILE_A of None \<Rightarrow> [] | Some c \<Rightarrow> c)
        @ jsonl (map dict_a (a_log es))))"
  "files (fold log_event es fs) TELEMETRY_FILE_B =
     (if b_log es = [] then files fs TELEMETRY_FILE_B
      else Some ((case files fs TELEMETRY_FILE_B of None \<Rightarrow> [] | Some c \<Rightarrow> c)
        @ jsonl (map dict_b (b_log es))))"
proof (induction es arbitrary: fs)
  case (Cons e es)
  have n: "TELEMETRY_FILE_A \<noteq> TELEMETRY_FILE_B" by (simp add: TELEMETRY_FILE_A_def TELEMETRY_FILE_B_def)
  {
    case 1
    show ?case using Cons.IH(1) n
      by (cases e) (auto simp: log_telemetry_def log_telemetry_b_def log_vals
          simp del: json_dumps.simps split: option.split)
  next
    case 2
    show ?case using Cons.IH(2) n
      by (cases e) (auto simp: log_telemetry_def log_telemetry_b_def log_vals
          simp del: json_dumps.simps split: option.split)
  }
qed simp_all

text \<open>The keys that Gateway A's workers put in the telemetry of a transaction.\<close>

definition a_clock_names :: "string list" where
  "a_clock_names = [''t_received'', ''t_extracted'', ''t_signed'', ''t_acked'', ''retry_count'']"

definition row_a :: "GatewayATransaction \<Rightarrow> row" where
  "row_a t = (''tx_id'', VStr (tx_id t)) # tx_telemetry t"

definition row_b :: "string \<times> int \<times> int \<times> int \<Rightarrow> row" where
  "row_b x = (''tx_id'', VStr (fst x)) # b_clocks (snd x)"

definition loggable :: "GatewayATransaction \<Rightarrow> bool" where
  "loggable t = (tx_state t = ACKED \<and> distinct (map fst (tx_telemetry t))
     \<and> fst ` set (tx_telemetry t) \<subseteq> set a_clock_names \<and> json_ok (telemetry_val_a t))"

lemma upper_acked: "str_upper ''acked'' = ''ACKED''" "str_upper ''ACKED'' = ''ACKED''"
  by (simp_all add: str_upper_def upper_char_def less_eq_char_def char_of_eq_iff)

lemma acked_a: "tx_state t = ACKED \<Longrightarrow> is_acked (VDict (dict_a t)) = Inr True"
  and acked_b: "is_acked (VDict (dict_b x)) = Inr True"
  by (simp_all add: is_acked_def dict_a_def dict_b_def upper_acked)

lemma event_row_a: "loggable t \<Longrightarrow> event_row (VDict (dict_a t)) = Inr (row_a t)"
proof -
  assume t: "loggable t"
  then have "''tx_id'' \<notin> fst ` set (tx_telemetry t)" by (auto simp: loggable_def a_clock_names_def)
  with t foldl_update_append [of "tx_telemetry t" "[(''tx_id'', VStr (tx_id t))]"] show ?thesis
    by (simp add: event_row_def dict_a_def row_a_def loggable_def)
qed

lemma event_row_b: "event_row (VDict (dict_b x)) = Inr (row_b x)"
  by (simp add: event_row_def dict_b_def row_b_def b_clocks_def split: prod.split)

lemma rfilter_all: "\<forall>x \<in> set xs. p x = Inr True \<Longrightarrow> rfilter p xs = Inr xs"
  by (induction xs) auto

text \<open>Each side of the collector returns the events of its gateway.\<close>

lemma parse_jsonl_logged:
  assumes "files fs TELEMETRY_FILE_A = None" "files fs TELEMETRY_FILE_B = None"
    and "\<forall>t \<in> set (a_log es). loggable t" "\<forall>x \<in> set (b_log es). json_ok (VDict (dict_b x))"
  shows "parse_jsonl (fold log_event es fs) TELEMETRY_FILE_A = Inr (map VDict (map dict_a (a_log es)))"
    and "parse_jsonl (fold log_event es fs) TELEMETRY_FILE_B = Inr (map VDict (map dict_b (b_log es)))"
proof -
  have o: "\<forall>d \<in> set (map dict_a (a_log es)). json_ok (VDict d)"
    "\<forall>d \<in> set (map dict_b (b_log es)). json_ok (VDict d)"
    using assms(3,4) by (auto simp: loggable_def log_vals)
  show "parse_jsonl (fold log_event es fs) TELEMETRY_FILE_A = Inr (map VDict (map dict_a (a_log es)))"
  proof (cases "a_log es = []")
    case True
    then show ?thesis using files_logged(1) [of es fs] assms(1) by (simp add: parse_jsonl_def path_exists_def)
  next
    case False
    then show ?thesis
      using files_logged(1) [of es fs] assms(1) by (intro parse_jsonl_printed o) simp
  qed
  show "parse_jsonl (fold log_event es fs) TELEMETRY_FILE_B = Inr (map VDict (map dict_b (b_log es)))"
  proof (cases "b_log es = []")
    case True
    then show ?thesis using files_logged(2) [of es fs] assms(2) by (simp add: parse_jsonl_def path_exists_def)
  next
    case False
    then show ?thesis
      using files_logged(2) [of es fs] assms(2) by (intro parse_jsonl_printed o) simp
  qed
qed

lemma text_ids: "has_text_id (row_a t)" "has_text_id (row_b x)"
  by (simp_all add: has_text_id_def row_a_def row_b_def)

lemma join_logged:
  "inner_join (map row_a ts) (map row_b xs) =
     concat (map (\<lambda>t. map (\<lambda>x. row_a t @ b_clocks (snd x)) (filter (\<lambda>x. fst x = tx_id t) xs)) ts)"
proof -
  have k: "filter (\<lambda>(k, _). k \<noteq> ''tx_id'') (row_b x) = b_clocks (snd x)" for x
    by (simp add: row_b_def b_clocks_def split: prod.split)
  have "map (join_rows (row_a t)) (filter (\<lambda>b. map_of b ''tx_id'' = map_of (row_a t) ''tx_id'') (map row_b xs))
      = map (\<lambda>x. row_a t @ b_clocks (snd x)) (filter (\<lambda>x. fst x = tx_id t) xs)" for t
    by (induction xs) (auto simp: join_rows_def k, auto simp: row_a_def row_b_def)
  then show ?thesis by (simp add: inner_join_def comp_def)
qed

lemma columns_disjoint:
  assumes "\<forall>t \<in> set ts. loggable t"
  shows "columns (map row_a ts) \<inter> columns (map row_b xs) \<subseteq> {''tx_id''}"
proof -
  have "columns (map row_a ts) \<subseteq> insert ''tx_id'' (set a_clock_names)"
    using assms by (auto simp: columns_def row_a_def loggable_def)
  moreover have "columns (map row_b xs) \<subseteq> {''tx_id'', ''t_received_b'', ''t_verified_b'', ''t_ingested_b''}"
    by (auto simp: columns_def row_b_def b_clocks_def)
  ultimately show ?thesis by (auto simp: a_clock_names_def)
qed

section \<open>Properties\<close>

text \<open>
  C34: what the gateways log is what the benchmark sees. Start from no telemetry files and let the
  two gateways log in any interleaving: the collector returns, for every transaction that Gateway
  A logged as acknowledged and in that order, one row for every entry of Gateway B under the same
  id, with the clocks of both sides, and nothing else.
\<close>

theorem telemetry_collected:
  assumes "merge_law pd_merge"
    and "files fs TELEMETRY_FILE_A = None" and "files fs TELEMETRY_FILE_B = None"
    and "\<forall>t \<in> set (a_log es). loggable t" and "\<forall>x \<in> set (b_log es). json_ok (VDict (dict_b x))"
  shows "collect pd_merge (fold log_event es fs) TelemetryCollector_default =
    Inr (concat (map (\<lambda>t. map (\<lambda>x. row_a t @ b_clocks (snd x)) (filter (\<lambda>x. fst x = tx_id t) (b_log es)))
      (a_log es)))"
proof -
  let ?A = "map VDict (map dict_a (a_log es))" and ?B = "map VDict (map dict_b (b_log es))"
  note p = parse_jsonl_logged [OF assms(2-5), unfolded TELEMETRY_FILE_A_def TELEMETRY_FILE_B_def]
  have f: "rfilter is_acked ?A = Inr ?A" "rfilter is_acked ?B = Inr ?B"
    using assms(4) by (auto intro!: rfilter_all acked_a acked_b simp: loggable_def)
  have "rmap event_row ?A = Inr (map row_a (a_log es))" "rmap event_row ?B = Inr (map row_b (b_log es))"
    using assms(4) by (auto simp: rmap_map event_row_a event_row_b intro!: rmap_Inr)
  moreover have "pd_merge (map row_a (a_log es)) (map row_b (b_log es))
      = Inr (inner_join (map row_a (a_log es)) (map row_b (b_log es)))" if "a_log es \<noteq> []" "b_log es \<noteq> []"
    using that assms(1) columns_disjoint [OF assms(4), of "b_log es"]
    by (simp add: merge_law_def list_all_iff text_ids)
  moreover have "inner_join [] r = []" "inner_join l [] = []" for l r by (simp_all add: inner_join_def)
  ultimately show ?thesis
    unfolding collect_def TelemetryCollector_default_def TelemetryCollector.simps p rbind.simps f join_logged [symmetric]
    by simp
qed

definition demo_logged :: GatewayATransaction where
  "demo_logged = new_transaction ''tx-1'' ''2026-01-01T00:00:00'' 1767225600000
     \<lparr>bundle_id = VStr ''b'', raw_json = [1, 2], sb_tlp_marking = AMBER, misp_event_uuid = VStr ''u''\<rparr>
     ACKED [(''t_received'', VInt 10), (''retry_count'', VInt 1)]"

lemma demo_loggable: "loggable demo_logged" "json_ok (VDict (dict_b (''tx-1'', 20, 30, 5000010)))"
  by (simp_all add: loggable_def demo_logged_def new_transaction_def a_clock_names_def telemetry_val_a_def dict_b_def
      b_clocks_def ascii_valid ascii_def show_nat.simps)

definition demo_merge :: "frame \<Rightarrow> frame \<Rightarrow> frame result" where
  "demo_merge l r = (if l = [] \<or> r = [] then Inl KeyError else Inr (inner_join l r))"

theorem telemetry_collected_witness:
  "collect demo_merge
     (fold log_event [Inl demo_logged, Inr (''tx-1'', 20, 30, 5000010)] fs_empty) TelemetryCollector_default =
   Inr [[(''tx_id'', VStr ''tx-1''), (''t_received'', VInt 10), (''retry_count'', VInt 1),
         (''t_received_b'', VInt 20), (''t_verified_b'', VInt 30), (''t_ingested_b'', VInt 5000010)]]"
proof -
  have "merge_law demo_merge" by (simp add: merge_law_def demo_merge_def)
  from telemetry_collected [OF this, of fs_empty "[Inl demo_logged, Inr (''tx-1'', 20, 30, 5000010)]"] demo_loggable
  show ?thesis
    by (simp add: fs_empty_def row_a_def b_clocks_def demo_logged_def new_transaction_def del: json_ok.simps)
qed

end
