(* ===== verification/Bench_Metrics.thy ===== *)
theory Bench_Metrics
  imports Bench_Telemetry Complex_Main
begin

text \<open>
  The metrics of a benchmark run (\<open>benchmark_runner/metrics.py\<close>) and its configuration
  (\<open>benchmark_runner/config.py\<close>). Latencies are exact real numbers; the rounding of floating-point
  arithmetic is not modelled. The statistics of \<open>pandas\<close> are parameters, the record \<open>pandas_lib\<close>,
  with the laws \<open>stats_law\<close> that its documentation gives: missing values are left out, quantiles
  are interpolated linearly between the sorted values, the median is the middle quantile and the
  deviation is that of a sample.
\<close>

section \<open>Configuration\<close>

record CryptoConfig =
  cc_group :: string
  a_cert_path :: string
  a_key_path :: string
  a_payload_key_path :: string
  a_ca_trust_path :: string
  b_cert_path :: string
  b_key_path :: string
  b_ca_trust_path :: string
  cc_trust_store_path :: string

definition CLASSICAL :: CryptoConfig where
  "CLASSICAL =
     \<lparr>cc_group = ''X25519'',
      a_cert_path = ''pki/gateway_raw/raw_gateway_ecdsa.crt'',
      a_key_path = ''pki/gateway_raw/raw_gateway_ecdsa.key'',
      a_payload_key_path = ''pki/gateway_raw/raw_ecdsa256.pem'',
      a_ca_trust_path = ''pki/ca_ecdsa/root_ca.crt'',
      b_cert_path = ''pki/gateway_nia/nia_gateway_ecdsa.crt'',
      b_key_path = ''pki/gateway_nia/nia_gateway_ecdsa.key'',
      b_ca_trust_path = ''pki/ca_ecdsa/root_ca.crt'',
      cc_trust_store_path = ''pki/trust_store_classical.yaml''\<rparr>"

definition HYBRID_PQC :: CryptoConfig where
  "HYBRID_PQC =
     \<lparr>cc_group = ''X25519MLKEM768'',
      a_cert_path = ''pki/gateway_raw/raw_gateway.crt'',
      a_key_path = ''pki/gateway_raw/raw_gateway.key'',
      a_payload_key_path = ''pki/gateway_raw/raw_ml_dsa65.pem'',
      a_ca_trust_path = ''pki/ca/root_ca.crt'',
      b_cert_path = ''pki/gateway_nia/nia_gateway.crt'',
      b_key_path = ''pki/gateway_nia/nia_gateway.key'',
      b_ca_trust_path = ''pki/ca/root_ca.crt'',
      cc_trust_store_path = ''pki/trust_store.yaml''\<rparr>"

record BenchmarkConfig =
  crypto_configs :: "CryptoConfig list"
  network_profiles :: "string list"
  bc_event_count :: int
  bc_wait_seconds :: int
  bc_evidence_dir :: string
  bc_telemetry_a_path :: string
  bc_telemetry_b_path :: string
  bc_compose_file :: string

definition BenchmarkConfig_default :: BenchmarkConfig where
  "BenchmarkConfig_default =
     \<lparr>crypto_configs = [CLASSICAL, HYBRID_PQC], network_profiles = [''stable'', ''adverse''],
      bc_event_count = 50, bc_wait_seconds = 30,
      bc_evidence_dir = ''/app/results/phase5/evidence'',
      bc_telemetry_a_path = ''/app/results/phase5/evidence/telemetry_a.jsonl'',
      bc_telemetry_b_path = ''/app/results/phase5/evidence/telemetry_b.jsonl'',
      bc_compose_file = ''/app/compose.yaml''\<rparr>"

section \<open>Columns\<close>

text \<open>A column of numbers; \<open>None\<close> is a missing value.\<close>

type_synonym series = "real option list"

record pandas_lib =
  pd_merge :: "frame \<Rightarrow> frame \<Rightarrow> frame result"
  pd_num :: "pyval \<Rightarrow> real option result"
  pd_mean :: "series \<Rightarrow> real option"
  pd_std :: "series \<Rightarrow> real option"
  pd_median :: "series \<Rightarrow> real option"
  pd_quantile :: "real \<Rightarrow> series \<Rightarrow> real option"

definition column :: "pandas_lib \<Rightarrow> frame \<Rightarrow> string \<Rightarrow> series result" where
  "column P df k =
     (if k \<notin> columns df then Inl KeyError
      else rmap (\<lambda>r. case map_of r k of None \<Rightarrow> Inr None | Some v \<Rightarrow> pd_num P v) df)"

text \<open>Arithmetic on numbers of which one may be missing.\<close>

definition opt2 :: "(real \<Rightarrow> real \<Rightarrow> real) \<Rightarrow> real option \<Rightarrow> real option \<Rightarrow> real option" where
  "opt2 f x y = (case (x, y) of (Some a, Some b) \<Rightarrow> Some (f a b) | _ \<Rightarrow> None)"

definition NS_TO_MS :: real where
  "NS_TO_MS = 1000000"

text \<open>\<open>(df["t_ingested_b"] - df["t_received"]) / NS_TO_MS\<close>.\<close>

definition latencies :: "pandas_lib \<Rightarrow> frame \<Rightarrow> series result" where
  "latencies P df =
     rbind (column P df ''t_ingested_b'') (\<lambda>ing.
     rbind (column P df ''t_received'') (\<lambda>rec.
       Inr (map2 (opt2 (\<lambda>a b. (a - b) / NS_TO_MS)) ing rec)))"

text \<open>\<open>df.iloc[d:]\<close>, where a negative \<open>d\<close> counts from the end.\<close>

definition iloc_from :: "int \<Rightarrow> 'a list \<Rightarrow> 'a list" where
  "iloc_from d xs = (if 0 \<le> d then drop (nat d) xs else drop (length xs - nat (- d)) xs)"

section \<open>Metrics\<close>

record metrics =
  median_latency_ms :: "real option"
  mean_latency_ms :: "real option"
  std_dev_ms :: "real option"
  ci_95_lower :: "real option"
  ci_95_upper :: "real option"
  p95_latency_ms :: "real option"
  p99_latency_ms :: "real option"
  p999_latency_ms :: "real option"
  mean_retries :: "real option"
  m_count :: nat

definition compute :: "pandas_lib \<Rightarrow> frame \<Rightarrow> int \<Rightarrow> metrics option result" where
  "compute P df warm_up_discard =
     (if df = [] \<or> int (length df) \<le> warm_up_discard then Inr None
      else
        (let df' = iloc_from warm_up_discard df
         in rbind (latencies P df') (\<lambda>total.
              let n = length total;
                  mean_latency = pd_mean P total;
                  std_dev = (if 1 < n then pd_std P total else Some 0);
                  margin_of_error =
                    (if 0 < n then map_option (\<lambda>s. 1.96 * (s / sqrt (real n))) std_dev else Some 0)
              in rbind (column P df' ''retry_count'') (\<lambda>retries.
                Inr (Some
                  \<lparr>median_latency_ms = pd_median P total,
                   mean_latency_ms = mean_latency,
                   std_dev_ms = std_dev,
                   ci_95_lower = opt2 (-) mean_latency margin_of_error,
                   ci_95_upper = opt2 (+) mean_latency margin_of_error,
                   p95_latency_ms = pd_quantile P 0.95 total,
                   p99_latency_ms = pd_quantile P 0.99 total,
                   p999_latency_ms = pd_quantile P 0.999 total,
                   mean_retries = pd_mean P retries,
                   m_count = n\<rparr>)))))"

section \<open>What the statistics are\<close>

definition present :: "series \<Rightarrow> real list" where
  "present s = concat (map (\<lambda>x. case x of None \<Rightarrow> [] | Some v \<Rightarrow> [v]) s)"

text \<open>The value at a position between two places of a sorted list.\<close>

definition interp :: "real list \<Rightarrow> real \<Rightarrow> real" where
  "interp xs p =
     (let i = nat \<lfloor>p\<rfloor>; a = xs ! i; b = xs ! min (Suc i) (length xs - 1)
      in a + (p - real i) * (b - a))"

definition percentile :: "real \<Rightarrow> real list \<Rightarrow> real" where
  "percentile q xs = interp (sort xs) (q * real (length xs - 1))"

definition average :: "real list \<Rightarrow> real" where
  "average xs = sum_list xs / real (length xs)"

definition deviation :: "real list \<Rightarrow> real" where
  "deviation xs = sqrt (sum_list (map (\<lambda>x. (x - average xs) ^ 2) xs) / real (length xs - 1))"

definition stats_law :: "pandas_lib \<Rightarrow> bool" where
  "stats_law P =
     ((\<forall>i. pd_num P (VInt i) = Inr (Some (of_int i)))
      \<and> (\<forall>s. present s \<noteq> [] \<longrightarrow> pd_mean P s = Some (average (present s)))
      \<and> (\<forall>s. 1 < length (present s) \<longrightarrow> pd_std P s = Some (deviation (present s)))
      \<and> (\<forall>s. present s \<noteq> [] \<longrightarrow> pd_median P s = Some (percentile (1 / 2) (present s)))
      \<and> (\<forall>q s. present s \<noteq> [] \<longrightarrow> 0 \<le> q \<longrightarrow> q \<le> 1 \<longrightarrow> pd_quantile P q s = Some (percentile q (present s))))"

section \<open>Lemmas\<close>

lemma next_place:
  fixes xs :: "real list"
  assumes "sorted xs" "i \<le> length xs - 1" "xs \<noteq> []"
  shows "xs ! i \<le> xs ! min (Suc i) (length xs - 1)"
proof -
  have "min (Suc i) (length xs - 1) < length xs" using assms(3) by (cases xs) auto
  with assms show ?thesis by (intro sorted_nth_mono) auto
qed

lemma interp_bounds:
  assumes "sorted xs" "0 \<le> p" "p \<le> real (length xs - 1)" "xs \<noteq> []"
  shows "xs ! nat \<lfloor>p\<rfloor> \<le> interp xs p" "interp xs p \<le> xs ! min (Suc (nat \<lfloor>p\<rfloor>)) (length xs - 1)"
proof -
  let ?i = "nat \<lfloor>p\<rfloor>"
  let ?a = "xs ! ?i" and ?b = "xs ! min (Suc ?i) (length xs - 1)"
  have i: "real ?i \<le> p" "p < real ?i + 1" using assms(2) by linarith+
  have "?i \<le> length xs - 1" using i(1) assms(3) by linarith
  then have ab: "?a \<le> ?b" using assms(1,4) by (intro next_place)
  have e: "interp xs p = ?a + (p - real ?i) * (?b - ?a)" by (simp add: interp_def Let_def)
  show "?a \<le> interp xs p" unfolding e using i ab by simp
  have f: "p - real ?i \<le> 1" using i by linarith
  have "(p - real ?i) * (?b - ?a) \<le> 1 * (?b - ?a)" by (rule mult_right_mono [OF f]) (use ab in simp)
  then show "interp xs p \<le> ?b" unfolding e by simp
qed

lemma interp_mono:
  assumes "sorted xs" "0 \<le> p" "p \<le> p'" "p' \<le> real (length xs - 1)" "xs \<noteq> []"
  shows "interp xs p \<le> interp xs p'"
proof -
  let ?i = "nat \<lfloor>p\<rfloor>" and ?j = "nat \<lfloor>p'\<rfloor>"
  have j: "?j \<le> length xs - 1" using assms(2-4) by linarith
  consider "?i = ?j" | "Suc ?i \<le> ?j" using assms(2,3) by (fastforce dest: floor_mono)
  then show ?thesis
  proof cases
    case 1
    have "xs ! ?j \<le> xs ! min (Suc ?j) (length xs - 1)" using assms(1,5) j by (intro next_place)
    then show ?thesis
      using 1 assms(3) by (simp add: interp_def Let_def mult_right_mono)
  next
    case 2
    have "interp xs p \<le> xs ! min (Suc ?i) (length xs - 1)"
      using interp_bounds(2) [of xs p] assms by simp
    also have "\<dots> \<le> xs ! ?j" using assms(1,5) j 2 by (intro sorted_nth_mono) auto
    also have "\<dots> \<le> interp xs p'" using interp_bounds(1) [of xs p'] assms by simp
    finally show ?thesis .
  qed
qed

lemma percentile_mono:
  assumes "xs \<noteq> []" "0 \<le> q" "q \<le> q'" "q' \<le> 1"
  shows "percentile q xs \<le> percentile q' xs"
  unfolding percentile_def
proof (rule interp_mono)
  show "q' * real (length xs - 1) \<le> real (length (sort xs) - 1)"
    using assms by (simp add: mult_left_le_one_le)
qed (use assms in \<open>auto intro: mult_right_mono\<close>, use assms in \<open>metis length_0_conv length_sort\<close>)

lemma percentile_range:
  assumes "xs \<noteq> []" "0 \<le> q" "q \<le> 1"
  shows "Min (set xs) \<le> percentile q xs" "percentile q xs \<le> Max (set xs)"
proof -
  let ?p = "q * real (length xs - 1)"
  have s: "sort xs \<noteq> []" "sorted (sort xs)" "length (sort xs) = length xs"
    using assms(1) by (auto, metis length_0_conv length_sort)
  have p: "0 \<le> ?p" "?p \<le> real (length (sort xs) - 1)" using assms by (auto simp: mult_left_le_one_le)
  have "nat \<lfloor>?p\<rfloor> \<le> length (sort xs) - 1" using p by linarith
  then have i: "nat \<lfloor>?p\<rfloor> < length (sort xs)" "min (Suc (nat \<lfloor>?p\<rfloor>)) (length (sort xs) - 1) < length (sort xs)"
    using s assms(1) by (cases xs; auto)+
  have m: "sort xs ! i \<in> set xs" if "i < length (sort xs)" for i
    using nth_mem [OF that] by simp
  show "Min (set xs) \<le> percentile q xs"
    using interp_bounds(1) [OF s(2) p s(1)] Min_le [OF _ m [OF i(1)]] by (simp add: percentile_def)
  show "percentile q xs \<le> Max (set xs)"
    using interp_bounds(2) [OF s(2) p s(1)] Max_ge [OF _ m [OF i(2)]] by (simp add: percentile_def)
qed

text \<open>Rows with both clocks, and their latencies.\<close>

definition clocked :: "row \<Rightarrow> bool" where
  "clocked r = (\<exists>i j. map_of r ''t_ingested_b'' = Some (VInt i) \<and> map_of r ''t_received'' = Some (VInt j))"

definition clock :: "string \<Rightarrow> row \<Rightarrow> real" where
  "clock k r = (case map_of r k of Some (VInt i) \<Rightarrow> of_int i | _ \<Rightarrow> 0)"

definition latency_ms :: "row \<Rightarrow> real" where
  "latency_ms r = (clock ''t_ingested_b'' r - clock ''t_received'' r) / NS_TO_MS"

definition counted :: "row \<Rightarrow> bool" where
  "counted r = (\<exists>i. map_of r ''retry_count'' = Some (VInt i))"

lemma column_clock:
  assumes "stats_law P" "df \<noteq> []" "\<forall>r \<in> set df. \<exists>i. map_of r k = Some (VInt i)"
  shows "column P df k = Inr (map (\<lambda>r. Some (clock k r)) df)"
proof -
  have "k \<in> columns df"
    using assms(2,3) by (cases df) (auto simp: columns_def dest!: map_of_SomeD intro!: rev_image_eqI)
  moreover have "rmap (\<lambda>r. case map_of r k of None \<Rightarrow> Inr None | Some v \<Rightarrow> pd_num P v) df
      = Inr (map (\<lambda>r. Some (clock k r)) df)"
    using assms(1,3) by (intro rmap_Inr) (auto simp: clock_def stats_law_def)
  ultimately show ?thesis by (simp add: column_def)
qed

lemma latencies_clocked:
  assumes "stats_law P" "df \<noteq> []" "\<forall>r \<in> set df. clocked r"
  shows "latencies P df = Inr (map (Some \<circ> latency_ms) df)"
proof -
  have "map2 (opt2 (\<lambda>a b. (a - b) / NS_TO_MS)) (map (\<lambda>r. Some (clock ''t_ingested_b'' r)) xs)
      (map (\<lambda>r. Some (clock ''t_received'' r)) xs) = map (Some \<circ> latency_ms) xs" for xs
    by (induction xs) (simp_all add: opt2_def latency_ms_def)
  then show ?thesis
    using assms column_clock [OF assms(1,2), of "''t_ingested_b''"] column_clock [OF assms(1,2), of "''t_received''"]
    by (fastforce simp: latencies_def clocked_def)
qed

lemma present_Some [simp]: "present (map (Some \<circ> f) xs) = map f xs"
  by (induction xs) (simp_all add: present_def)

lemma deviation_nonneg: "0 \<le> deviation xs"
proof -
  have "0 \<le> sum_list (map (\<lambda>x. (x - average xs) ^ 2) ys)" for ys by (induction ys) auto
  then show ?thesis by (simp add: deviation_def)
qed

section \<open>Properties\<close>

text \<open>
  C35: the metrics are consistent. For rows with both clocks and a retry count \<open>compute\<close> returns, with
  metrics exactly when rows are left after the warm-up, over exactly these rows. The confidence interval is centred on
  the mean, the median and the percentiles are ordered, and all of them lie between the smallest
  and the largest latency measured.
\<close>

theorem metrics_consistent:
  assumes "stats_law P" and "\<forall>r \<in> set df. clocked r" and "\<forall>r \<in> set df. counted r" and "0 \<le> d"
  shows "\<exists>res. compute P df d = Inr res \<and> (res = None \<longleftrightarrow> int (length df) \<le> d \<or> df = [])
    \<and> (\<forall>m. res = Some m \<longrightarrow>
        (let ls = map latency_ms (drop (nat d) df)
         in m_count m = length ls
          \<and> (\<exists>mean margin med p95 p99 p999. mean_latency_ms m = Some mean \<and> mean = average ls \<and> 0 \<le> margin
              \<and> ci_95_lower m = Some (mean - margin) \<and> ci_95_upper m = Some (mean + margin)
              \<and> median_latency_ms m = Some med \<and> p95_latency_ms m = Some p95
              \<and> p99_latency_ms m = Some p99 \<and> p999_latency_ms m = Some p999
              \<and> Min (set ls) \<le> med \<and> med \<le> p95 \<and> p95 \<le> p99 \<and> p99 \<le> p999 \<and> p999 \<le> Max (set ls))))"
proof (cases "df = [] \<or> int (length df) \<le> d")
  case True
  then show ?thesis by (auto simp: compute_def)
next
  case False
  let ?df = "drop (nat d) df" and ?ls = "map latency_ms (drop (nat d) df)"
  let ?sd = "if 1 < length ?ls then deviation ?ls else 0"
  have i: "iloc_from d df = ?df" using assms(4) by (simp add: iloc_from_def)
  have ne: "?df \<noteq> []" using False assms(4) by auto
  have l: "latencies P ?df = Inr (map (Some \<circ> latency_ms) ?df)"
    using assms(2) by (intro latencies_clocked [OF assms(1) ne]) (meson in_set_dropD)
  have sd: "0 \<le> ?sd" by (simp add: deviation_nonneg)
  have "\<forall>r \<in> set ?df. \<exists>i. map_of r ''retry_count'' = Some (VInt i)"
    using assms(3) in_set_dropD by (fastforce simp: counted_def)
  note r = column_clock [OF assms(1) ne this]
  have law: "pd_mean P (map (Some \<circ> latency_ms) ?df) = Some (average ?ls)"
    "1 < length ?ls \<Longrightarrow> pd_std P (map (Some \<circ> latency_ms) ?df) = Some (deviation ?ls)"
    "pd_median P (map (Some \<circ> latency_ms) ?df) = Some (percentile (1 / 2) ?ls)"
    "\<And>q. 0 \<le> q \<Longrightarrow> q \<le> 1 \<Longrightarrow> pd_quantile P q (map (Some \<circ> latency_ms) ?df) = Some (percentile q ?ls)"
    using assms(1) ne by (auto simp: stats_law_def)
  let ?margin = "1.96 * (?sd / sqrt (real (length ?ls)))"
  obtain m where m: "compute P df d = Inr (Some m)" "m_count m = length ?ls" "mean_latency_ms m = Some (average ?ls)"
      "ci_95_lower m = Some (average ?ls - ?margin)" "ci_95_upper m = Some (average ?ls + ?margin)"
      "median_latency_ms m = Some (percentile (1 / 2) ?ls)" "p95_latency_ms m = Some (percentile 0.95 ?ls)"
      "p99_latency_ms m = Some (percentile 0.99 ?ls)" "p999_latency_ms m = Some (percentile 0.999 ?ls)"
    using False ne law by (simp add: compute_def i l r Let_def opt2_def)
  have "0 \<le> ?margin" using sd by simp
  moreover have "?ls \<noteq> []" using ne by simp
  note ord = percentile_mono [OF this] percentile_range [OF this]
  moreover note ord(1) [of "1 / 2" "0.95"] ord(1) [of "0.95" "0.99"] ord(1) [of "0.99" "0.999"]
    ord(2) [of "1 / 2"] ord(3) [of "0.999"]
  ultimately show ?thesis using m False unfolding Let_def by auto
qed

definition demo_pandas :: pandas_lib where
  "demo_pandas =
     \<lparr>pd_merge = demo_merge,
      pd_num = (\<lambda>v. case v of VInt i \<Rightarrow> Inr (Some (of_int i)) | VNone \<Rightarrow> Inr None | _ \<Rightarrow> Inl TypeError),
      pd_mean = (\<lambda>s. if present s = [] then None else Some (average (present s))),
      pd_std = (\<lambda>s. if length (present s) \<le> 1 then None else Some (deviation (present s))),
      pd_median = (\<lambda>s. if present s = [] then None else Some (percentile (1 / 2) (present s))),
      pd_quantile = (\<lambda>q s. if present s = [] then None else Some (percentile q (present s)))\<rparr>"

lemma demo_pandas_laws: "stats_law demo_pandas" "merge_law (pd_merge demo_pandas)"
  by (simp_all add: stats_law_def merge_law_def demo_pandas_def demo_merge_def)

definition demo_frame :: frame where
  "demo_frame = map (\<lambda>(i, r, g). [(''tx_id'', VStr i), (''t_received'', VInt r), (''retry_count'', VInt 1),
     (''t_ingested_b'', VInt g)]) [(''w'', 0, 9000000), (''x'', 0, 4000000), (''y'', 0, 6000000)]"

theorem metrics_consistent_witness:
  "\<exists>m med p95. compute demo_pandas demo_frame 1 = Inr (Some m) \<and> m_count m = 2 \<and> mean_latency_ms m = Some 5
    \<and> median_latency_ms m = Some med \<and> p95_latency_ms m = Some p95 \<and> 4 \<le> med \<and> med \<le> p95 \<and> p95 \<le> 6"
proof -
  have c: "\<forall>r \<in> set demo_frame. clocked r" "\<forall>r \<in> set demo_frame. counted r"
    by (auto simp: demo_frame_def clocked_def counted_def)
  have ls: "map latency_ms (drop (nat 1) demo_frame) = [4, 6]"
    by (simp add: demo_frame_def latency_ms_def clock_def NS_TO_MS_def)
  have n: "demo_frame \<noteq> []" "\<not> int (length demo_frame) \<le> 1" by (simp_all add: demo_frame_def)
  from metrics_consistent [OF demo_pandas_laws(1) c, of 1] n show ?thesis
    unfolding ls by (auto simp: average_def)
qed

end
