(* ===== verification/Bench_Network.thy ===== *)
theory Bench_Network
  imports Bench_Metrics
begin

text \<open>
  The network controller of the benchmark runner (\<open>benchmark_runner/network.py\<close>), and with it the
  state of a campaign: the environment variables, the commands run so far, the file system and the
  pauses. What the commands do is a parameter, the record \<open>outside\<close>: the output of a command and
  the file system after it, in the state in which it is run, and the file system after a pause.
\<close>

section \<open>Floats and lines\<close>

text \<open>\<open>float(s)\<close>: a decimal number with optional fraction and exponent, or a special value.\<close>

datatype pyfloat = Fin real | Infinity bool | NaN

definition digit_part :: "string \<Rightarrow> (nat \<times> nat) option" where
  "digit_part s =
     (if s = [] then Some (0, 0)
      else map_option (\<lambda>n. (n, length (filter is_digit s))) (int_digits False 0 s))"

definition mantissa :: "string \<Rightarrow> real option" where
  "mantissa s =
     (let (ip, dot, fp) = str_partition (CHR ''.'') s
      in if ip = [] \<and> fp = [] then None
         else case (digit_part ip, digit_part fp) of
           (Some (a, _), Some (b, k)) \<Rightarrow> Some (real a + real b / 10 ^ k)
         | _ \<Rightarrow> None)"

definition signed_part :: "string \<Rightarrow> bool \<times> string" where
  "signed_part s =
     (if prefix ''-'' s then (True, tl s) else if prefix ''+'' s then (False, tl s) else (False, s))"

definition exponent :: "string \<Rightarrow> real option" where
  "exponent s =
     (let (neg, ds) = signed_part s
      in map_option (\<lambda>n. if neg then 1 / 10 ^ n else 10 ^ n) (int_digits False 0 ds))"

definition py_float :: "string \<Rightarrow> pyfloat result" where
  "py_float s =
     (let (neg, t) = signed_part (str_strip s);
          m = takeWhile (\<lambda>c. c \<noteq> CHR ''e'') (str_lower t);
          e = drop (length m) (str_lower t);
          sgn = (if neg then - 1 else 1)
      in if str_lower t = ''inf'' \<or> str_lower t = ''infinity'' then Inr (Infinity neg)
         else if str_lower t = ''nan'' then Inr NaN
         else case (mantissa m, if e = [] then Some 1 else exponent (tl e)) of
           (Some x, Some p) \<Rightarrow> Inr (Fin (sgn * x * p))
         | _ \<Rightarrow> Inl ValueError)"

text \<open>
  \<open>s.splitlines()\<close>. Besides the line ends of ASCII there are three in Unicode, the encodings of
  which are written out.
\<close>

definition line_end :: "string \<Rightarrow> nat" where
  "line_end s =
     (if prefix [CHR 0x0D, CHR 0x0A] s then 2
      else if s \<noteq> [] \<and> hd s \<in> set [CHR 0x0A, CHR 0x0D, CHR 0x0B, CHR 0x0C, CHR 0x1C, CHR 0x1D, CHR 0x1E] then 1
      else if prefix [CHR 0xC2, CHR 0x85] s then 2
      else if prefix [CHR 0xE2, CHR 0x80, CHR 0xA8] s \<or> prefix [CHR 0xE2, CHR 0x80, CHR 0xA9] s then 3
      else 0)"

function splitlines_from :: "string \<Rightarrow> string \<Rightarrow> string list" where
  "splitlines_from acc s =
     (if s = [] then (if acc = [] then [] else [acc])
      else if 0 < line_end s then acc # splitlines_from [] (drop (line_end s) s)
      else splitlines_from (acc @ [hd s]) (tl s))"
  by pat_completeness auto

termination
  by (relation "measure (\<lambda>(acc, s). length s)") auto

definition splitlines :: "string \<Rightarrow> string list" where
  "splitlines s = splitlines_from [] s"

text \<open>\<open>s.strip(c)\<close> for one character.\<close>

definition strip_char :: "char \<Rightarrow> string \<Rightarrow> string" where
  "strip_char c s = rev (dropWhile (\<lambda>x. x = c) (rev (dropWhile (\<lambda>x. x = c) s)))"

section \<open>The outside\<close>

record bstate =
  bs_environ :: environ
  bs_cmds :: "string list"
  bs_fs :: fsys
  bs_sleeps :: "int list"

record proc =
  stdout :: string
  stderr :: string
  returncode :: int

record outside =
  os_run :: "bstate \<Rightarrow> string \<Rightarrow> proc \<times> fsys"
  os_sleep :: "bstate \<Rightarrow> int \<Rightarrow> fsys"

text \<open>\<open>subprocess.run(cmd, shell=True, capture_output=True, text=True)\<close>.\<close>

definition subprocess_run :: "outside \<Rightarrow> string \<Rightarrow> bstate \<Rightarrow> proc \<times> bstate" where
  "subprocess_run W cmd s =
     (let (p, fs) = os_run W s cmd in (p, s\<lparr>bs_cmds := bs_cmds s @ [cmd], bs_fs := fs\<rparr>))"

text \<open>\<open>_default_exec\<close>: standard output and error, stripped.\<close>

definition default_exec :: "outside \<Rightarrow> string \<Rightarrow> bstate \<Rightarrow> string \<times> bstate" where
  "default_exec W cmd s =
     (let (p, s1) = subprocess_run W cmd s in (str_strip (stdout p @ [CHR 0x0A] @ stderr p), s1))"

definition time_sleep :: "outside \<Rightarrow> int \<Rightarrow> bstate \<Rightarrow> bstate" where
  "time_sleep W n s = s\<lparr>bs_sleeps := bs_sleeps s @ [n], bs_fs := os_sleep W s n\<rparr>"

section \<open>The controller\<close>

definition COMPOSE_PROJECT :: string where
  "COMPOSE_PROJECT = ''prototype-implementation-main''"

record NetworkController =
  router_service :: string
  gw_a_service :: string
  target_ip :: string
  ping_count :: nat

definition NetworkController_default :: NetworkController where
  "NetworkController_default =
     \<lparr>router_service = ''netem-router'', gw_a_service = ''gateway-a'', target_ip = ''172.26.0.2'', ping_count = 5\<rparr>"

definition ADVERSE :: string where
  "ADVERSE = ''delay 50ms 10ms loss 3% rate 5mbit''"

definition docker_ps :: "string \<Rightarrow> string" where
  "docker_ps service =
     ''docker ps --filter label=com.docker.compose.project='' @ COMPOSE_PROJECT
       @ '' --filter label=com.docker.compose.service='' @ service
       @ '' --format '' @ [CHR 0x27] @ ''{{.Names}}'' @ [CHR 0x27]"

definition container_name :: "string \<Rightarrow> string \<Rightarrow> string" where
  "container_name service output =
     (let r = hd (str_split (CHR 0x0A) (strip_char (CHR 0x27) (str_strip output)))
      in if r = [] then service else r)"

definition resolve_container :: "outside \<Rightarrow> string \<Rightarrow> bstate \<Rightarrow> string \<times> bstate" where
  "resolve_container W service s =
     (let (out, s1) = default_exec W (docker_ps service) s in (container_name service out, s1))"

definition adverse_cmd :: "string \<Rightarrow> string \<Rightarrow> string" where
  "adverse_cmd router iface =
     ''docker exec '' @ router @ '' bash -c '' @ [CHR 0x22] @ ''tc qdisc add dev '' @ iface @ '' root netem ''
       @ ADVERSE @ '' 2>/dev/null || tc qdisc change dev '' @ iface @ '' root netem '' @ ADVERSE @ [CHR 0x22]"

definition clear_cmd :: "string \<Rightarrow> string \<Rightarrow> string" where
  "clear_cmd router iface =
     ''docker exec '' @ router @ '' bash -c '' @ [CHR 0x22] @ ''tc qdisc del dev '' @ iface
       @ '' root 2>/dev/null || true'' @ [CHR 0x22]"

definition on_ifaces :: "outside \<Rightarrow> (string \<Rightarrow> string) \<Rightarrow> bstate \<Rightarrow> bstate" where
  "on_ifaces W cmd s = fold (\<lambda>iface s. snd (default_exec W (cmd iface) s)) [''eth0'', ''eth1''] s"

definition apply_adverse :: "outside \<Rightarrow> NetworkController \<Rightarrow> bstate \<Rightarrow> bstate" where
  "apply_adverse W c s =
     (let (router, s1) = resolve_container W (router_service c) s in on_ifaces W (adverse_cmd router) s1)"

definition clear_rules :: "outside \<Rightarrow> NetworkController \<Rightarrow> bstate \<Rightarrow> bstate" where
  "clear_rules W c s =
     (let (router, s1) = resolve_container W (router_service c) s in on_ifaces W (clear_cmd router) s1)"

definition toggle_profile :: "outside \<Rightarrow> NetworkController \<Rightarrow> string \<Rightarrow> bstate \<Rightarrow> string \<times> bstate" where
  "toggle_profile W c profile s =
     (profile, if profile = ''adverse'' then apply_adverse W c s else clear_rules W c s)"

text \<open>The average of one summary line: the second number after the equals sign.\<close>

definition line_avg :: "string \<Rightarrow> pyfloat option" where
  "line_avg line =
     (case str_split (CHR ''='') line of
        _ # r # _ \<Rightarrow>
          (case str_split (CHR 0x2F) (str_strip r) of
             _ # p # _ \<Rightarrow> (case py_float p of Inl _ \<Rightarrow> None | Inr x \<Rightarrow> Some x)
           | _ \<Rightarrow> None)
      | _ \<Rightarrow> None)"

fun ping_avg_lines :: "string list \<Rightarrow> pyfloat" where
  "ping_avg_lines [] = Fin 0"
| "ping_avg_lines (line # ls) =
     (if str_contains ''rtt min/avg/max/mdev'' line then
        (case line_avg line of Some x \<Rightarrow> x | None \<Rightarrow> ping_avg_lines ls)
      else ping_avg_lines ls)"

definition parse_ping_avg :: "string \<Rightarrow> pyfloat" where
  "parse_ping_avg output = ping_avg_lines (splitlines output)"

definition probe_rtt :: "outside \<Rightarrow> NetworkController \<Rightarrow> bstate \<Rightarrow> pyfloat \<times> bstate" where
  "probe_rtt W c s =
     (let (gw_a, s1) = resolve_container W (gw_a_service c) s;
          (output, s2) = default_exec W
            (''docker exec '' @ gw_a @ '' ping -c '' @ show_nat (ping_count c) @ '' '' @ target_ip c) s1
      in (parse_ping_avg output, s2))"

section \<open>Lemmas\<close>

declare splitlines_from.simps [simp del]

lemma line_end_printable: "printable c \<Longrightarrow> line_end (c # s) = 0"
proof -
  assume p: "printable c"
  have "\<not> printable (CHR 0x0A)" "\<not> printable (CHR 0x0B)" "\<not> printable (CHR 0x0C)" "\<not> printable (CHR 0x0D)"
    "\<not> printable (CHR 0x1C)" "\<not> printable (CHR 0x1D)" "\<not> printable (CHR 0x1E)"
    "\<not> printable (CHR 0xC2)" "\<not> printable (CHR 0xE2)"
    by (simp_all add: printable_def)
  with p have "c \<noteq> CHR 0x0A" "c \<noteq> CHR 0x0B" "c \<noteq> CHR 0x0C" "c \<noteq> CHR 0x0D" "c \<noteq> CHR 0x1C"
    "c \<noteq> CHR 0x1D" "c \<noteq> CHR 0x1E" "c \<noteq> CHR 0xC2" "c \<noteq> CHR 0xE2" by metis+
  then show ?thesis by (simp add: line_end_def)
qed

lemma line_end_lf: "line_end (CHR 0x0A # s) = 1"
  by (simp add: line_end_def)

lemma splitlines_from_line:
  "list_all printable l \<Longrightarrow> splitlines_from acc (l @ CHR 0x0A # s) = (acc @ l) # splitlines_from [] s"
proof (induction l arbitrary: acc)
  case Nil
  then show ?case by (subst splitlines_from.simps) (simp add: line_end_lf)
next
  case (Cons c l)
  then show ?case by (subst splitlines_from.simps) (simp add: line_end_printable)
qed

lemma splitlines_lines:
  "\<forall>l \<in> set ls. list_all printable l \<Longrightarrow> splitlines (lines_text ls @ s) = ls @ splitlines s"
  by (induction ls) (simp_all add: splitlines_def splitlines_from_line)

lemma ping_avg_skip:
  "\<forall>l \<in> set ls. \<not> str_contains ''rtt min/avg/max/mdev'' l \<Longrightarrow> ping_avg_lines (ls @ ms) = ping_avg_lines ms"
  by (induction ls) auto

lemma str_split_plain: "c \<notin> set s \<Longrightarrow> str_split c s = [s]"
  by (induction s) auto

text \<open>The summary line of \<open>ping\<close>.\<close>

definition rtt_line :: "string \<Rightarrow> string \<Rightarrow> string \<Rightarrow> string" where
  "rtt_line mn avg rest = ''rtt min/avg/max/mdev = '' @ mn @ ''/'' @ avg @ ''/'' @ rest"

lemma line_avg_summary:
  assumes "mn \<noteq> []" "\<not> is_space (hd mn)" "rest \<noteq> []" "\<not> is_space (last rest)"
    and "CHR ''='' \<notin> set (mn @ avg @ rest)" "CHR 0x2F \<notin> set mn" "CHR 0x2F \<notin> set avg" "py_float avg = Inr x"
  shows "line_avg (rtt_line mn avg rest) = Some x"
proof -
  let ?r = "mn @ CHR 0x2F # avg @ CHR 0x2F # rest"
  have e: "str_split (CHR ''='') (rtt_line mn avg rest) = [''rtt min/avg/max/mdev '', CHR '' '' # ?r]"
    using str_split_append [of "CHR ''=''" "''rtt min/avg/max/mdev ''" "CHR '' '' # ?r"]
      str_split_plain [of "CHR ''=''" "CHR '' '' # ?r"] assms(5)
    by (simp add: rtt_line_def)
  have "str_strip ?r = ?r"
    using assms(1-4) by (intro str_strip_ends) (auto simp: hd_append)
  then have "str_strip (CHR '' '' # ?r) = ?r" by (simp add: str_strip_def is_space_def)
  then show ?thesis
    using assms(6-8) by (simp add: line_avg_def e str_split_append)
qed

lemma rtt_line_marked: "str_contains ''rtt min/avg/max/mdev'' (rtt_line mn avg rest)"
  by (simp add: str_contains_def rtt_line_def)

lemma default_exec_state:
  "bs_cmds (snd (default_exec W cmd s)) = bs_cmds s @ [cmd]"
  "bs_environ (snd (default_exec W cmd s)) = bs_environ s"
  "bs_sleeps (snd (default_exec W cmd s)) = bs_sleeps s"
  by (simp_all add: default_exec_def subprocess_run_def Let_def split: prod.split)

lemma resolve_container_state:
  "snd (resolve_container W svc s) = snd (default_exec W (docker_ps svc) s)"
  "fst (resolve_container W svc s) = container_name svc (fst (default_exec W (docker_ps svc) s))"
  by (simp_all add: resolve_container_def split: prod.split)

lemma on_ifaces_state:
  "bs_cmds (on_ifaces W cmd s) = bs_cmds s @ [cmd ''eth0'', cmd ''eth1'']"
  "bs_environ (on_ifaces W cmd s) = bs_environ s" "bs_sleeps (on_ifaces W cmd s) = bs_sleeps s"
  by (simp_all add: on_ifaces_def default_exec_state)

section \<open>Properties\<close>

text \<open>
  The round-trip time that the runner records is the average that \<open>ping\<close> reports: for an
  output whose first summary line is \<open>rtt min/avg/max/mdev = a/b/...\<close>, whatever text lines come
  before and after, the probe's result is the number \<open>b\<close>.
\<close>

theorem ping_average_parsed:
  assumes "\<forall>l \<in> set ls. list_all printable l" and "\<forall>l \<in> set ls. \<not> str_contains ''rtt min/avg/max/mdev'' l"
    and "list_all printable (rtt_line mn avg rest)"
    and "mn \<noteq> []" and "\<not> is_space (hd mn)" and "rest \<noteq> []" and "\<not> is_space (last rest)"
    and "CHR ''='' \<notin> set (mn @ avg @ rest)" and "CHR 0x2F \<notin> set mn" and "CHR 0x2F \<notin> set avg"
    and "py_float avg = Inr x"
  shows "parse_ping_avg (lines_text (ls @ [rtt_line mn avg rest]) @ more_text) = x"
proof -
  have "splitlines (lines_text (ls @ [rtt_line mn avg rest]) @ more_text)
      = ls @ rtt_line mn avg rest # splitlines more_text"
    using splitlines_lines [of "ls @ [rtt_line mn avg rest]" more_text] assms(1,3) by auto
  then show ?thesis
    using assms(2) line_avg_summary [OF assms(4-11)]
    by (simp add: parse_ping_avg_def ping_avg_skip rtt_line_marked)
qed

theorem ping_average_parsed_witness:
  "parse_ping_avg (lines_text ([''PING 172.26.0.2''] @ [rtt_line ''0.045'' ''0.5'' ''0.071/0.012 ms'']) @ []) = Fin (1 / 2)"
proof -
  have x: "py_float ''0.5'' = Inr (Fin (1 / 2))"
    by (simp add: py_float_def signed_part_def str_strip_def is_space_def str_lower_def lower_char_def
        less_eq_char_def mantissa_def digit_part_def is_digit_def digit_val_def)
  have "list_all printable (rtt_line ''0.045'' ''0.5'' ''0.071/0.012 ms'')" "list_all printable ''PING 172.26.0.2''"
    by (simp_all add: rtt_line_def printable_def)
  moreover have "\<not> str_contains ''rtt min/avg/max/mdev'' ''PING 172.26.0.2''" by (simp add: str_contains_def)
  ultimately show ?thesis
    using x by (intro ping_average_parsed) (simp_all add: is_space_def)
qed

text \<open>
  A profile is applied to both interfaces of the router and to nothing else. \<open>toggle_profile\<close>
  runs exactly three commands: the lookup of the router's container and, on the container found
  (the service name if there is none), the rule of the profile for each of the two interfaces;
  every profile other than \<open>adverse\<close> clears the rules.
\<close>

theorem toggle_covers_interfaces:
  "fst (toggle_profile W c profile s) = profile
   \<and> bs_cmds (snd (toggle_profile W c profile s)) =
      (let router = container_name (router_service c) (fst (default_exec W (docker_ps (router_service c)) s));
           rule = (if profile = ''adverse'' then adverse_cmd router else clear_cmd router)
       in bs_cmds s @ [docker_ps (router_service c), rule ''eth0'', rule ''eth1''])
   \<and> bs_environ (snd (toggle_profile W c profile s)) = bs_environ s
   \<and> bs_sleeps (snd (toggle_profile W c profile s)) = bs_sleeps s"
  by (simp add: toggle_profile_def apply_adverse_def clear_rules_def on_ifaces_state default_exec_state
      resolve_container_state Let_def split: prod.split)
    (metis (no_types, lifting) fst_conv snd_conv resolve_container_state default_exec_state)

end
