(* ===== verification/Scripts.thy ===== *)
theory Scripts
  imports Bench_Network Py_Json_Indent
begin

text \<open>
  The remaining scripts: \<open>scripts/toggle_router_profile.py\<close> switches the router by hand,
  \<open>scripts/capture_metadata.py\<close> records the versions a test ran with, and \<open>run_repeated_tests.py\<close>
  repeats the test suite with different seeds. What the commands they run print and return is the
  parameter \<open>outside\<close>, as for the benchmark.
\<close>

section \<open>Switching the router\<close>

text \<open>\<open>run_cmd\<close>: a command that fails is ignored.\<close>

definition router_run_cmd :: "outside \<Rightarrow> string \<Rightarrow> bstate \<Rightarrow> bstate" where
  "router_run_cmd W cmd s = snd (subprocess_run W cmd s)"

definition compose_exec :: "string \<Rightarrow> string" where
  "compose_exec c = ''docker compose exec netem-router bash -c '' @ [CHR 0x22] @ c @ [CHR 0x22]"

definition router_adverse :: "string \<Rightarrow> string" where
  "router_adverse iface = compose_exec (''tc qdisc add dev '' @ iface @ '' root netem delay 50ms 10ms loss 5% 2>/dev/null ''
     @ ''|| tc qdisc change dev '' @ iface @ '' root netem delay 50ms 10ms loss 5%'')"

definition router_stable :: "string \<Rightarrow> string" where
  "router_stable iface = compose_exec (''tc qdisc del dev '' @ iface @ '' root 2>/dev/null || true'')"

definition router_toggle :: "outside \<Rightarrow> string \<Rightarrow> bstate \<Rightarrow> unit result \<times> bstate" where
  "router_toggle W profile s =
     (if profile \<notin> set [''stable'', ''adverse''] then (Inl (SystemExit ''1''), s)
      else (Inr (), fold (router_run_cmd W)
        (map (if profile = ''adverse'' then router_adverse else router_stable) [''eth0'', ''eth1'']) s))"

text \<open>The arguments after the name of the script.\<close>

definition router_main :: "outside \<Rightarrow> string list \<Rightarrow> bstate \<Rightarrow> unit result \<times> bstate" where
  "router_main W argv s =
     (case argv of [] \<Rightarrow> (Inl (SystemExit ''1''), s) | profile # _ \<Rightarrow> router_toggle W profile s)"

section \<open>Metadata\<close>

definition meta_run :: "outside \<Rightarrow> string \<Rightarrow> bstate \<Rightarrow> string \<times> bstate" where
  "meta_run W cmd s =
     (let (res, s1) = subprocess_run W cmd s
      in (if returncode res = 0 then str_strip (stdout res) else ''NOT_AVAILABLE'', s1))"

definition meta_commands :: "(string \<times> string) list" where
  "meta_commands =
     [(''git_commit'', ''git rev-parse HEAD''),
      (''git_branch'', ''git rev-parse --abbrev-ref HEAD''),
      (''git_status'', ''git status --porcelain''),
      (''docker_version'', ''docker --version''),
      (''compose_version'', ''docker compose version''),
      (''image_id'', ''docker images -q gateway_b:latest''),
      (''image_digest'', ''docker inspect --format='' @ [CHR 0x22] @ ''{{index .RepoDigests 0}}'' @ [CHR 0x22] @ '' gateway_b:latest''),
      (''python_version'', ''docker run --rm gateway_b python --version''),
      (''openssl_version'', ''docker run --rm gateway_b python -c '' @ [CHR 0x22] @ ''import ssl; print(ssl.OPENSSL_VERSION)'' @ [CHR 0x22]),
      (''operating_system'', ''docker run --rm gateway_b uname -a'')]"

fun meta_runs :: "outside \<Rightarrow> (string \<times> string) list \<Rightarrow> bstate \<Rightarrow> (string \<times> string) list \<times> bstate" where
  "meta_runs W [] s = ([], s)"
| "meta_runs W ((k, cmd) # cs) s =
     (let (v, s1) = meta_run W cmd s; (vs, s2) = meta_runs W cs s1 in ((k, v) # vs, s2))"

definition image_digest_text :: "string \<Rightarrow> string" where
  "image_digest_text v =
     (if v = [] \<or> str_contains ''index out of range'' v \<or> v = ''NOT_AVAILABLE''
      then ''NOT_AVAILABLE (Image only exists locally, no repo digest)'' else v)"

definition metadata :: "(string \<times> string) list \<Rightarrow> string \<Rightarrow> pyval" where
  "metadata vs now_text =
     (let v = (\<lambda>k. case map_of vs k of None \<Rightarrow> [] | Some x \<Rightarrow> x)
      in VDict (map (map_prod id VStr)
        [(''git_commit'', v ''git_commit''),
         (''git_branch'', v ''git_branch''),
         (''git_status'', if v ''git_status'' = [] then ''clean'' else ''dirty''),
         (''docker_version'', v ''docker_version''),
         (''compose_version'', v ''compose_version''),
         (''image_name'', ''gateway_b''),
         (''image_tag'', ''latest''),
         (''image_id'', v ''image_id''),
         (''image_digest'', image_digest_text (v ''image_digest'')),
         (''container_id'', ''NOT_AVAILABLE''),
         (''python_version'', v ''python_version''),
         (''openssl_version'', v ''openssl_version''),
         (''operating_system'', v ''operating_system''),
         (''test_timestamp'', now_text)]))"

definition reproducibility_file :: string where
  "reproducibility_file = ''results/phase3/evidence/reproducibility.json''"

definition capture_metadata :: "outside \<Rightarrow> string \<Rightarrow> bstate \<Rightarrow> bstate" where
  "capture_metadata W now_text s =
     (let (vs, s1) = meta_runs W meta_commands s
      in s1\<lparr>bs_fs := write_file reproducibility_file (json_dump_indent (metadata vs now_text)) (bs_fs s1)\<rparr>)"

section \<open>Repeated tests\<close>

text \<open>
  The seeds of the fifty runs come from a generator with a fixed seed; they and the measured
  durations (as printed) are arguments. The log is written when the file is closed.
\<close>

definition log_line :: "nat \<Rightarrow> int \<Rightarrow> string \<Rightarrow> proc \<Rightarrow> string" where
  "log_line i run_seed duration result =
     (if returncode result = 0
      then ''Run '' @ show_nat (i + 1) @ ''/50 [Seed: '' @ show_int run_seed @ ''] - PASS ('' @ duration @ ''s)'' @ [CHR 0x0A]
      else ''Run '' @ show_nat (i + 1) @ ''/50 [Seed: '' @ show_int run_seed @ ''] - FAIL ('' @ duration @ ''s)'' @ [CHR 0x0A]
        @ ''Failure Output:'' @ [CHR 0x0A] @ stdout result @ [CHR 0x0A] @ stderr result @ [CHR 0x0A])"

fun test_runs :: "outside \<Rightarrow> nat \<Rightarrow> (int \<times> string) list \<Rightarrow> nat \<times> nat \<times> string \<Rightarrow> bstate \<Rightarrow> (nat \<times> nat \<times> string) \<times> bstate" where
  "test_runs W i [] acc s = (acc, s)"
| "test_runs W i ((run_seed, duration) # rs) (passes, failures, out) s =
     (let (result, s1) = subprocess_run W (''pytest tests/ -q --randomly-seed='' @ show_int run_seed) s;
          out1 = out @ log_line i run_seed duration result
      in test_runs W (Suc i) rs
           (if returncode result = 0 then (Suc passes, failures, out1) else (passes, Suc failures, out1)) s1)"

definition repeated_log :: string where
  "repeated_log = ''results/phase1/logs/repeated_validation.log''"

definition run_campaign :: "outside \<Rightarrow> (nat \<Rightarrow> int) \<Rightarrow> (nat \<Rightarrow> string) \<Rightarrow> bstate \<Rightarrow> (nat \<times> nat) \<times> bstate" where
  "run_campaign W seeds durations s =
     (let ((passes, failures, out), s1) = test_runs W 0 (map (\<lambda>i. (seeds i, durations i)) [0..<50])
            (0, 0, ''Starting repeated validation campaign: 50 runs'' @ [CHR 0x0A]) s;
          out1 = out @ [CHR 0x0A] @ ''Campaign Complete.'' @ [CHR 0x0A] @ ''Total Runs: 50'' @ [CHR 0x0A]
            @ ''Passes: '' @ show_nat passes @ [CHR 0x0A] @ ''Failures: '' @ show_nat failures @ [CHR 0x0A]
      in ((passes, failures), s1\<lparr>bs_fs := write_file repeated_log out1 (bs_fs s1)\<rparr>))"

section \<open>Lemmas\<close>

text \<open>Every run of the suite is counted once.\<close>

lemma test_runs_counts:
  "\<exists>out' s'. test_runs W i rs (p, f, out) s = ((p', f', out'), s') \<Longrightarrow> p' + f' = p + f + length rs"
proof (induction W i rs "(p, f, out)" s arbitrary: p f out rule: test_runs.induct)
  case (2 W i run_seed duration rs s)
  then show ?case by (auto simp: Let_def split: prod.splits if_splits)
qed auto

lemma campaign_counts: "fst (run_campaign W seeds durations s) = (p, f) \<Longrightarrow> p + f = 50"
proof -
  assume "fst (run_campaign W seeds durations s) = (p, f)"
  then obtain out s1 where "test_runs W 0 (map (\<lambda>i. (seeds i, durations i)) [0..<50])
      (0, 0, ''Starting repeated validation campaign: 50 runs'' @ [CHR 0x0A]) s = ((p, f, out), s1)"
    by (auto simp: run_campaign_def Let_def split: prod.splits)
  then show ?thesis using test_runs_counts [of W 0 _ 0 0 _ s p f] by fastforce
qed

text \<open>The metadata can be read back, and its digest is never empty.\<close>

lemma metadata_read_back:
  assumes "\<forall>(k, v) \<in> set vs. valid_text v" "valid_text now_text"
  shows "json_loads (json_dump_indent (metadata vs now_text)) = Inr (metadata vs now_text)"
proof (rule json_loads_indent)
  have l: "valid_text (case map_of vs k of None \<Rightarrow> [] | Some x \<Rightarrow> x)" for k
    using assms(1) by (auto split: option.split dest!: map_of_SomeD) (simp add: ascii_valid ascii_def)
  have "valid_text (image_digest_text v)" if "valid_text v" for v
    using that by (simp add: image_digest_text_def) (simp add: ascii_valid ascii_def)
  moreover have "valid_text ''clean''" "valid_text ''dirty''" by (simp_all add: ascii_valid ascii_def)
  ultimately show "indent_ok (metadata vs now_text)"
    using assms(2) l by (auto simp: metadata_def Let_def ascii_valid ascii_def)
qed

text \<open>
  The script applies a profile to both interfaces, and refuses any other name without running
  anything.
\<close>

lemma router_toggle_commands:
  "bs_cmds (snd (router_toggle W profile s)) = bs_cmds s @
     (if profile = ''adverse'' then map router_adverse [''eth0'', ''eth1'']
      else if profile = ''stable'' then map router_stable [''eth0'', ''eth1''] else [])"
  by (simp add: router_toggle_def router_run_cmd_def subprocess_run_def split: prod.split)

end
