(* ===== verification/Bench_Report.thy ===== *)
theory Bench_Report
  imports Bench_Network
begin

text \<open>
  The report of a campaign (\<open>benchmark_runner/report.py\<close>): a CSV file of the results and, from the
  latencies of all runs, a box plot, one cumulative distribution per configuration and their
  overlay. What \<open>pandas\<close> prints and what \<open>matplotlib\<close> draws are parameters, the record \<open>plot_lib\<close>:
  functions of the data that the report hands to them.
\<close>

record bench_result = metrics +
  r_crypto :: string
  r_profile :: string
  avg_rtt_ms :: pyfloat
  r_iteration :: int

record raw_latency =
  rl_crypto :: string
  rl_profile :: string
  rl_iteration :: int
  rl_latency :: series

record plot_lib =
  to_csv :: "bench_result list \<Rightarrow> string"
  draw_boxplot :: "(string \<times> real list) list \<Rightarrow> string"
  draw_cdf :: "string \<times> (real \<times> real) list \<Rightarrow> nat \<Rightarrow> string"
  draw_overlay :: "(string \<times> (real \<times> real) list) list \<Rightarrow> string"

text \<open>The combined frame: one row per latency, with the label of its configuration.\<close>

definition labelled :: "raw_latency list \<Rightarrow> (string \<times> real option) list" where
  "labelled raws =
     concat (map (\<lambda>rl. map (Pair (rl_crypto rl @ ''_'' @ rl_profile rl)) (rl_latency rl)) raws)"

text \<open>\<open>df["label"].unique().tolist()\<close>: in the order of first appearance.\<close>

definition unique :: "'a list \<Rightarrow> 'a list" where
  "unique xs = rev (fold List.insert xs [])"

text \<open>\<open>df[df["label"] == label]["latency_ms"].dropna()\<close>.\<close>

definition data_of :: "(string \<times> real option) list \<Rightarrow> string \<Rightarrow> real list" where
  "data_of df label = present (map snd (filter (\<lambda>x. fst x = label) df))"

definition plot_boxplot :: "plot_lib \<Rightarrow> (string \<times> real option) list \<Rightarrow> string \<Rightarrow> fsys \<Rightarrow> fsys" where
  "plot_boxplot V df output_dir fs =
     (let labels = unique (map fst df)
      in write_file (path_join output_dir ''boxplot_latency_comparison.png'')
           (draw_boxplot V (map (\<lambda>l. (l, data_of df l)) labels)) fs)"

text \<open>The points of a curve: the values in order, each with the share of values up to it.\<close>

definition cdf_points :: "real list \<Rightarrow> (real \<times> real) list" where
  "cdf_points xs = map (\<lambda>i. (sort xs ! i, real (i + 1) / real (length xs))) [0..<length xs]"

definition plot_cdfs :: "plot_lib \<Rightarrow> (string \<times> real option) list \<Rightarrow> string \<Rightarrow> fsys \<Rightarrow> fsys" where
  "plot_cdfs V df output_dir fs =
     (let labels = unique (map fst df);
          curve = (\<lambda>l. (l, cdf_points (data_of df l)));
          fs1 = fold (\<lambda>(i, l). write_file (path_join output_dir (''cdf_'' @ l @ ''.png'')) (draw_cdf V (curve l) i))
            (enumerate 0 labels) fs
      in write_file (path_join output_dir ''cdf_overlay.png'') (draw_overlay V (map curve labels)) fs1)"

definition generate :: "plot_lib \<Rightarrow> bench_result list \<Rightarrow> raw_latency list \<Rightarrow> string \<Rightarrow> fsys \<Rightarrow> fsys" where
  "generate V results raw_latencies output_dir fs =
     (if results = [] then fs
      else
        (let fs1 = write_file (path_join output_dir ''benchmark_report.csv'') (to_csv V results) fs
         in if raw_latencies = [] then fs1
            else (let full = labelled raw_latencies
                  in plot_cdfs V full output_dir (plot_boxplot V full output_dir fs1))))"

section \<open>Lemmas\<close>

lemma sorted_prefix:
  fixes xs :: "real list"
  shows "sorted xs \<Longrightarrow> filter (\<lambda>x. x \<le> t) xs = takeWhile (\<lambda>x. x \<le> t) xs"
proof (induction xs)
  case (Cons x xs)
  show ?case
  proof (cases "x \<le> t")
    case True
    with Cons show ?thesis by simp
  next
    case False
    with Cons.prems have "\<forall>y \<in> set xs. \<not> y \<le> t" by auto
    with False show ?thesis by (simp add: filter_False)
  qed
qed simp

lemma fst_cdf_points: "map fst (cdf_points xs) = sort xs"
  by (rule nth_equalityI) (simp_all add: cdf_points_def)

lemma length_filter_sort: "length (filter P (sort xs)) = length (filter P xs)"
  by (metis mset_filter mset_sort size_mset)

text \<open>
  The curve is the empirical distribution: its points with a value of at most \<open>t\<close> are a prefix, as
  long as the number of latencies of at most \<open>t\<close>, and the last of them is at the share of these
  latencies among all.
\<close>

lemma cdf_is_empirical:
  assumes "k = length (filter (\<lambda>x. x \<le> t) xs)"
  shows "takeWhile (\<lambda>p. fst p \<le> t) (cdf_points xs) = take k (cdf_points xs)"
    and "0 < k \<Longrightarrow> snd (cdf_points xs ! (k - 1)) = real k / real (length xs)"
proof -
  have "length (takeWhile (\<lambda>p. fst p \<le> t) (cdf_points xs)) = length (takeWhile (\<lambda>x. x \<le> t) (sort xs))"
    unfolding fst_cdf_points [symmetric] takeWhile_map by (simp add: comp_def)
  also have "\<dots> = k" using sorted_prefix [OF sorted_sort, of t xs] length_filter_sort assms by metis
  finally show "takeWhile (\<lambda>p. fst p \<le> t) (cdf_points xs) = take k (cdf_points xs)"
    by (metis takeWhile_eq_take)
  assume "0 < k"
  moreover have "k \<le> length xs" using assms by simp
  ultimately show "snd (cdf_points xs ! (k - 1)) = real k / real (length xs)"
    by (subst cdf_points_def, subst nth_map) (auto simp: nth_upt)
qed

end
