(* ===== verification/Bench_Runner.thy ===== *)
theory Bench_Runner
  imports Bench_Report
begin

text \<open>
  The benchmark campaign (\<open>benchmark_runner/runner.py\<close>) and its entry points
  (\<open>benchmark_runner/run_benchmark.py\<close>, \<open>repeat_runner.py\<close>, \<open>scripts/phase7_dry_run.py\<close>). A campaign
  runs every combination of iteration, cryptographic mode and network profile: it switches the
  containers and the router, clears the telemetry, injects events, waits, and computes the metrics
  of what the gateways logged meanwhile. An exception (a telemetry file that cannot be read, a
  missing column) ends the campaign.
\<close>

section \<open>The runner\<close>

record BenchmarkRunner =
  evidence_dir :: string
  telemetry_a :: string
  telemetry_b :: string
  event_count :: int
  warm_up_discard :: int
  wait_seconds :: int
  compose_file :: string
  iterations :: int

text \<open>\<open>__init__\<close>: a telemetry path that is not given lies in the evidence directory.\<close>

definition BenchmarkRunner_init ::
    "string \<Rightarrow> string option \<Rightarrow> string option \<Rightarrow> int \<Rightarrow> int \<Rightarrow> int \<Rightarrow> int \<Rightarrow> BenchmarkRunner" where
  "BenchmarkRunner_init dir ta tb events wait discard n =
     \<lparr>evidence_dir = dir,
      telemetry_a = (case ta of Some (c # p) \<Rightarrow> c # p | _ \<Rightarrow> path_join dir ''telemetry_a.jsonl''),
      telemetry_b = (case tb of Some (c # p) \<Rightarrow> c # p | _ \<Rightarrow> path_join dir ''telemetry_b.jsonl''),
      event_count = events, warm_up_discard = discard, wait_seconds = wait,
      compose_file = ''/app/compose.yaml'', iterations = n\<rparr>"

section \<open>Steps of a combination\<close>

definition set_crypto_env :: "CryptoConfig \<Rightarrow> bstate \<Rightarrow> bstate" where
  "set_crypto_env cfg s = s\<lparr>bs_environ := (bs_environ s)
     (''HYBRID_GROUP'' \<mapsto> cc_group cfg, ''A_CERT_PATH'' \<mapsto> a_cert_path cfg, ''A_KEY_PATH'' \<mapsto> a_key_path cfg,
      ''A_PAYLOAD_KEY_PATH'' \<mapsto> a_payload_key_path cfg, ''A_CA_TRUST_PATH'' \<mapsto> a_ca_trust_path cfg,
      ''B_CERT_PATH'' \<mapsto> b_cert_path cfg, ''B_KEY_PATH'' \<mapsto> b_key_path cfg,
      ''B_CA_TRUST_PATH'' \<mapsto> b_ca_trust_path cfg, ''TRUST_STORE_PATH'' \<mapsto> cc_trust_store_path cfg)\<rparr>"

definition restart_gateways :: "outside \<Rightarrow> BenchmarkRunner \<Rightarrow> bstate \<Rightarrow> bstate" where
  "restart_gateways W R s =
     snd (default_exec W (''docker compose -f '' @ compose_file R @ '' up -d gateway-a gateway-b'') s)"

definition remove_file :: "string \<Rightarrow> fsys \<Rightarrow> fsys" where
  "remove_file p fs = fs\<lparr>files := (files fs)(p := None), modes := (modes fs)(p := None)\<rparr>"

definition clear_telemetry :: "BenchmarkRunner \<Rightarrow> bstate \<Rightarrow> bstate" where
  "clear_telemetry R s =
     s\<lparr>bs_fs := fold (\<lambda>path fs. if path_exists path fs then remove_file path fs else fs)
       [telemetry_a R, telemetry_b R] (bs_fs s)\<rparr>"

definition inject_events :: "outside \<Rightarrow> int \<Rightarrow> bstate \<Rightarrow> bstate" where
  "inject_events W n s =
     (let (misp, s1) = resolve_container W ''misp'' s
      in snd (default_exec W
           (''docker exec '' @ misp @ '' python3 /tmp/misp_publisher_mock.py '' @ show_int n @ '' green'') s1))"

definition collector :: "BenchmarkRunner \<Rightarrow> TelemetryCollector" where
  "collector R = \<lparr>path_a = telemetry_a R, path_b = telemetry_b R\<rparr>"

text \<open>\<open>_collect_and_compute\<close>; the iteration is added by the caller.\<close>

definition collect_and_compute ::
    "pandas_lib \<Rightarrow> BenchmarkRunner \<Rightarrow> fsys \<Rightarrow> string \<Rightarrow> string \<Rightarrow> pyfloat \<Rightarrow> int \<Rightarrow> bench_result option result" where
  "collect_and_compute P R fs crypto profile rtt iteration =
     rbind (collect (pd_merge P) fs (collector R)) (\<lambda>df.
       if df = [] then Inr None
       else rbind (compute P df (warm_up_discard R)) (\<lambda>m.
         case m of
           None \<Rightarrow> Inr None
         | Some m \<Rightarrow> Inr (Some (metrics.extend m
             \<lparr>r_crypto = crypto, r_profile = profile, avg_rtt_ms = rtt, r_iteration = iteration\<rparr>))))"

definition get_latency_series :: "pandas_lib \<Rightarrow> BenchmarkRunner \<Rightarrow> fsys \<Rightarrow> series option result" where
  "get_latency_series P R fs =
     rbind (collect (pd_merge P) fs (collector R)) (\<lambda>df.
       if df = [] \<or> int (length df) \<le> warm_up_discard R then Inr None
       else rbind (latencies P (iloc_from (warm_up_discard R) df)) (\<lambda>l. Inr (Some l)))"

text \<open>\<open>os.path.basename\<close> and \<open>s.replace(old, new)\<close>.\<close>

definition path_basename :: "string \<Rightarrow> string" where
  "path_basename p = rev (takeWhile (\<lambda>c. c \<noteq> CHR 0x2F) (rev p))"

function str_replace :: "string \<Rightarrow> string \<Rightarrow> string \<Rightarrow> string" where
  "str_replace old new s =
     (if old = [] \<or> s = [] then s
      else if prefix old s then new @ str_replace old new (drop (length old) s)
      else hd s # str_replace old new (tl s))"
  by pat_completeness auto

termination
  by (relation "measure (\<lambda>(old, new, s). length s)") auto

definition archive_name :: "string \<Rightarrow> string \<Rightarrow> string \<Rightarrow> int \<Rightarrow> string" where
  "archive_name base_path crypto profile iteration =
     str_replace ''.jsonl'' (''_'' @ crypto @ ''_'' @ profile @ ''_iter'' @ show_int iteration @ ''.jsonl'')
       (path_basename base_path)"

text \<open>\<open>shutil.copy2\<close> copies the contents and the permission bits.\<close>

definition copy_file :: "string \<Rightarrow> string \<Rightarrow> fsys \<Rightarrow> fsys" where
  "copy_file src dst fs =
     (case files fs src of
        None \<Rightarrow> fs
      | Some c \<Rightarrow> fs\<lparr>files := (files fs)(dst \<mapsto> c), modes := (modes fs)(dst := modes fs src)\<rparr>)"

definition archive_telemetry :: "BenchmarkRunner \<Rightarrow> string \<Rightarrow> string \<Rightarrow> int \<Rightarrow> fsys \<Rightarrow> fsys" where
  "archive_telemetry R crypto profile iteration fs =
     (let raw_dir = path_join (evidence_dir R) ''raw''
      in fold (\<lambda>base_path fs.
           if path_exists base_path fs
           then copy_file base_path (path_join raw_dir (archive_name base_path crypto profile iteration)) fs
           else fs) [telemetry_a R, telemetry_b R] fs)"

section \<open>The campaign\<close>

type_synonym collected = "bench_result list \<times> raw_latency list"

text \<open>
  The body of the inner loop: one profile of one mode in one iteration. First the measurement, up
  to the pause in which the gateways work, then its evaluation.
\<close>

definition measure_profile :: "outside \<Rightarrow> BenchmarkRunner \<Rightarrow> string \<Rightarrow> bstate \<Rightarrow> pyfloat \<times> bstate" where
  "measure_profile W R profile s =
     (let s1 = snd (toggle_profile W NetworkController_default profile s);
          s2 = time_sleep W (min (wait_seconds R) 2) s1;
          (avg_rtt, s3) = probe_rtt W NetworkController_default s2;
          s4 = clear_telemetry R s3;
          s5 = inject_events W (event_count R) s4;
          s6 = time_sleep W (wait_seconds R) s5
      in (avg_rtt, s6))"

definition evaluate_profile ::
    "pandas_lib \<Rightarrow> BenchmarkRunner \<Rightarrow> int \<Rightarrow> string \<Rightarrow> string \<Rightarrow> pyfloat \<times> bstate \<Rightarrow> collected result \<times> bstate" where
  "evaluate_profile P R iteration crypto profile m =
     (case m of (avg_rtt, s) \<Rightarrow>
        (case collect_and_compute P R (bs_fs s) crypto profile avg_rtt iteration of
           Inl e \<Rightarrow> (Inl e, s)
         | Inr None \<Rightarrow> (Inr ([], []), s)
         | Inr (Some res) \<Rightarrow>
             (case get_latency_series P R (bs_fs s) of
                Inl e \<Rightarrow> (Inl e, s)
              | Inr series \<Rightarrow>
                  (Inr ([res],
                     case series of
                       None \<Rightarrow> []
                     | Some l \<Rightarrow> [\<lparr>rl_crypto = crypto, rl_profile = profile, rl_iteration = iteration, rl_latency = l\<rparr>]),
                   s\<lparr>bs_fs := archive_telemetry R crypto profile iteration (bs_fs s)\<rparr>))))"

definition run_profile ::
    "outside \<Rightarrow> pandas_lib \<Rightarrow> BenchmarkRunner \<Rightarrow> int \<Rightarrow> string \<Rightarrow> string \<Rightarrow> bstate \<Rightarrow> collected result \<times> bstate" where
  "run_profile W P R iteration crypto profile s =
     evaluate_profile P R iteration crypto profile (measure_profile W R profile s)"

text \<open>A loop over a body that collects: an exception ends it.\<close>

fun collecting :: "('a \<Rightarrow> bstate \<Rightarrow> collected result \<times> bstate) \<Rightarrow> 'a list \<Rightarrow> bstate \<Rightarrow> collected result \<times> bstate" where
  "collecting body [] s = (Inr ([], []), s)"
| "collecting body (x # xs) s =
     (case body x s of
        (Inl e, s1) \<Rightarrow> (Inl e, s1)
      | (Inr (rs, ls), s1) \<Rightarrow>
          (case collecting body xs s1 of
             (Inl e, s2) \<Rightarrow> (Inl e, s2)
           | (Inr (rs', ls'), s2) \<Rightarrow> (Inr (rs @ rs', ls @ ls'), s2)))"

definition run_crypto ::
    "outside \<Rightarrow> pandas_lib \<Rightarrow> BenchmarkRunner \<Rightarrow> int \<Rightarrow> CryptoConfig \<Rightarrow> bstate \<Rightarrow> collected result \<times> bstate" where
  "run_crypto W P R iteration cfg s =
     (let s1 = restart_gateways W R (set_crypto_env cfg s);
          s2 = time_sleep W (min (wait_seconds R) 10) s1
      in collecting (run_profile W P R iteration (cc_group cfg)) [''stable'', ''adverse''] s2)"

definition run_iteration ::
    "outside \<Rightarrow> pandas_lib \<Rightarrow> BenchmarkRunner \<Rightarrow> int \<Rightarrow> bstate \<Rightarrow> collected result \<times> bstate" where
  "run_iteration W P R iteration s = collecting (run_crypto W P R iteration) [CLASSICAL, HYBRID_PQC] s"

text \<open>\<open>run\<close>: the results, after the reporter has written its files.\<close>

definition run :: "outside \<Rightarrow> pandas_lib \<Rightarrow> plot_lib \<Rightarrow> BenchmarkRunner \<Rightarrow> bstate \<Rightarrow> bench_result list result \<times> bstate" where
  "run W P V R s =
     (case collecting (run_iteration W P R) [1..iterations R] s of
        (Inl e, s1) \<Rightarrow> (Inl e, s1)
      | (Inr (results, raw_latencies), s1) \<Rightarrow>
          (Inr results, s1\<lparr>bs_fs := generate V results raw_latencies (evidence_dir R) (bs_fs s1)\<rparr>))"

section \<open>Entry points\<close>

definition EVIDENCE_DIR :: string where
  "EVIDENCE_DIR = ''/app/results/phase5/evidence''"

text \<open>What every entry point does with the results: none is a failure.\<close>

definition require_results :: "bench_result list result \<Rightarrow> bench_result list result" where
  "require_results r =
     rbind r (\<lambda>results. if results = [] then Inl (SystemExit ''1'') else Inr results)"

text \<open>\<open>run_benchmark.main\<close> and \<open>phase7_dry_run.main\<close>.\<close>

definition run_benchmark_main ::
    "outside \<Rightarrow> pandas_lib \<Rightarrow> plot_lib \<Rightarrow> bstate \<Rightarrow> bench_result list result \<times> bstate" where
  "run_benchmark_main W P V s =
     (let (r, s1) = run W P V (BenchmarkRunner_init EVIDENCE_DIR None None 5000 900 1000 5) s
      in (require_results r, s1))"

definition dry_run_main ::
    "outside \<Rightarrow> pandas_lib \<Rightarrow> plot_lib \<Rightarrow> bstate \<Rightarrow> bench_result list result \<times> bstate" where
  "dry_run_main W P V s =
     (let (r, s1) = run W P V (BenchmarkRunner_init EVIDENCE_DIR None None 50 15 10 1) s
      in (require_results r, s1))"

definition MOCK_PUBLISHER_SRC :: string where
  "MOCK_PUBLISHER_SRC = ''/app/tests/phase6/misp_publisher_mock.py''"

definition MOCK_PUBLISHER_DST :: string where
  "MOCK_PUBLISHER_DST = ''/tmp/misp_publisher_mock.py''"

definition resolve_misp_container :: "outside \<Rightarrow> bstate \<Rightarrow> string \<times> bstate" where
  "resolve_misp_container W s =
     (let (p, s1) = subprocess_run W (docker_ps ''misp'') s in (container_name ''misp'' (stdout p), s1))"

definition setup_misp_mock :: "outside \<Rightarrow> bstate \<Rightarrow> unit result \<times> bstate" where
  "setup_misp_mock W s =
     (let (misp, s1) = resolve_misp_container W s;
          (result, s2) = subprocess_run W
            (''docker cp '' @ MOCK_PUBLISHER_SRC @ '' '' @ misp @ '':'' @ MOCK_PUBLISHER_DST) s1
      in if returncode result \<noteq> 0 then (Inl (SystemExit ''1''), s2)
         else
           (let (verify, s3) = subprocess_run W
                  (''docker exec '' @ misp @ '' python3 -c '' @ [CHR 0x22] @ ''import os; assert os.path.exists(''
                     @ [CHR 0x27] @ MOCK_PUBLISHER_DST @ [CHR 0x27] @ '')'' @ [CHR 0x22]) s2
            in if returncode verify \<noteq> 0 then (Inl (SystemExit ''1''), s3) else (Inr (), s3)))"

text \<open>\<open>repeat_runner.main\<close>: the full campaign, which fails unless all twenty results are there.\<close>

definition full_runner :: BenchmarkRunner where
  "full_runner = BenchmarkRunner_init ''/app/stat-data/phase7''
     (Some ''/app/results/phase5/evidence/telemetry_a.jsonl'')
     (Some ''/app/results/phase5/evidence/telemetry_b.jsonl'') 5000 900 1000 5"

definition repeat_runner_main ::
    "outside \<Rightarrow> pandas_lib \<Rightarrow> plot_lib \<Rightarrow> bstate \<Rightarrow> bench_result list result \<times> bstate" where
  "repeat_runner_main W P V s =
     (case setup_misp_mock W s of
        (Inl e, s1) \<Rightarrow> (Inl e, s1)
      | (Inr _, s1) \<Rightarrow>
          (let (r, s2) = run W P V full_runner s1;
               expected_count = 5 * 2 * 2
           in (rbind (require_results r) (\<lambda>results.
                 if length results \<noteq> expected_count then Inl (SystemExit ''1'') else Inr results), s2)))"

section \<open>Lemmas\<close>

type_synonym combination = "int \<times> string \<times> string"

definition result_key :: "bench_result \<Rightarrow> combination" where
  "result_key r = (r_iteration r, r_crypto r, r_profile r)"

text \<open>All combinations, in the order in which they are run.\<close>

definition combinations :: "int \<Rightarrow> combination list" where
  "combinations n =
     concat (map (\<lambda>i. concat (map (\<lambda>c. map (\<lambda>p. (i, cc_group c, p)) [''stable'', ''adverse'']) [CLASSICAL, HYBRID_PQC]))
       [1..n])"

text \<open>A collecting loop: what its bodies promise of their results, it promises of all of them.\<close>

lemma collecting_subseq:
  assumes "\<And>x s rs ls s'. x \<in> set xs \<Longrightarrow> body x s = (Inr (rs, ls), s') \<Longrightarrow> subseq (map f rs) (ks x)"
    and "collecting body xs s = (Inr (rs, ls), s')"
  shows "subseq (map f rs) (concat (map ks xs))"
  using assms
proof (induction xs arbitrary: s rs ls s')
  case (Cons x xs)
  from Cons.prems(2) obtain rs1 ls1 s1 rs2 ls2 where
    b: "body x s = (Inr (rs1, ls1), s1)" "collecting body xs s1 = (Inr (rs2, ls2), s')" "rs = rs1 @ rs2"
    by (auto split: prod.splits sum.splits)
  have "subseq (map f rs1) (ks x)" by (rule Cons.prems(1) [OF _ b(1)]) simp
  moreover have "subseq (map f rs2) (concat (map ks xs))"
    by (rule Cons.IH [OF _ b(2)]) (use Cons.prems(1) in auto)
  ultimately show ?case using b(3) by (simp add: list_emb_append_mono)
qed simp

lemma collect_and_compute_key:
  "collect_and_compute P R fs crypto profile rtt i = Inr (Some r) \<Longrightarrow> result_key r = (i, crypto, profile)"
  by (auto simp: collect_and_compute_def result_key_def metrics.extend_def split: if_splits option.splits)

lemma evaluate_profile_keys:
  assumes "evaluate_profile P R i crypto profile m = (Inr (rs, ls), s')"
  shows "subseq (map result_key rs) [(i, crypto, profile)]"
  using assms
  by (auto simp: evaluate_profile_def dest!: collect_and_compute_key split: prod.splits sum.splits option.splits)

lemmas run_profile_keys = evaluate_profile_keys [OF run_profile_def [symmetric, THEN trans]]

lemma run_iteration_keys:
  assumes "run_iteration W P R i s = (Inr (rs, ls), s')"
  shows "subseq (map result_key rs)
    (concat (map (\<lambda>c. map (\<lambda>p. (i, cc_group c, p)) [''stable'', ''adverse'']) [CLASSICAL, HYBRID_PQC]))"
proof (rule collecting_subseq [OF _ assms [unfolded run_iteration_def]])
  fix c s rs ls s'
  assume "run_crypto W P R i c s = (Inr (rs, ls), s')"
  then have "collecting (run_profile W P R i (cc_group c)) [''stable'', ''adverse'']
      (time_sleep W (min (wait_seconds R) 10) (restart_gateways W R (set_crypto_env c s))) = (Inr (rs, ls), s')"
    by (simp add: run_crypto_def Let_def)
  then have "subseq (map result_key rs) (concat (map (\<lambda>p. [(i, cc_group c, p)]) [''stable'', ''adverse'']))"
    by (rule collecting_subseq [rotated]) (rule run_profile_keys)
  then show "subseq (map result_key rs) (map (\<lambda>p. (i, cc_group c, p)) [''stable'', ''adverse''])" by simp
qed

lemma run_keys:
  assumes "run W P V R s = (Inr results, s')"
  shows "subseq (map result_key results) (combinations (iterations R))"
proof -
  from assms obtain ls s1 where
    "collecting (run_iteration W P R) [1..iterations R] s = (Inr (results, ls), s1)"
    by (auto simp: run_def split: prod.splits sum.splits)
  from collecting_subseq [OF run_iteration_keys this] show ?thesis by (simp only: combinations_def)
qed

lemma groups_differ: "cc_group CLASSICAL \<noteq> cc_group HYBRID_PQC"
  by (simp add: CLASSICAL_def HYBRID_PQC_def)

lemma distinct_combinations: "distinct (combinations n)"
proof -
  let ?f = "\<lambda>i. concat (map (\<lambda>c. map (\<lambda>p. (i, cc_group c, p)) [''stable'', ''adverse'']) [CLASSICAL, HYBRID_PQC])"
  have "distinct (concat (map ?f is))" if "distinct is" for "is" :: "int list"
    using that by (induction "is") (use groups_differ in auto)
  from this [of "[1..n]"] show ?thesis unfolding combinations_def by simp
qed

lemma length_combinations: "length (combinations n) = 4 * nat n"
  by (simp add: combinations_def length_concat comp_def sum_list_triv)

subsection \<open>Stale telemetry\<close>

definition no_telemetry :: "BenchmarkRunner \<Rightarrow> fsys \<Rightarrow> bool" where
  "no_telemetry R fs = (files fs (telemetry_a R) = None \<and> files fs (telemetry_b R) = None)"

text \<open>Nothing outside writes telemetry: where there is none, there is none afterwards.\<close>

definition silent :: "outside \<Rightarrow> BenchmarkRunner \<Rightarrow> bool" where
  "silent W R = (\<forall>s. no_telemetry R (bs_fs s) \<longrightarrow>
     (\<forall>cmd. no_telemetry R (snd (os_run W s cmd))) \<and> (\<forall>n. no_telemetry R (os_sleep W s n)))"

lemma cleared: "no_telemetry R (bs_fs (clear_telemetry R s))"
  by (auto simp: no_telemetry_def clear_telemetry_def remove_file_def path_exists_def)

lemma silent_exec:
  "silent W R \<Longrightarrow> no_telemetry R (bs_fs s) \<Longrightarrow> no_telemetry R (bs_fs (snd (default_exec W cmd s)))"
  by (auto simp: silent_def default_exec_def subprocess_run_def split: prod.split) (metis snd_conv)

lemma measured_silent:
  assumes "silent W R"
  shows "no_telemetry R (bs_fs (snd (measure_profile W R profile s)))"
proof -
  have "no_telemetry R (bs_fs (inject_events W n (clear_telemetry R s1)))" for n s1
    using silent_exec [OF assms] silent_exec [OF assms cleared]
    by (simp add: inject_events_def resolve_container_def split: prod.split) (metis snd_conv)
  then show ?thesis
    using assms by (simp add: measure_profile_def Let_def time_sleep_def silent_def split: prod.split)
qed

lemma collect_nothing: "no_telemetry R fs \<Longrightarrow> collect m fs (collector R) = Inr []"
  by (simp add: collect_def collector_def no_telemetry_def parse_jsonl_def path_exists_def)

lemma run_profile_silent:
  assumes "silent W R"
  shows "fst (run_profile W P R i crypto profile s) = Inr ([], [])"
proof (cases "measure_profile W R profile s")
  case (Pair rtt s1)
  with measured_silent [OF assms, of profile s] have "collect (pd_merge P) (bs_fs s1) (collector R) = Inr []"
    by (simp add: collect_nothing)
  then show ?thesis by (simp add: run_profile_def evaluate_profile_def collect_and_compute_def Pair)
qed

lemma collecting_nothing:
  assumes "\<And>x s. fst (body x s) = Inr ([], [])"
  shows "fst (collecting body xs s) = Inr ([], [])"
proof (induction xs arbitrary: s)
  case (Cons x xs)
  obtain s1 where "body x s = (Inr ([], []), s1)" using assms [of x s] by (metis prod.collapse)
  moreover obtain s2 where "collecting body xs s1 = (Inr ([], []), s2)" using Cons.IH [of s1] by (metis prod.collapse)
  ultimately show ?case by simp
qed simp

subsection \<open>A campaign for the witnesses\<close>

text \<open>Every pause leaves the same telemetry: one id, logged 1001 times by Gateway A and once by B.\<close>

definition demo_event_a :: row where
  "demo_event_a = [(''transaction_id'', VStr ''t''), (''state'', VStr ''acked''),
     (''telemetry'', VDict [(''t_received'', VInt 0), (''retry_count'', VInt 1)])]"

definition demo_event_b :: row where
  "demo_event_b = [(''transaction_id'', VStr ''t''), (''state'', VStr ''ACKED''),
     (''telemetry'', VDict [(''t_ingested_b'', VInt 5000000)])]"

definition demo_outside :: outside where
  "demo_outside =
     \<lparr>os_run = (\<lambda>s cmd. (\<lparr>stdout = ''c'', stderr = [], returncode = 0\<rparr>, bs_fs s)),
      os_sleep = (\<lambda>s n. (bs_fs s)\<lparr>files := (files (bs_fs s))
        (telemetry_a full_runner \<mapsto> jsonl (replicate 1001 demo_event_a),
         telemetry_b full_runner \<mapsto> jsonl [demo_event_b])\<rparr>)\<rparr>"

definition demo_row :: row where
  "demo_row = [(''tx_id'', VStr ''t''), (''t_received'', VInt 0), (''retry_count'', VInt 1), (''t_ingested_b'', VInt 5000000)]"

lemma demo_events_ok: "json_ok (VDict demo_event_a)" "json_ok (VDict demo_event_b)"
  by (simp_all add: demo_event_a_def demo_event_b_def ascii_valid ascii_def show_nat.simps)

lemma full_runner_paths: "telemetry_a full_runner = ''/app/results/phase5/evidence/telemetry_a.jsonl''"
  "telemetry_b full_runner = ''/app/results/phase5/evidence/telemetry_b.jsonl''"
  "warm_up_discard full_runner = 1000" "iterations full_runner = 5" "evidence_dir full_runner = ''/app/stat-data/phase7''"
  by (simp_all add: full_runner_def BenchmarkRunner_init_def)

lemma demo_collect:
  assumes "files fs (telemetry_a full_runner) = Some (jsonl (replicate 1001 demo_event_a))"
    and "files fs (telemetry_b full_runner) = Some (jsonl [demo_event_b])"
  shows "collect (pd_merge demo_pandas) fs (collector full_runner) = Inr (replicate 1001 demo_row)"
proof -
  let ?A = "replicate 1001 (VDict demo_event_a)"
  have p: "parse_jsonl fs (telemetry_a full_runner) = Inr ?A" "parse_jsonl fs (telemetry_b full_runner) = Inr [VDict demo_event_b]"
    using parse_jsonl_printed [OF assms(1)] parse_jsonl_printed [OF assms(2)] demo_events_ok by simp_all
  have "is_acked (VDict demo_event_a) = Inr True" "is_acked (VDict demo_event_b) = Inr True"
    by (simp_all add: is_acked_def demo_event_a_def demo_event_b_def upper_acked)
  then have f: "rfilter is_acked ?A = Inr ?A" "rfilter is_acked [VDict demo_event_b] = Inr [VDict demo_event_b]"
    by (auto intro!: rfilter_all)
  let ?a = "[(''tx_id'', VStr ''t''), (''t_received'', VInt 0), (''retry_count'', VInt 1)]"
  have e: "event_row (VDict demo_event_a) = Inr ?a"
    "event_row (VDict demo_event_b) = Inr [(''tx_id'', VStr ''t''), (''t_ingested_b'', VInt 5000000)]"
    by (simp_all add: event_row_def demo_event_a_def demo_event_b_def)
  have r: "rmap event_row (replicate n (VDict demo_event_a)) = Inr (replicate n ?a)" for n
    by (induction n) (simp_all add: e)
  have "concat (replicate n [x]) = replicate n x" for n and x :: row by (induction n) auto
  then show ?thesis
    unfolding collect_def collector_def TelemetryCollector.simps p rbind.simps f r
    by (simp add: e demo_pandas_def demo_merge_def inner_join_def join_rows_def demo_row_def)
qed

lemma demo_evaluates:
  assumes "files (bs_fs s) (telemetry_a full_runner) = Some (jsonl (replicate 1001 demo_event_a))"
    and "files (bs_fs s) (telemetry_b full_runner) = Some (jsonl [demo_event_b])"
  shows "\<exists>r ls s'. evaluate_profile demo_pandas full_runner i crypto profile (rtt, s) = (Inr ([r], ls), s')"
proof -
  note c = demo_collect [OF assms]
  have d: "iloc_from 1000 (replicate 1001 demo_row) = [demo_row]" by (simp add: iloc_from_def)
  have l: "latencies demo_pandas [demo_row] = Inr [Some 5]"
    by (simp add: latencies_def column_def columns_def demo_row_def demo_pandas_def opt2_def NS_TO_MS_def)
  have "\<exists>m. compute demo_pandas (replicate 1001 demo_row) 1000 = Inr (Some m)"
    by (simp add: compute_def d l Let_def) (simp add: column_def columns_def demo_row_def demo_pandas_def)
  then show ?thesis
    by (auto simp: evaluate_profile_def collect_and_compute_def get_latency_series_def c full_runner_paths d l)
qed

lemma demo_measured:
  "files (bs_fs (snd (measure_profile demo_outside full_runner profile s))) (telemetry_a full_runner)
     = Some (jsonl (replicate 1001 demo_event_a))"
  "files (bs_fs (snd (measure_profile demo_outside full_runner profile s))) (telemetry_b full_runner)
     = Some (jsonl [demo_event_b])"
  by (simp_all add: measure_profile_def Let_def time_sleep_def split: prod.split)
    (simp_all add: demo_outside_def full_runner_paths)

lemma collecting_length:
  assumes "\<And>x s. \<exists>rs ls s'. body x s = (Inr (rs, ls), s') \<and> length rs = k"
  shows "\<exists>rs ls s'. collecting body xs s = (Inr (rs, ls), s') \<and> length rs = k * length xs"
proof (induction xs arbitrary: s)
  case (Cons x xs)
  obtain rs ls s1 where b: "body x s = (Inr (rs, ls), s1)" "length rs = k" using assms [of x s] by blast
  obtain rs' ls' s2 where c: "collecting body xs s1 = (Inr (rs', ls'), s2)" "length rs' = k * length xs"
    using Cons.IH [of s1] by blast
  from b c show ?case by simp
qed simp

lemma demo_campaign:
  "\<exists>results s'. run demo_outside demo_pandas V full_runner s = (Inr results, s') \<and> length results = 20"
proof -
  have "\<exists>rs ls s'. run_profile demo_outside demo_pandas full_runner i c p s = (Inr (rs, ls), s') \<and> length rs = 1" for i c p s
    using demo_evaluates [OF demo_measured [of p s], of i c p "fst (measure_profile demo_outside full_runner p s)"]
    unfolding run_profile_def prod.collapse by force
  then have "\<exists>rs ls s'. run_crypto demo_outside demo_pandas full_runner i c s = (Inr (rs, ls), s')
      \<and> length rs = 1 * length [''stable'', ''adverse'']" for i c s
    unfolding run_crypto_def Let_def by (rule collecting_length)
  then have "\<exists>rs ls s'. run_iteration demo_outside demo_pandas full_runner i s = (Inr (rs, ls), s')
      \<and> length rs = 1 * length [''stable'', ''adverse''] * length [CLASSICAL, HYBRID_PQC]" for i s
    unfolding run_iteration_def by (rule collecting_length)
  from collecting_length [of "run_iteration demo_outside demo_pandas full_runner", OF this, of "[1..5]" s] show ?thesis
    by (auto simp: run_def full_runner_paths)
qed

section \<open>Properties\<close>

text \<open>
  C32: when the full campaign succeeds it is complete: \<open>repeat_runner\<close> returns only with exactly one
  result for each of the five iterations, both cryptographic modes and both network profiles, in
  the order in which they are run. Anything less makes it exit with an error.
\<close>

theorem full_campaign_complete:
  assumes "repeat_runner_main W P V s = (Inr results, s')"
  shows "map result_key results = combinations 5 \<and> length results = 20 \<and> distinct (map result_key results)"
proof -
  from assms obtain s1 s2 where r: "run W P V full_runner s1 = (Inr results, s2)" and n: "length results = 20"
    by (auto simp: repeat_runner_main_def require_results_def Let_def split: prod.splits sum.splits if_splits)
  from run_keys [OF r] have "subseq (map result_key results) (combinations 5)"
    by (simp add: full_runner_def BenchmarkRunner_init_def)
  then have "map result_key results = combinations 5"
    using n length_combinations [of 5] by (intro subseq_same_length) simp_all
  with n distinct_combinations [of 5] show ?thesis by simp
qed

definition demo_plots :: plot_lib where
  "demo_plots = \<lparr>to_csv = (\<lambda>_. []), draw_boxplot = (\<lambda>_. []), draw_cdf = (\<lambda>_ _. []), draw_overlay = (\<lambda>_. [])\<rparr>"

definition demo_state :: bstate where
  "demo_state = \<lparr>bs_environ = Map.empty, bs_cmds = [],
     bs_fs = write_file ''/app/results/phase5/evidence/telemetry_a.jsonl'' (jsonl [demo_event_a]) fs_empty,
     bs_sleeps = []\<rparr>"

theorem full_campaign_complete_witness:
  "\<exists>results s'. repeat_runner_main demo_outside demo_pandas demo_plots demo_state = (Inr results, s')
    \<and> map result_key results = combinations 5"
proof -
  obtain s1 where s1: "setup_misp_mock demo_outside demo_state = (Inr (), s1)"
    by (simp add: setup_misp_mock_def resolve_misp_container_def subprocess_run_def demo_outside_def)
  obtain results s2 where r: "run demo_outside demo_pandas demo_plots full_runner s1 = (Inr results, s2)" "length results = 20"
    using demo_campaign by blast
  then have "results \<noteq> []" by auto
  with s1 r have "repeat_runner_main demo_outside demo_pandas demo_plots demo_state = (Inr results, s2)"
    by (simp add: repeat_runner_main_def require_results_def)
  with full_campaign_complete [OF this] show ?thesis by blast
qed

text \<open>
  C33: a campaign never counts old telemetry. Whatever telemetry files are there at the start, if
  the gateways write none while it runs, the campaign returns no result: every combination clears
  the files before it injects its events.
\<close>

theorem stale_telemetry_not_counted:
  assumes "silent W R"
  shows "fst (run W P V R s) = Inr []"
proof -
  have "fst (run_crypto W P R i c s) = Inr ([], [])" for i c s
    unfolding run_crypto_def Let_def by (rule collecting_nothing) (rule run_profile_silent [OF assms])
  then have "fst (run_iteration W P R i s) = Inr ([], [])" for i s
    unfolding run_iteration_def by (rule collecting_nothing)
  then have "fst (collecting (run_iteration W P R) [1..iterations R] s) = Inr ([], [])"
    by (rule collecting_nothing)
  then show ?thesis by (auto simp: run_def split: prod.split)
qed


theorem stale_telemetry_not_counted_witness:
  "fst (run \<lparr>os_run = (\<lambda>s cmd. (\<lparr>stdout = [], stderr = [], returncode = 0\<rparr>, bs_fs s)), os_sleep = (\<lambda>s n. bs_fs s)\<rparr>
     demo_pandas demo_plots full_runner demo_state) = Inr []"
  by (rule stale_telemetry_not_counted) (simp add: silent_def)

end
