(* ===== verification/Bench_Analysis.thy ===== *)
theory Bench_Analysis
  imports Bench_Runner
begin

text \<open>
  The analysis of a finished campaign (\<open>analyze_telemetry.py\<close>): it finds the archived telemetry of
  every configuration by its file name, groups and joins both sides, cuts a window of 1000 events
  per iteration, splits the latency into the cryptographic path and the network, and reports
  medians with bootstrapped confidence intervals.

  \<open>numpy\<close> and \<open>pandas\<close> are parameters: the record \<open>analysis_lib\<close> has flattening, grouping, joining
  and sorting of frames, percentiles and the random choice of the bootstrap, and the statistics of
  \<open>pandas_lib\<close>. Tables and pictures are functions of the data handed over. The directory listing is
  an argument, in whatever order the system returns it, and \<open>None\<close> when there is no such directory.
\<close>

section \<open>Parameters\<close>

record analysis_lib =
  an_pandas :: pandas_lib
  an_normalize :: "pyval list \<Rightarrow> frame result"
  an_group :: "(string \<times> string) list \<Rightarrow> frame \<Rightarrow> frame result"
  an_merge :: "frame \<Rightarrow> frame \<Rightarrow> frame result"
  an_sort :: "string \<Rightarrow> frame \<Rightarrow> frame result"
  np_percentile :: "real \<Rightarrow> series \<Rightarrow> real option"
  np_choice :: "nat \<Rightarrow> nat \<Rightarrow> nat \<Rightarrow> nat list"

text \<open>\<open>np_choice call i n\<close>: the indices drawn for resample \<open>i\<close> of a call, out of \<open>n\<close>, with replacement.\<close>

section \<open>File names\<close>

text \<open>
  \<open>re.compile(r"telemetry_a_(.*)_(.*)_iter(\d+)\.jsonl").search(name)\<close> for a name without line
  breaks: the leftmost match, where each group takes as much as it can.
\<close>

definition iter_digits :: "string \<Rightarrow> string option" where
  "iter_digits t =
     (let ds = takeWhile is_digit (drop 5 t)
      in if prefix ''_iter'' t \<and> ds \<noteq> [] \<and> prefix ''.jsonl'' (drop (5 + length ds) t) then Some ds else None)"

definition last_index :: "(nat \<Rightarrow> bool) \<Rightarrow> nat \<Rightarrow> nat option" where
  "last_index p n = find p (rev [0..<n])"

definition match_profile :: "string \<Rightarrow> (string \<times> string) option" where
  "match_profile u =
     (case last_index (\<lambda>k. iter_digits (drop k u) \<noteq> None) (length u) of
        None \<Rightarrow> None
      | Some k \<Rightarrow> Some (take k u, the (iter_digits (drop k u))))"

definition match_groups :: "string \<Rightarrow> (string \<times> string \<times> string) option" where
  "match_groups r =
     (case last_index (\<lambda>k. r ! k = CHR ''_'' \<and> match_profile (drop (Suc k) r) \<noteq> None) (length r) of
        None \<Rightarrow> None
      | Some k \<Rightarrow> Some (take k r, the (match_profile (drop (Suc k) r))))"

fun pattern_search :: "string \<Rightarrow> (string \<times> string \<times> string) option" where
  "pattern_search [] = None"
| "pattern_search (c # s) =
     (if prefix ''telemetry_a_'' (c # s) \<and> match_groups (drop 12 (c # s)) \<noteq> None
      then match_groups (drop 12 (c # s))
      else pattern_search s)"

type_synonym configs = "((string \<times> string) \<times> string list) list"

definition add_config :: "string \<Rightarrow> configs \<Rightarrow> configs" where
  "add_config name cs =
     (case pattern_search name of
        None \<Rightarrow> cs
      | Some (crypto, profile, iteration) \<Rightarrow>
          AList.update (crypto, profile)
            ((case map_of cs (crypto, profile) of None \<Rightarrow> [] | Some its \<Rightarrow> its) @ [iteration]) cs)"

definition raw_glob :: "string list option \<Rightarrow> string list" where
  "raw_glob listing =
     (case listing of
        None \<Rightarrow> []
      | Some names \<Rightarrow> filter (\<lambda>n. prefix ''telemetry_a_'' n \<and> suffix ''.jsonl'' n) names)"

definition find_configs :: "string list \<Rightarrow> configs" where
  "find_configs names = fold add_config names []"

section \<open>One iteration\<close>

definition load_line :: "string \<Rightarrow> pyval list \<Rightarrow> pyval list" where
  "load_line line data =
     (if str_strip line = [] then data
      else case json_loads line of Inl _ \<Rightarrow> data | Inr v \<Rightarrow> data @ [v])"

definition load_jsonl :: "analysis_lib \<Rightarrow> fsys \<Rightarrow> string \<Rightarrow> frame result" where
  "load_jsonl A fs path =
     rbind (read_file path fs) (\<lambda>s.
       if \<not> valid_text s then Inl UnicodeError
       else
         (let data = fold load_line (file_lines s) []
          in if data = [] then Inr [] else an_normalize A data))"

definition frame_empty :: "frame \<Rightarrow> bool" where
  "frame_empty df = (list_all (\<lambda>r. r = []) df)"

definition strip_telemetry :: "frame \<Rightarrow> frame" where
  "strip_telemetry df = map (map (\<lambda>(k, v). (str_replace ''telemetry.'' [] k, v))) df"

definition AGG_A :: "(string \<times> string) list" where
  "AGG_A = [(''t_received'', ''min''), (''t_extracted'', ''max''), (''t_signed'', ''max''), (''t_acked'', ''max'')]"

definition AGG_B :: "(string \<times> string) list" where
  "AGG_B = [(''t_received_b'', ''max''), (''t_verified_b'', ''max''), (''t_ingested_b'', ''max'')]"

definition present_aggs :: "(string \<times> string) list \<Rightarrow> frame \<Rightarrow> (string \<times> string) list" where
  "present_aggs agg df = filter (\<lambda>(k, _). k \<in> columns df) agg"

text \<open>The window: 1000 events after the warm-up if there are enough, else the last 1000.\<close>

definition window :: "frame \<Rightarrow> frame" where
  "window df =
     (let n = length df; discard = 1000
      in if discard + 1000 \<le> n then take 1000 (drop discard df)
         else if 1000 < n then drop (n - 1000) df
         else df)"

definition raw_path :: "string \<Rightarrow> string \<Rightarrow> string \<Rightarrow> string \<Rightarrow> string" where
  "raw_path side crypto profile it =
     ''stat-data/phase7/raw/telemetry_'' @ side @ ''_'' @ crypto @ ''_'' @ profile @ ''_iter'' @ it @ ''.jsonl''"

definition iteration_frame :: "analysis_lib \<Rightarrow> fsys \<Rightarrow> string \<Rightarrow> string \<Rightarrow> string \<Rightarrow> frame option result" where
  "iteration_frame A fs crypto profile it =
     (let f_a = raw_path ''a'' crypto profile it; f_b = raw_path ''b'' crypto profile it
      in if \<not> (path_exists f_a fs \<and> path_exists f_b fs) then Inr None
         else
           rbind (load_jsonl A fs f_a) (\<lambda>df_a.
           rbind (load_jsonl A fs f_b) (\<lambda>df_b.
             if frame_empty df_a \<or> frame_empty df_b then Inr None
             else
               (let a = strip_telemetry df_a; b = strip_telemetry df_b
                in rbind (an_group A (present_aggs AGG_A a) a) (\<lambda>a_grouped.
                   rbind (an_group A (present_aggs AGG_B b) b) (\<lambda>b_grouped.
                   rbind (an_merge A a_grouped b_grouped) (\<lambda>merged.
                   rbind (if ''t_received'' \<in> columns merged then an_sort A ''t_received'' merged else Inr merged) (\<lambda>sorted.
                     Inr (Some (map (AList.update ''iteration'' (VStr it)) (window sorted)))))))))))"

section \<open>One configuration\<close>

record sample =
  s_iteration :: "pyval option"
  s_crypto :: "real option"
  s_network :: "real option"
  s_total :: "real option"

definition difference :: "series \<Rightarrow> series \<Rightarrow> series" where
  "difference xs ys = map2 (opt2 (\<lambda>a b. (a - b) / NS_TO_MS)) xs ys"

definition decompose :: "analysis_lib \<Rightarrow> frame \<Rightarrow> sample list result" where
  "decompose A df =
     (let col = column (an_pandas A) df
      in rbind (col ''t_signed'') (\<lambda>signed.
         rbind (col ''t_extracted'') (\<lambda>extracted.
         rbind (col ''t_verified_b'') (\<lambda>verified.
         rbind (col ''t_received_b'') (\<lambda>received_b.
         rbind (col ''t_ingested_b'') (\<lambda>ingested.
         rbind (col ''t_received'') (\<lambda>received.
           let crypto_a = difference signed extracted;
               crypto_b = difference verified received_b;
               crypto_path = map2 (opt2 (+)) crypto_a crypto_b;
               network = difference received_b signed;
               total = difference ingested received
           in Inr (map (\<lambda>(r, c, n, t). \<lparr>s_iteration = map_of r ''iteration'', s_crypto = c, s_network = n, s_total = t\<rparr>)
                (zip df (zip crypto_path (zip network total)))))))))))"

definition positive :: "real option \<Rightarrow> bool" where
  "positive x = (case x of None \<Rightarrow> False | Some v \<Rightarrow> 0 < v)"

definition usable :: "sample list \<Rightarrow> sample list" where
  "usable ss = filter (\<lambda>s. positive (s_crypto s) \<and> positive (s_network s)) ss"

definition resample_median :: "analysis_lib \<Rightarrow> (sample \<Rightarrow> real option) \<Rightarrow> sample list \<Rightarrow> pyval option list \<Rightarrow> nat list \<Rightarrow> real option" where
  "resample_median A col ss clusters drawn =
     (let sampled = concat (map (\<lambda>j. filter (\<lambda>s. s_iteration s = clusters ! j) ss) drawn)
      in pd_median (an_pandas A) (map col sampled))"

definition bootstrap_median_ci_cluster ::
    "analysis_lib \<Rightarrow> nat \<Rightarrow> sample list \<Rightarrow> (sample \<Rightarrow> real option) \<Rightarrow> real option \<times> real option" where
  "bootstrap_median_ci_cluster A call ss col =
     (let clusters = unique (map s_iteration ss); n_clusters = length clusters
      in if n_clusters = 0 then (Some 0, Some 0)
         else
           (let medians = map (\<lambda>i. resample_median A col ss clusters (np_choice A call i n_clusters)) [0..<1000];
                alpha = 1 - 0.95
            in (np_percentile A (alpha / 2 * 100) medians, np_percentile A ((1 - alpha / 2) * 100) medians)))"

record summary =
  su_crypto :: string
  su_profile :: string
  su_count :: nat
  crypto_path_median :: "real option"
  crypto_path_ci :: "real option \<times> real option"
  network_median :: "real option"
  network_ci :: "real option \<times> real option"
  end_to_end_median :: "real option"
  end_to_end_ci :: "real option \<times> real option"

definition summarize :: "analysis_lib \<Rightarrow> nat \<Rightarrow> string \<Rightarrow> string \<Rightarrow> sample list \<Rightarrow> summary" where
  "summarize A j crypto profile ss =
     \<lparr>su_crypto = crypto, su_profile = profile, su_count = length ss,
      crypto_path_median = pd_median (an_pandas A) (map s_crypto ss),
      crypto_path_ci = bootstrap_median_ci_cluster A (3 * j) ss s_crypto,
      network_median = pd_median (an_pandas A) (map s_network ss),
      network_ci = bootstrap_median_ci_cluster A (3 * j + 1) ss s_network,
      end_to_end_median = pd_median (an_pandas A) (map s_total ss),
      end_to_end_ci = bootstrap_median_ci_cluster A (3 * j + 2) ss s_total\<rparr>"

text \<open>The body of the loop over the configurations, \<open>j\<close> of which have been reported before.\<close>

definition config_frames :: "analysis_lib \<Rightarrow> fsys \<Rightarrow> string \<Rightarrow> string \<Rightarrow> string list \<Rightarrow> frame list result" where
  "config_frames A fs crypto profile its =
     rbind (rmap (iteration_frame A fs crypto profile) its) (\<lambda>fs. Inr (List.map_filter id fs))"

definition analyze_config ::
    "analysis_lib \<Rightarrow> fsys \<Rightarrow> nat \<Rightarrow> (string \<times> string) \<times> string list \<Rightarrow> (string \<times> sample list \<times> summary) option result" where
  "analyze_config A fs j = (\<lambda>((crypto, profile), its).
     rbind (config_frames A fs crypto profile its) (\<lambda>frames.
       if frames = [] then Inr None
       else
         rbind (decompose A (concat frames)) (\<lambda>samples.
           let ss = usable samples
           in if ss = [] then Inr None
              else Inr (Some (crypto @ ''_'' @ profile, ss, summarize A j crypto profile ss)))))"

fun analyze_configs ::
    "analysis_lib \<Rightarrow> fsys \<Rightarrow> nat \<Rightarrow> configs \<Rightarrow> (string \<times> sample list \<times> summary) list result" where
  "analyze_configs A fs j [] = Inr []"
| "analyze_configs A fs j (c # cs) =
     rbind (analyze_config A fs j c) (\<lambda>r.
       case r of
         None \<Rightarrow> analyze_configs A fs j cs
       | Some x \<Rightarrow> rbind (analyze_configs A fs (Suc j) cs) (\<lambda>xs. Inr (x # xs)))"

section \<open>Output\<close>

record analysis_plots =
  summary_csv :: "summary list \<Rightarrow> string"
  component_boxplots :: "(string \<times> real list \<times> real list) list \<Rightarrow> string"
  cdf_overlay :: "string \<Rightarrow> (nat \<times> string \<times> (real \<times> real) list) list \<Rightarrow> string"

definition labelled_by :: "(sample \<Rightarrow> real option) \<Rightarrow> (string \<times> sample list \<times> summary) list \<Rightarrow> (string \<times> real option) list" where
  "labelled_by col rs = concat (map (\<lambda>(label, ss, _). map (\<lambda>s. (label, col s)) ss) rs)"

definition sorted_labels :: "(string \<times> real option) list \<Rightarrow> string list" where
  "sorted_labels df = sort (unique (map fst df))"

definition plot_component_boxplots ::
    "analysis_plots \<Rightarrow> (string \<times> sample list \<times> summary) list \<Rightarrow> string \<Rightarrow> fsys \<Rightarrow> fsys" where
  "plot_component_boxplots V rs output_dir fs =
     (let c = labelled_by s_crypto rs; n = labelled_by s_network rs
      in write_file (path_join output_dir ''boxplot_components.png'')
           (component_boxplots V (map (\<lambda>l. (l, data_of c l, data_of n l)) (sorted_labels c))) fs)"

definition plot_cdf_overlay ::
    "analysis_plots \<Rightarrow> (string \<times> real option) list \<Rightarrow> string \<Rightarrow> string \<Rightarrow> string \<Rightarrow> fsys \<Rightarrow> fsys" where
  "plot_cdf_overlay V df title filename output_dir fs =
     (let curves = map (\<lambda>(i, l). (i, l, cdf_points (data_of df l)))
            (filter (\<lambda>(i, l). data_of df l \<noteq> []) (enumerate 0 (sorted_labels df)))
      in write_file (path_join output_dir filename) (cdf_overlay V title curves) fs)"

definition analyze_main :: "analysis_lib \<Rightarrow> analysis_plots \<Rightarrow> string list option \<Rightarrow> fsys \<Rightarrow> summary list result \<times> fsys" where
  "analyze_main A V listing fs =
     (case analyze_configs A fs 0 (find_configs (raw_glob listing)) of
        Inl e \<Rightarrow> (Inl e, fs)
      | Inr rs \<Rightarrow>
          (let summary_results = map (\<lambda>(_, _, su). su) rs; out = ''stat-data/phase7''
           in (Inr summary_results,
               if summary_results = [] then fs
               else
                 (let fs1 = write_file (path_join out ''final_decomposed_statistics.csv'') (summary_csv V summary_results) fs;
                      fs2 = plot_cdf_overlay V (labelled_by s_total rs) ''End-to-End Latency'' ''cdf_overlay_end_to_end.png'' out fs1;
                      fs3 = plot_cdf_overlay V (labelled_by s_crypto rs) ''Crypto-Path Latency'' ''cdf_overlay_crypto.png'' out fs2;
                      fs4 = plot_cdf_overlay V (labelled_by s_network rs) ''Network Transit'' ''cdf_overlay_network.png'' out fs3
                  in plot_component_boxplots V rs out fs4))))"

section \<open>Lemmas\<close>

text \<open>What the libraries promise: the statistics, percentiles by interpolation, indices in range.\<close>

definition analysis_law :: "analysis_lib \<Rightarrow> bool" where
  "analysis_law A = (stats_law (an_pandas A)
     \<and> (\<forall>q xs. xs \<noteq> [] \<longrightarrow> 0 \<le> q \<longrightarrow> q \<le> 100 \<longrightarrow> np_percentile A q (map Some xs) = Some (percentile (q / 100) xs))
     \<and> (\<forall>call i n. length (np_choice A call i n) = n \<and> (\<forall>j \<in> set (np_choice A call i n). j < n)))"

subsection \<open>Windows\<close>

lemma length_window: "length (window df) \<le> 1000"
  by (auto simp: window_def Let_def)

lemma iteration_frame_length:
  assumes "iteration_frame A fs crypto profile it = Inr (Some df)"
  shows "length df \<le> 1000"
  using assms length_window by (auto simp: iteration_frame_def Let_def split: if_splits)

lemma rmap_Inr_set: "rmap f xs = Inr ys \<Longrightarrow> y \<in> set ys \<Longrightarrow> \<exists>x \<in> set xs. f x = Inr y"
  by (induction xs arbitrary: ys) auto

lemma rmap_Inr_length: "rmap f xs = Inr ys \<Longrightarrow> length ys = length xs"
  by (induction xs arbitrary: ys) auto

lemma length_concat_bound: "\<forall>x \<in> set xs. length x \<le> k \<Longrightarrow> length (concat xs) \<le> k * length xs"
  by (induction xs) auto

lemma config_frames_length:
  assumes "config_frames A fs crypto profile its = Inr frames"
  shows "length (concat frames) \<le> 1000 * length its"
proof -
  from assms obtain os where r: "rmap (iteration_frame A fs crypto profile) its = Inr os" and f: "frames = List.map_filter id os"
    by (auto simp: config_frames_def)
  have "\<forall>df \<in> set frames. length df \<le> 1000"
    using rmap_Inr_set [OF r] iteration_frame_length by (fastforce simp: f map_filter_def)
  then have "length (concat frames) \<le> 1000 * length frames" by (rule length_concat_bound)
  also have "\<dots> \<le> 1000 * length os" by (simp add: f map_filter_def)
  finally show ?thesis using rmap_Inr_length [OF r] by simp
qed

lemma decompose_length: "decompose A df = Inr ss \<Longrightarrow> length ss \<le> length df"
  by (auto simp: decompose_def Let_def)

subsection \<open>Medians of positive columns\<close>

lemma positive_column:
  assumes "\<forall>s \<in> set ss. positive (col s)"
  obtains xs where "map col ss = map Some xs" "\<forall>x \<in> set xs. 0 < x" "length xs = length ss"
proof
  show "map col ss = map Some (map (the \<circ> col) ss)" "\<forall>x \<in> set (map (the \<circ> col) ss). 0 < x"
    using assms by (force simp: positive_def split: option.splits)+
qed simp

lemma percentile_pos:
  assumes "xs \<noteq> []" "\<forall>x \<in> set xs. 0 < x" "0 \<le> q" "q \<le> 1"
  shows "0 < percentile q xs"
proof -
  have "0 < Min (set xs)" using assms(1,2) by simp
  with percentile_range(1) [OF assms(1,3,4)] show ?thesis by linarith
qed

lemma median_pos:
  assumes "stats_law P" "ss \<noteq> []" "\<forall>s \<in> set ss. positive (col s)"
  shows "\<exists>m. pd_median P (map col ss) = Some m \<and> 0 < m"
proof -
  obtain xs where x: "map col ss = map Some xs" "\<forall>x \<in> set xs. 0 < x" "length xs = length ss"
    by (rule positive_column [OF assms(3)])
  have "present (map Some xs) = xs" using present_Some [of id xs] by simp
  moreover have "xs \<noteq> []" using x(3) assms(2) by auto
  ultimately show ?thesis using assms(1) x(1,2) percentile_pos [of xs "1 / 2"] by (auto simp: stats_law_def)
qed

lemma set_unique: "set (unique xs) = set xs"
proof -
  have "set (fold List.insert xs ys) = set xs \<union> set ys" for ys by (induction xs arbitrary: ys) auto
  then show ?thesis by (simp add: unique_def)
qed

text \<open>A bootstrapped interval of a positive column is an interval of positive numbers.\<close>

lemma bootstrap_ci:
  assumes "analysis_law A" "ss \<noteq> []" "\<forall>s \<in> set ss. positive (col s)"
  shows "\<exists>lo up. bootstrap_median_ci_cluster A call ss col = (Some lo, Some up) \<and> 0 < lo \<and> lo \<le> up"
proof -
  let ?cl = "unique (map s_iteration ss)"
  let ?med = "\<lambda>i. resample_median A col ss ?cl (np_choice A call i (length ?cl))"
  have cl: "set ?cl = s_iteration ` set ss" by (simp add: set_unique)
  with assms(2) have n: "0 < length ?cl" by (metis image_is_empty length_greater_0_conv list.set(1) set_empty2 set_empty)
  have m: "\<exists>m. ?med i = Some m \<and> 0 < m" for i
  proof -
    let ?d = "np_choice A call i (length ?cl)"
    let ?s = "concat (map (\<lambda>j. filter (\<lambda>s. s_iteration s = ?cl ! j) ss) ?d)"
    have d: "length ?d = length ?cl" "\<forall>j \<in> set ?d. j < length ?cl" using assms(1) by (auto simp: analysis_law_def)
    with n obtain j where j: "j \<in> set ?d" "j < length ?cl" by (metis length_greater_0_conv list.set_sel(1))
    then have "?cl ! j \<in> s_iteration ` set ss" using cl nth_mem by blast
    then obtain x where x: "x \<in> set ss" "s_iteration x = ?cl ! j" by auto
    with j(1) have "x \<in> set ?s" by auto
    then have "?s \<noteq> []" by (metis empty_iff list.set(1))
    moreover have "\<forall>s \<in> set ?s. positive (col s)" using assms(3) by auto
    ultimately show ?thesis
      using median_pos [of "an_pandas A" ?s col] assms(1) by (simp add: resample_median_def analysis_law_def)
  qed
  let ?ms = "map (\<lambda>i. the (?med i)) [0..<1000]"
  have ms: "map ?med [0..<1000] = map Some ?ms"
  proof -
    have "?med i = Some (the (?med i))" for i using m [of i] by auto
    then show ?thesis by simp
  qed
  have pos: "\<forall>x \<in> set ?ms. 0 < x"
  proof
    fix x
    assume "x \<in> set ?ms"
    then obtain i where "x = the (?med i)" by auto
    with m [of i] show "0 < x" by auto
  qed
  have ne: "?ms \<noteq> []" by simp
  have "bootstrap_median_ci_cluster A call ss col = (np_percentile A 2.5 (map Some ?ms), np_percentile A 97.5 (map Some ?ms))"
    using n unfolding bootstrap_median_ci_cluster_def Let_def ms by simp
  also have "\<dots> = (Some (percentile (2.5 / 100) ?ms), Some (percentile (97.5 / 100) ?ms))"
    using assms(1) ne unfolding analysis_law_def by (simp del: upt_Suc map_map)
  finally show ?thesis
    using percentile_pos [OF ne pos, of "2.5 / 100"] percentile_mono [OF ne, of "2.5 / 100" "97.5 / 100"] by simp
qed

subsection \<open>Configurations\<close>

lemma analyze_configs_set:
  assumes "analyze_configs A fs j cs = Inr rs" "x \<in> set rs"
  shows "\<exists>c \<in> set cs. \<exists>i. analyze_config A fs i c = Inr (Some x)"
  using assms
proof (induction cs arbitrary: j rs)
  case (Cons c cs)
  from Cons.prems(1) obtain r where r: "analyze_config A fs j c = Inr r" by auto
  show ?case
  proof (cases r)
    case None
    with r Cons show ?thesis by auto
  next
    case (Some z)
    with r Cons.prems(1) obtain xs where xs: "analyze_configs A fs (Suc j) cs = Inr xs" "rs = z # xs" by auto
    show ?thesis
    proof (cases "x = z")
      case True
      with r Some show ?thesis by auto
    next
      case False
      with xs Cons.prems(2) Cons.IH [OF xs(1)] show ?thesis by auto
    qed
  qed
qed simp

lemma analyze_config_sound:
  assumes "analysis_law A" "analyze_config A fs j ((crypto, profile), its) = Inr (Some (label, ss, su))"
  shows "su = summarize A j crypto profile ss" "ss \<noteq> []" "length ss \<le> 1000 * length its"
    "\<forall>s \<in> set ss. positive (s_crypto s)" "\<forall>s \<in> set ss. positive (s_network s)"
proof -
  from assms(2) obtain frames samples where f: "config_frames A fs crypto profile its = Inr frames"
    and d: "decompose A (concat frames) = Inr samples" and u: "ss = usable samples"
    and s: "ss \<noteq> []" "su = summarize A j crypto profile ss"
    by (auto simp: analyze_config_def Let_def split: if_splits)
  show "su = summarize A j crypto profile ss" "ss \<noteq> []" using s by simp_all
  have "length ss \<le> length samples" unfolding u usable_def by (rule length_filter_le)
  also have "\<dots> \<le> length (concat frames)" by (rule decompose_length [OF d])
  also have "\<dots> \<le> 1000 * length its" by (rule config_frames_length [OF f])
  finally show "length ss \<le> 1000 * length its" .
  show "\<forall>s \<in> set ss. positive (s_crypto s)" "\<forall>s \<in> set ss. positive (s_network s)"
    by (auto simp: u usable_def)
qed

subsection \<open>Names\<close>

lemma last_index_Some:
  assumes "k < n" "p k" "\<And>i. k < i \<Longrightarrow> i < n \<Longrightarrow> \<not> p i"
  shows "last_index p n = Some k"
  unfolding last_index_def find_Some_iff
  by (intro exI [of _ "n - Suc k"]) (use assms in \<open>auto simp: rev_nth\<close>)

text \<open>Without an underscore there is no further match.\<close>

lemma iter_digits_underscore: "CHR ''_'' \<notin> set t \<Longrightarrow> iter_digits t = None"
  by (cases t) (auto simp: iter_digits_def Let_def)

lemma match_profile_none: "CHR ''_'' \<notin> set u \<Longrightarrow> match_profile u = None"
proof -
  assume a: "CHR ''_'' \<notin> set u"
  then have "iter_digits (drop k u) = None" for k by (intro iter_digits_underscore) (meson in_set_dropD)
  then have "last_index (\<lambda>k. iter_digits (drop k u) \<noteq> None) (length u) = None"
    unfolding last_index_def find_None_iff by simp
  then show ?thesis by (simp add: match_profile_def)
qed

lemma iter_digits_name:
  assumes "ds \<noteq> []" "\<forall>c \<in> set ds. is_digit c"
  shows "iter_digits (''_iter'' @ ds @ ''.jsonl'') = Some ds"
proof -
  have "takeWhile is_digit (ds @ ''.jsonl'') = ds" using assms(2) by (simp add: takeWhile_append is_digit_def)
  moreover have e: "5 + length ds = length (''_iter'' @ ds)" by simp
  have "drop (5 + length ds) ((''_iter'' @ ds) @ ''.jsonl'') = ''.jsonl''" unfolding e by (simp only: drop_append) simp
  ultimately show ?thesis using assms(1) by (simp add: iter_digits_def)
qed

text \<open>The name of an archived file of Gateway A: the profile has no underscore.\<close>

lemma match_profile_name:
  assumes "CHR ''_'' \<notin> set pr" "ds \<noteq> []" "\<forall>c \<in> set ds. is_digit c"
  shows "match_profile (pr @ ''_iter'' @ ds @ ''.jsonl'') = Some (pr, ds)"
proof -
  let ?u = "pr @ ''_iter'' @ ds @ ''.jsonl''"
  have ds: "CHR ''_'' \<notin> set ds" using assms(3) by (auto simp: is_digit_def)
  have "last_index (\<lambda>k. iter_digits (drop k ?u) \<noteq> None) (length ?u) = Some (length pr)"
  proof (rule last_index_Some)
    fix i
    assume "length pr < i" "i < length ?u"
    then obtain j where j: "i = length pr + Suc j" by (metis less_imp_Suc_add add_Suc_right)
    have "set (drop j (''iter'' @ ds @ ''.jsonl'')) \<subseteq> set (''iter'' @ ds @ ''.jsonl'')" by (rule set_drop_subset)
    then have "CHR ''_'' \<notin> set (drop j (''iter'' @ ds @ ''.jsonl''))" using ds by auto
    then show "\<not> iter_digits (drop i ?u) \<noteq> None" by (simp add: j iter_digits_underscore)
  qed (use iter_digits_name [OF assms(2,3)] in simp_all)
  then show ?thesis using iter_digits_name [OF assms(2,3)] by (simp add: match_profile_def)
qed

lemma match_groups_name:
  assumes "CHR ''_'' \<notin> set pr" "ds \<noteq> []" "\<forall>c \<in> set ds. is_digit c"
  shows "match_groups (cr @ ''_'' @ pr @ ''_iter'' @ ds @ ''.jsonl'') = Some (cr, pr, ds)"
proof -
  let ?r = "cr @ ''_'' @ pr @ ''_iter'' @ ds @ ''.jsonl''"
  have ds: "CHR ''_'' \<notin> set ds" using assms(3) by (auto simp: is_digit_def)
  have "last_index (\<lambda>k. ?r ! k = CHR ''_'' \<and> match_profile (drop (Suc k) ?r) \<noteq> None) (length ?r) = Some (length cr)"
  proof (rule last_index_Some)
    fix i
    assume i: "length cr < i" "i < length ?r"
    then obtain j where j: "i = length cr + Suc j" by (metis less_imp_Suc_add add_Suc_right)
    let ?u = "pr @ ''_iter'' @ ds @ ''.jsonl''"
    have n: "?r ! i = ?u ! j" by (simp add: j nth_append)
    show "\<not> (?r ! i = CHR ''_'' \<and> match_profile (drop (Suc i) ?r) \<noteq> None)"
    proof (cases "j < length pr")
      case True
      then have "?r ! i \<in> set pr" unfolding n by (simp add: nth_append)
      with assms(1) show ?thesis by auto
    next
      case False
      then obtain m where m: "j = length pr + m" by (metis le_add_diff_inverse not_less)
      have "drop (Suc i) ?r = drop m (''iter'' @ ds @ ''.jsonl'')" by (simp add: j m)
      moreover have "CHR ''_'' \<notin> set (drop m (''iter'' @ ds @ ''.jsonl''))"
        using ds set_drop_subset [of m "''iter'' @ ds @ ''.jsonl''"] by auto
      ultimately show ?thesis by (simp add: match_profile_none)
    qed
  qed (use match_profile_name [OF assms] in simp_all)
  then show ?thesis using match_profile_name [OF assms] by (simp add: match_groups_def)
qed

lemma archive_names:
  "archive_name ''/app/results/phase5/evidence/telemetry_a.jsonl'' cr pr i
     = ''telemetry_a_'' @ cr @ ''_'' @ pr @ ''_iter'' @ show_int i @ ''.jsonl''"
  "archive_name ''/app/results/phase5/evidence/telemetry_b.jsonl'' cr pr i
     = ''telemetry_b_'' @ cr @ ''_'' @ pr @ ''_iter'' @ show_int i @ ''.jsonl''"
  by (simp_all add: archive_name_def path_basename_def)

subsection \<open>Printed telemetry\<close>

lemma load_jsonl_printed:
  assumes "files fs p = Some (jsonl ds)" "\<forall>d \<in> set ds. json_ok (VDict d)" "ds \<noteq> []"
  shows "load_jsonl A fs p = an_normalize A (map VDict ds)"
proof -
  let ?ls = "map (\<lambda>d. json_dumps (VDict d)) ds"
  have "list_all no_breaks ?ls" using assms(2) dict_line(3) by (auto simp: list_all_iff simp del: json_dumps.simps)
  moreover have "jsonl ds = lines_text ?ls" by (induction ds) (simp_all del: json_dumps.simps)
  ultimately have "file_lines (jsonl ds) = ?ls" using file_lines_text [of ?ls] by (simp only:)
  moreover have "fold load_line (map (\<lambda>d. json_dumps (VDict d)) es) data = data @ map VDict es"
    if "\<forall>d \<in> set es. json_ok (VDict d)" for es data
    using that
  proof (induction es arbitrary: data)
    case (Cons d es)
    have "str_strip (json_dumps (VDict d)) = json_dumps (VDict d)"
      by (rule str_strip_ends) (simp_all add: is_space_def)
    then have "load_line (json_dumps (VDict d)) data = data @ [VDict d]"
      using json_loads_dumps [of "VDict d"] Cons.prems by (simp add: load_line_def del: json_dumps.simps) simp
    with Cons show ?case by (simp del: json_dumps.simps)
  qed simp
  moreover have "ascii (jsonl ds)"
    using assms(2) dumps_ascii by (induction ds) (auto simp: ascii_def octets_def simp del: json_dumps.simps)
  ultimately show ?thesis
    using assms by (simp add: load_jsonl_def read_file_def ascii_valid del: json_dumps.simps map_map)
qed

section \<open>Properties\<close>

text \<open>
  C39: the analysis finds what the campaign archived. For every profile without an underscore (both
  profiles of the campaign are such), the name under which the runner archives Gateway A's log of
  a combination is recognised as that combination, and the files the analysis then opens for it
  are the two archived ones. (The analysis names its directory relative to the working directory,
  which is \<open>/app\<close> in the container, where the runner archives under \<open>/app/stat-data\<close>.)
\<close>

theorem archived_names_recognised:
  assumes "CHR ''_'' \<notin> set profile" and "0 \<le> i"
  shows "pattern_search (archive_name (telemetry_a full_runner) crypto profile i) = Some (crypto, profile, show_int i)
    \<and> raw_path ''a'' crypto profile (show_int i) = ''stat-data/phase7/raw/'' @ archive_name (telemetry_a full_runner) crypto profile i
    \<and> raw_path ''b'' crypto profile (show_int i) = ''stat-data/phase7/raw/'' @ archive_name (telemetry_b full_runner) crypto profile i"
proof -
  have "show_int i = show_nat (nat i)" using assms(2) by (simp add: show_int_def)
  then have d: "show_int i \<noteq> []" "\<forall>c \<in> set (show_int i). is_digit c"
    using show_nat_nonempty [of "nat i"] show_nat_digits by auto
  show ?thesis
    unfolding full_runner_paths archive_names raw_path_def
    using match_groups_name [OF assms(1) d, of crypto] by simp
qed

theorem archived_names_recognised_witness:
  "pattern_search (archive_name (telemetry_a full_runner) ''X25519'' ''stable'' 3) = Some (''X25519'', ''stable'', ''3'')"
proof -
  have "show_int 3 = ''3''" by code_simp
  then show ?thesis using archived_names_recognised [of "''stable''" 3 "''X25519''"] by simp
qed

text \<open>
  C40: what the analysis reports of the two components is sound. Every row of its summary belongs to a configuration that
  was found, counts at least one and at most 1000 events per iteration, and its medians of the
  cryptographic path and of the network are positive, with confidence intervals that are ordered
  and positive, whatever clusters the bootstrap drew. Of the end-to-end median and interval in the
  same row nothing is promised: the filter does not look at that column.
\<close>

theorem analysis_sound:
  assumes "analysis_law A" and "analyze_main A V listing fs = (Inr rows, fs')" and "su \<in> set rows"
  shows "\<exists>its. ((su_crypto su, su_profile su), its) \<in> set (find_configs (raw_glob listing))
    \<and> 0 < su_count su \<and> su_count su \<le> 1000 * length its
    \<and> (\<exists>m lo up. crypto_path_median su = Some m \<and> 0 < m \<and> crypto_path_ci su = (Some lo, Some up) \<and> 0 < lo \<and> lo \<le> up)
    \<and> (\<exists>m lo up. network_median su = Some m \<and> 0 < m \<and> network_ci su = (Some lo, Some up) \<and> 0 < lo \<and> lo \<le> up)"
proof -
  from assms(2,3) obtain rs label ss where r: "analyze_configs A fs 0 (find_configs (raw_glob listing)) = Inr rs" "(label, ss, su) \<in> set rs"
    by (auto simp: analyze_main_def Let_def split: sum.splits)
  from analyze_configs_set [OF this] obtain crypto profile its j where c: "((crypto, profile), its) \<in> set (find_configs (raw_glob listing))"
    and a: "analyze_config A fs j ((crypto, profile), its) = Inr (Some (label, ss, su))" by auto
  note s = analyze_config_sound [OF assms(1) a]
  have P: "stats_law (an_pandas A)" using assms(1) by (simp add: analysis_law_def)
  show ?thesis
    using c s(2,3) median_pos [OF P s(2,4)] median_pos [OF P s(2,5)]
      bootstrap_ci [OF assms(1) s(2,4), of "3 * j"] bootstrap_ci [OF assms(1) s(2,5), of "3 * j + 1"]
    by (auto simp: s(1) summarize_def intro!: exI [of _ its])
qed

definition demo_analysis :: analysis_lib where
  "demo_analysis =
     \<lparr>an_pandas = demo_pandas,
      an_normalize = (\<lambda>vs. rmap (\<lambda>v. case v of VDict d \<Rightarrow> Inr d | _ \<Rightarrow> Inl TypeError) vs),
      an_group = (\<lambda>_ df. Inr df), an_merge = (\<lambda>l r. Inr (map2 (@) l r)), an_sort = (\<lambda>_ df. Inr df),
      np_percentile = (\<lambda>q s. if present s = [] then None else Some (percentile (q / 100) (present s))),
      np_choice = (\<lambda>_ _ n. [0..<n])\<rparr>"

definition demo_figures :: analysis_plots where
  "demo_figures = \<lparr>summary_csv = (\<lambda>rows. show_nat (length rows)), component_boxplots = (\<lambda>_. []), cdf_overlay = (\<lambda>title _. title)\<rparr>"

definition demo_line_a :: row where
  "demo_line_a = [(''t_received'', VInt 0), (''t_extracted'', VInt 1000000), (''t_signed'', VInt 3000000)]"

definition demo_line_b :: row where
  "demo_line_b = [(''t_received_b'', VInt 4000000), (''t_verified_b'', VInt 6000000), (''t_ingested_b'', VInt 9000000)]"

definition demo_raw :: fsys where
  "demo_raw = \<lparr>files = [raw_path ''a'' ''X25519'' ''stable'' ''3'' \<mapsto> jsonl [demo_line_a],
     raw_path ''b'' ''X25519'' ''stable'' ''3'' \<mapsto> jsonl [demo_line_b]], modes = Map.empty\<rparr>"

lemma demo_analysis_law: "analysis_law demo_analysis"
proof -
  have "present (map Some xs) = xs" for xs using present_Some [of id xs] by simp
  then show ?thesis using demo_pandas_laws(1) by (simp add: analysis_law_def demo_analysis_def)
qed

lemma demo_raw_loaded:
  "load_jsonl demo_analysis demo_raw (raw_path ''a'' ''X25519'' ''stable'' ''3'') = Inr [demo_line_a]"
  "load_jsonl demo_analysis demo_raw (raw_path ''b'' ''X25519'' ''stable'' ''3'') = Inr [demo_line_b]"
proof -
  have "json_ok (VDict demo_line_a)" "json_ok (VDict demo_line_b)"
    by (simp_all add: demo_line_a_def demo_line_b_def ascii_valid ascii_def json_ok_small del: json_ok.simps(3))
  moreover have "raw_path ''a'' ''X25519'' ''stable'' ''3'' \<noteq> raw_path ''b'' ''X25519'' ''stable'' ''3''"
    by (simp add: raw_path_def)
  ultimately show "load_jsonl demo_analysis demo_raw (raw_path ''a'' ''X25519'' ''stable'' ''3'') = Inr [demo_line_a]"
    "load_jsonl demo_analysis demo_raw (raw_path ''b'' ''X25519'' ''stable'' ''3'') = Inr [demo_line_b]"
    using load_jsonl_printed [of demo_raw _ "[demo_line_a]" demo_analysis] load_jsonl_printed [of demo_raw _ "[demo_line_b]" demo_analysis]
    by (simp_all add: demo_raw_def demo_analysis_def)
qed

lemma demo_config:
  "find_configs (raw_glob (Some [''telemetry_a_X25519_stable_iter3.jsonl''])) = [((''X25519'', ''stable''), [''3''])]"
proof -
  have "pattern_search ''telemetry_a_X25519_stable_iter3.jsonl'' = Some (''X25519'', ''stable'', ''3'')"
    using match_groups_name [of "''stable''" "''3''" "''X25519''"] by (simp add: is_digit_def)
  then show ?thesis by (simp add: find_configs_def raw_glob_def add_config_def suffix_def)
qed

lemma demo_iteration:
  "iteration_frame demo_analysis demo_raw ''X25519'' ''stable'' ''3''
     = Inr (Some [demo_line_a @ demo_line_b @ [(''iteration'', VStr ''3'')]])"
proof -
  have "path_exists (raw_path s ''X25519'' ''stable'' ''3'') demo_raw" if "s = ''a'' \<or> s = ''b''" for s
    using that by (auto simp: path_exists_def demo_raw_def)
  moreover have "strip_telemetry [demo_line_a] = [demo_line_a]" "strip_telemetry [demo_line_b] = [demo_line_b]"
    by code_simp+
  moreover have "an_group demo_analysis g df = Inr df" "an_sort demo_analysis k df = Inr df"
      "an_merge demo_analysis l r = Inr (map2 (@) l r)" for g k df l r
    by (simp_all add: demo_analysis_def)
  moreover have "AList.update ''iteration'' (VStr ''3'') (demo_line_a @ demo_line_b)
      = demo_line_a @ demo_line_b @ [(''iteration'', VStr ''3'')]"
    by (simp add: demo_line_a_def demo_line_b_def)
  ultimately show ?thesis
    by (simp add: iteration_frame_def Let_def demo_raw_loaded window_def frame_empty_def)
      (simp add: demo_line_a_def demo_line_b_def)
qed

lemma demo_decomposed:
  "decompose demo_analysis [demo_line_a @ demo_line_b @ [(''iteration'', VStr ''3'')]]
     = Inr [\<lparr>s_iteration = Some (VStr ''3''), s_crypto = Some 4, s_network = Some 1, s_total = Some 9\<rparr>]"
  by (simp add: decompose_def demo_analysis_def column_def columns_def demo_line_a_def demo_line_b_def
      demo_pandas_def difference_def opt2_def NS_TO_MS_def)

theorem analysis_sound_witness:
  "\<exists>su fs' m lo up. analyze_main demo_analysis demo_figures (Some [''telemetry_a_X25519_stable_iter3.jsonl'']) demo_raw = (Inr [su], fs')
    \<and> su_crypto su = ''X25519'' \<and> 0 < su_count su \<and> su_count su \<le> 1000
    \<and> network_median su = Some m \<and> 0 < m \<and> network_ci su = (Some lo, Some up) \<and> 0 < lo \<and> lo \<le> up"
proof -
  let ?l = "Some [''telemetry_a_X25519_stable_iter3.jsonl'']"
  obtain su fs' where r: "analyze_main demo_analysis demo_figures ?l demo_raw = (Inr [su], fs')"
    by (simp add: analyze_main_def demo_config analyze_config_def config_frames_def demo_iteration demo_decomposed
        map_filter_def usable_def positive_def Let_def)
  from analysis_sound [OF demo_analysis_law r, of su] obtain its where
    "((su_crypto su, su_profile su), its) \<in> set (find_configs (raw_glob ?l))"
    "0 < su_count su" "su_count su \<le> 1000 * length its"
    "\<exists>m lo up. network_median su = Some m \<and> 0 < m \<and> network_ci su = (Some lo, Some up) \<and> 0 < lo \<and> lo \<le> up"
    by auto
  with r show ?thesis by (auto simp: demo_config)
qed

end
