(* ===== verification/Spec2Isabelle.thy ===== *)
theory Spec2Isabelle
  imports Sha256_Vectors Exchange Gateway_A_Shutdown Pki_Bootstrap Scripts Bench_Analysis
begin

text \<open>
  A verification development for the QSTIE prototype: two gateways that exchange threat
  intelligence over mutual TLS with post-quantum signatures, the certificate authority that issues
  their credentials, and the benchmark that measures them. All paths below are relative to the
  repository.

  \<^bold>\<open>The parts and how they interact.\<close> The certificate authority (\<open>packages/qstie-trust\<close>) issues
  gateway certificates and signing keys and exports them as a trust bundle; Gateway B loads the
  bundle as its trust store. Gateway A (\<open>gateway_a/\<close>) takes MISP events from a publisher, converts
  them to STIX bundles, signs the compressed bundle, applies its outbound policy and sends the
  transaction as one frame to Gateway B; five workers are connected by four bounded queues.
  Gateway B (\<open>gateway_b/\<close>) reads one frame per connection, checks the sender, revocation, signature
  and inbound policy, decompresses and ingests the bundle, and answers with an ACK or a NACK frame.
  The frame codec, the envelope and the enumerations are shared (\<open>packages/qstie-common\<close>). Both
  gateways log telemetry, which the benchmark (\<open>benchmark_runner/\<close>) collects, joins and evaluates,
  and archives for the final analysis (\<open>analyze_telemetry.py\<close>). A script (\<open>scripts/bootstrap_pki.py\<close>)
  drives the certificate authority through its command line and collects evidence.

  \<^bold>\<open>Theories.\<close>
  \<^item> \<open>Py_Prelude\<close>, \<open>Py_Text\<close>, \<open>Py_Json\<close>, \<open>Py_Json_Roundtrip\<close>, \<open>Py_Json_Indent\<close>, \<open>Py_Yaml\<close>,
    \<open>Py_Env\<close>, \<open>Sha256\<close>, \<open>Sha256_Vectors\<close>: the parts of Python and its library that the sources use, with exceptions as
    the datatype \<open>exn\<close> and fallible results as \<open>exn + 'a\<close>; UTF-8, \<open>json\<close> (compact and
    indenting printers, parser and the round trips), files with permission bits, environment variables, queues, SHA-256 on 32-bit words.
  \<^item> \<open>Interfaces\<close>: the contracts as locales: \<open>fail_closed\<close> (a policy decision point),
    \<open>guarded_system\<close> (a step relation with an invariant), \<open>bounded_fifo\<close> (a queue). Each is
    interpreted on the definitions of the gateways; so is \<open>stream_codec\<close> of \<open>Qstie_Common\<close>.
  \<^item> \<open>Qstie_Common\<close>, \<open>Qstie_Envelope\<close>: \<open>qstie_common\<close>: enumerations, errors, fingerprints, the
    frame codec on octets, the transaction envelope.
  \<^item> \<open>Qstie_Trust\<close>: \<open>qstie_trust\<close>: certificates, keys, revocation list, export, and the commands of
    \<open>cli.py\<close> on a file system; \<open>Qstie_Cli\<close>: its command line, from the option tables to the dispatch.
  \<^item> \<open>Gateway_B_Trust\<close> (trust store, verifier with its key cache), \<open>Gateway_B_Policy\<close> (inbound
    policy, ingestor, telemetry), \<open>Gateway_B_Protocol\<close> (\<open>transport/protocol.py\<close>),
    \<open>Gateway_B_Server\<close> (configuration, TLS context, connection slots, start-up).
  \<^item> \<open>Gateway_A_Models\<close> (transactions, configuration, queues, dead letters, telemetry),
    \<open>Gateway_A_Ingestion\<close> (listener and extractor), \<open>Gateway_A_Workers\<close> (signer and policy),
    \<open>Gateway_A_Transport\<close> (session, retries), \<open>Gateway_A_System\<close> (\<open>main.py\<close>: the pipeline as a
    step relation over the interleavings of the workers), \<open>Gateway_A_Shutdown\<close> (the same pipeline
    with the loop of every worker, its \<open>running\<close> flag and the shutdown handler of \<open>main.py\<close>; it
    refines the step relation of \<open>Gateway_A_System\<close>).
  \<^item> \<open>Exchange\<close>: the two gateways connected by a network that may cut the request anywhere.
  \<^item> \<open>Bench_Telemetry\<close>, \<open>Bench_Metrics\<close>, \<open>Bench_Network\<close>, \<open>Bench_Report\<close>, \<open>Bench_Runner\<close>:
    \<open>benchmark_runner/\<close> and its entry points; \<open>Bench_Analysis\<close>: \<open>analyze_telemetry.py\<close>.
  \<^item> \<open>Pki_Bootstrap\<close>: \<open>scripts/bootstrap_pki.py\<close> over \<open>Qstie_Cli\<close>; \<open>Scripts\<close>:
    \<open>scripts/toggle_router_profile.py\<close>, \<open>scripts/capture_metadata.py\<close>, \<open>run_repeated_tests.py\<close>.

  \<^bold>\<open>State and operations.\<close> A class is a record with the fields of the source, a method a function
  that takes and returns that record; module constants keep their names. A coroutine is the
  function of what its awaits deliver: Gateway B reads a list of chunks that ends with the end of
  the stream or an error, Gateway A's network is a function from the number of the attempt to its
  outcome. Where coroutines run concurrently (the pipeline, the server), each atomic turn is a rule
  of a step relation, so that a theorem over its reachable states holds for every interleaving.

  \<^bold>\<open>Code outside the repository\<close> is a parameter, with what the sources rely on as a named
  hypothesis of the theorems that need it: \<open>crypto_lib\<close> (\<open>cryptography\<close>; \<open>signature_law\<close>, that
  signatures verify, \<open>pem_laws\<close>, \<open>builder_law\<close>, and \<open>builder_accepts\<close>, that the certificate
  builder signs when the digest suits the key and the fields are acceptable), \<open>yaml_lib\<close> (PyYAML), \<open>pb_lib\<close> (the generated protobuf class;
  \<open>pb_roundtrip\<close>), \<open>stix_libs\<close> (the STIX converters), \<open>pycti_lib\<close> (OpenCTI), the compression
  functions, \<open>pandas_lib\<close> (\<open>merge_law\<close>, \<open>stats_law\<close>), \<open>plot_lib\<close> (CSV and pictures), \<open>outside\<close> (what
  shell commands and pauses do to the files), \<open>boot_lib\<close> (what the bootstrap uses besides, such as
  the test run; \<open>tests_tidy\<close>, that it leaves keys, certificates, trust stores, revocation list and
  record of runs alone), \<open>analysis_lib\<close> (numpy and pandas of the analysis; \<open>analysis_law\<close>) and
  \<open>analysis_plots\<close>. Randomness and clocks are arguments (\<open>cli_draw\<close>, \<open>boot_run\<close>). Witnesses instantiate each of them by a concrete
  function.

  \<^bold>\<open>What is shown.\<close> Gateway B answers every transaction as the abstract list of checks says, never
  uses an unverified payload, and replies exactly once per connection while writing works; what
  it replies depends on the first frame alone when a chunk ends with it, and on more than that
  otherwise; the codec, the envelope and JSON round-trip. Gateway A forwards the events that are
  tagged for sharing, with the marking of their last tag, and sends only what
  was extracted, signed and approved by its ordered rules; its queues stay bounded; while it serves,
  the work in its queues can be finished, after a shutdown it comes to rest, and every
  transaction that is sent ends acknowledged or dead-lettered. The two gateways agree on the verdict. Issued
  credentials are what the trust store loads, whatever key types root and leaf have; the verifier's
  cache is transparent; connections are
  bounded and start-up fails closed. The benchmark counts exactly what the gateways logged since
  the files were cleared, and its statistics are consistent; the analysis finds what the campaign
  archived and reports positive medians with ordered intervals for the two components of the
  latency. The command line of the authority runs what its usage says; the bootstrap can be
  repeated without creating new keys. Some theorems record defects: a
  revocation list written by the authority revokes nothing at Gateway B, the bootstrap revokes the
  very certificate that it trusts, a stricter marking is lost
  when a weaker tag follows it, an idle gateway cannot be shut down.

  \<^bold>\<open>Bounds and fuel.\<close> Every function is total. The JSON parser recurses with fuel
  \<open>2 * length s + 2\<close>, which is shown to suffice for every printed value; the other loops recurse on
  their input. Python integers are \<open>int\<close>; octets and the words of SHA-256 are machine words; the
  frame length is a 32-bit field with the limits of the source. Floating point numbers of the
  statistics are exact reals, and delays between attempts exact milliseconds (the source has
  seconds as floats, which overflow only for attempts far beyond any configured maximum).

  \<^bold>\<open>Not modelled.\<close> Logging and printing; the TLS handshake and the event loop of \<open>asyncio\<close> (their
  effects are parameters or rules); creating directories; clocks (the current time is an argument);
  the Prometheus endpoint of Gateway A (\<open>observability/metrics.py\<close>), whose counters nothing
  updates; \<open>check.py\<close>, which prints one library call; the separator \<open>--\<close> of command lines; the
  generated protobuf module; tests. Simplified: \<open>lower()\<close> and \<open>upper()\<close> change ASCII letters only;
  \<open>str()\<close> of a list, a dictionary or a float is not spelled out (a reply whose reason is not a
  text is the only place that reaches it; Gateway B sends texts); \<open>json.loads\<close> has no limit on nesting; \<open>time.sleep\<close> is given non-negative
  seconds; a transmission with its retries is one step of the pipeline, so that what the other
  workers do meanwhile comes before or after it.
\<close>

section \<open>Properties of the two gateways together\<close>

text \<open>
  C1: the gateways agree. For every transaction that Gateway A can frame and every way in which
  the network cuts the request, Gateway B writes exactly one reply, and what Gateway A reports on
  reading that reply is Gateway B's verdict: success exactly when every check of Gateway B passed,
  and otherwise the reason of the first check that failed. (The request and the reply have to fit
  in a frame of Gateway B's codec.)
\<close>

theorem gateways_agree:
  assumes "pb_roundtrip (g_pb g)" and "request_frame (g_pb g) t = Inr f" and "envelope_of t = Inr env"
    and "concat chunks = f" and "[] \<notin> set chunks"
    and "cache_ok (g_crypto g) (w_fs w) (w_verifier w)" and "quiet w" and "codec_ok (g_frame_codec g)"
    and "int (length f) \<le> max_payload_size (g_frame_codec g) + 5"
    and "12 * int (length (tx_id t)) + 500 \<le> max_payload_size (g_frame_codec g)"
  shows "\<exists>reply. w_written (snd (handle_connection g (SslCert der) fin (chunks @ later) w)) = w_written w @ [reply]
    \<and> fst (send_envelope (g_pb g) t \<lparr>ses_input = reply @ rest, ses_end = e, ses_drain = None\<rparr>)
        = (case verdict g w env (hex_bytes (sha256 der)) of
             None \<Rightarrow> (True, VStr ''ACK'') | Some r \<Rightarrow> (False, VStr (NackReason_value r)))"
  using exchange_agrees [OF assms] by (simp add: reported_def)

theorem gateways_agree_witness:
  "\<exists>f reply. request_frame json_pb demo_approved = Inr f
    \<and> w_written (snd (handle_connection demo_stranger (SslCert [1, 2, 3]) None ([f] @ []) demo_world)) = [reply]
    \<and> fst (send_envelope json_pb demo_approved \<lparr>ses_input = reply @ [], ses_end = Eof, ses_drain = None\<rparr>)
        = (False, VStr ''UNKNOWN_SENDER'')"
proof -
  from demo_request obtain f where f: "request_frame json_pb demo_approved = Inr f" "length f \<le> 10000" by blast
  from f(1) have ne: "f \<noteq> []" by (auto simp: request_frame_def pack_BI_def split: if_splits)
  from demo_envelope obtain env where env: "envelope_of demo_approved = Inr env" "\<not> missing_fields env" by blast
  have v: "verdict demo_stranger demo_world env fp = Some UNKNOWN_SENDER" for fp
    using env(2) by (simp add: verdict_def auth_checks_def the_agency_def get_agency_def demo_stranger_def)
  have "\<exists>reply. w_written (snd (handle_connection demo_stranger (SslCert [1, 2, 3]) None ([f] @ []) demo_world))
      = w_written demo_world @ [reply]
    \<and> fst (send_envelope (g_pb demo_stranger) demo_approved
        \<lparr>ses_input = reply @ [], ses_end = Eof, ses_drain = None\<rparr>)
      = (case verdict demo_stranger demo_world env (hex_bytes (sha256 [1, 2, 3])) of
           None \<Rightarrow> (True, VStr ''ACK'') | Some r \<Rightarrow> (False, VStr (NackReason_value r)))"
    by (rule gateways_agree) (use f ne env(1) demo_ready demo_sizes in \<open>simp_all add: demo_stranger_def demo_gateway_fields json_pb_roundtrip\<close>)
  with f(1) v show ?thesis by (auto simp: demo_stranger_def demo_gateway_fields)
qed

text \<open>
  C2: end to end. A transaction that Gateway A's signer signed and Gateway A's policy approved is
  acknowledged: if Gateway B's trust store names the sender with the certificate of the connection
  and the public half of the signing key, neither of them revoked, its policy allows the transfer,
  and the bundle is a STIX bundle that the ingestor takes, then Gateway B writes exactly one reply,
  on which Gateway A reports success. Compression and signatures are arbitrary, as long as
  decompression inverts compression and signatures verify.
\<close>

theorem signed_bundle_is_acknowledged:
  assumes "pb_roundtrip (g_pb g)" and "signature_law (g_crypto g)"
    and "\<And>x. g_zlib_decompress g (compress x) = Some x"
    and "signer_key (sw_signer sw) = Some k" and "tx_bundle t0 = Some b"
    and "signer_turn (g_crypto g) compress sw tnow t0 = Inr t1"
    and "pep_turn pep t1 dl = (Inr (Some t), dl')"
    and "tx_id t0 \<noteq> []" and "tx_sender t0 \<noteq> []" and "tx_signature t \<noteq> []" and "compress (raw_json b) \<noteq> []"
    and "knows_sender g w (tx_sender t0) (hex_bytes (sha256 der)) (pub_of (g_crypto g) k)"
    and "fst (evaluate (g_pep g) (tx_sender t0) (tx_recipient t0) (TlpMarking_value (sb_tlp_marking b)))"
    and "parse_stix (raw_json b) = Inr (Some stix)"
    and "fst (ingest_bundle (g_pycti g) stix (w_ingestor w))"
    and "request_frame (g_pb g) t = Inr f" and "concat chunks = f" and "[] \<notin> set chunks"
    and "cache_ok (g_crypto g) (w_fs w) (w_verifier w)" and "quiet w" and "codec_ok (g_frame_codec g)"
    and "int (length f) \<le> max_payload_size (g_frame_codec g) + 5"
    and "12 * int (length (tx_id t0)) + 500 \<le> max_payload_size (g_frame_codec g)"
  shows "\<exists>reply. w_written (snd (handle_connection g (SslCert der) fin (chunks @ later) w)) = w_written w @ [reply]
    \<and> fst (send_envelope (g_pb g) t \<lparr>ses_input = reply @ rest, ses_end = e, ses_drain = None\<rparr>)
        = (True, VStr ''ACK'')"
proof -
  from signed_envelope [OF assms(2,4,6,7)] assms(5) obtain env where
    env: "envelope_of t = Inr env" "transaction_id env = tx_id t0" "sender_id env = tx_sender t0"
      "recipient_id env = tx_recipient t0" "tlp_marking env = sb_tlp_marking b"
      "stix_bundle_compressed env = compress (raw_json b)" "signature env = tx_signature t"
    and v: "key_verify (g_crypto g) (pub_of (g_crypto g) k) (tx_signature t) (sha256 (compress (raw_json b)))"
    and i: "tx_id t = tx_id t0"
    by (metis (no_types, lifting) TransactionEnvelope.select_convs option.inject)
  have "verdict g w env (hex_bytes (sha256 der)) = None"
    by (rule signed_verdict [where key = "pub_of (g_crypto g) k" and raw = "raw_json b" and stix = stix])
      (use assms env v in \<open>simp_all add: missing_fields_def\<close>)
  moreover have "12 * int (length (tx_id t)) + 500 \<le> max_payload_size (g_frame_codec g)"
    using assms(23) i by simp
  note exchange_agrees [OF assms(1,16) env(1) assms(17-22) this, of der fin later rest e]
  ultimately show ?thesis by (simp add: reported_def)
qed

theorem signed_bundle_is_acknowledged_witness:
  "\<exists>f reply. request_frame json_pb demo_approved = Inr f
    \<and> w_written (snd (handle_connection demo_gateway (SslCert [1, 2, 3]) None ([f] @ []) demo_world)) = [reply]
    \<and> fst (send_envelope json_pb demo_approved \<lparr>ses_input = reply @ [], ses_end = Eof, ses_drain = None\<rparr>)
        = (True, VStr ''ACK'')"
proof -
  from demo_request obtain f where f: "request_frame json_pb demo_approved = Inr f" "length f \<le> 10000" by blast
  from f(1) have ne: "f \<noteq> []" by (auto simp: request_frame_def pack_BI_def split: if_splits)
  have "\<exists>reply. w_written (snd (handle_connection demo_gateway (SslCert [1, 2, 3]) None ([f] @ []) demo_world))
      = w_written demo_world @ [reply]
    \<and> fst (send_envelope (g_pb demo_gateway) demo_approved
        \<lparr>ses_input = reply @ [], ses_end = Eof, ses_drain = None\<rparr>) = (True, VStr ''ACK'')"
  proof (rule signed_bundle_is_acknowledged [where compress = id and sw = demo_signer and k = demo_sk
      and ?t0.0 = demo_validated and ?t1.0 = demo_signed and tnow = 5 and stix = demo_stix and b = demo_stix_bundle
      and pep = "OutboundPep_init main_policy" and dl = "(DeadLetterStore_init 500 ''d'', fs_empty)"])
    show "signer_turn (g_crypto demo_gateway) id demo_signer 5 demo_validated = Inr demo_signed"
      using demo_signing(2) by simp
    show "pep_turn (OutboundPep_init main_policy) demo_signed (DeadLetterStore_init 500 ''d'', fs_empty)
        = (Inr (Some demo_approved), (DeadLetterStore_init 500 ''d'', fs_empty))" by (rule demo_gate)
    show "knows_sender demo_gateway demo_world (tx_sender demo_validated) (hex_bytes (sha256 [1, 2, 3]))
        (pub_of (g_crypto demo_gateway) demo_sk)"
      using demo_knows by (simp add: demo_transactions)
    show "fst (evaluate (g_pep demo_gateway) (tx_sender demo_validated) (tx_recipient demo_validated)
        (TlpMarking_value (sb_tlp_marking demo_stix_bundle)))"
      by (simp add: demo_gateway_def demo_transactions evaluate_def main_rules_def field_match_def)
    show "fst (ingest_bundle (g_pycti demo_gateway) demo_stix (w_ingestor demo_world))" by (rule demo_ingested)
  qed (use f ne demo_ready demo_sizes demo_signing(1) demo_crypto_laws(4) demo_parse in
      \<open>simp_all add: demo_gateway_fields demo_transactions json_pb_roundtrip demo_payload_nonempty\<close>)
  with f(1) show ?thesis by (auto simp: demo_gateway_fields)
qed

end
